(* ===== verification/Prelude.thy ===== *)
theory Prelude
  imports Main "HOL-Library.Sublist"
begin

text \<open>
  What every component of the development shares: the collections of facts the component
  proofs are driven by, and the generic lemmas on lists and sums that the Go code's loops and
  error returns come down to. Nothing here is specific to the platform.
\<close>

named_theorems go_str \<open>facts on the Go string and path operations\<close>
named_theorems store_simps \<open>unfolding rules of the database statements\<close>
named_theorems flow_simps \<open>unfolding rules of the handlers and services\<close>

section \<open>Results of fallible operations\<close>

text \<open>
  A Go function returning \<open>(T, error)\<close> is a function into a sum: \<open>Inl e\<close> is a non-nil
  error, \<open>Inr v\<close> the value with a nil error. A function returning only \<open>error\<close> is a
  function into \<open>'e option\<close>, with \<open>None\<close> for nil.
\<close>

abbreviation is_ok :: "'e + 'a \<Rightarrow> bool" where
  "is_ok r \<equiv> \<not> isl r"

definition then_ok :: "'e + 'a \<Rightarrow> ('a \<Rightarrow> 'e + 'b) \<Rightarrow> 'e + 'b" where
  "then_ok r f = (case r of Inl e \<Rightarrow> Inl e | Inr v \<Rightarrow> f v)"

lemma then_ok_simps [simp]:
  "then_ok (Inl e) f = Inl e"
  "then_ok (Inr v) f = f v"
  by (simp_all add: then_ok_def)

lemma then_ok_InrD: "then_ok r f = Inr b \<Longrightarrow> \<exists>a. r = Inr a \<and> f a = Inr b"
  by (cases r) auto

section \<open>Lists\<close>

lemma prefix_drop_append [simp]: "prefix p (p @ s)"
  by simp

lemma take_drop_prefix: "prefix p s \<Longrightarrow> p @ drop (length p) s = s"
  by (auto simp: prefix_def)

lemma sublist_iff_prefix_drop: "sublist p s \<longleftrightarrow> (\<exists>i\<le>length s. prefix p (drop i s))"
proof
  assume "sublist p s"
  then obtain u v where s: "s = u @ p @ v" by (auto simp: sublist_def)
  then have "prefix p (drop (length u) s)" by simp
  moreover have "length u \<le> length s" using s by simp
  ultimately show "\<exists>i\<le>length s. prefix p (drop i s)" by blast
next
  assume "\<exists>i\<le>length s. prefix p (drop i s)"
  then obtain i v where "drop i s = p @ v" by (auto simp: prefix_def)
  then have "s = take i s @ p @ v" by (metis append_take_drop_id)
  then show "sublist p s" by (auto simp: sublist_def)
qed

lemma last_in_butlast_or: "x \<in> set xs \<Longrightarrow> xs \<noteq> [] \<Longrightarrow> x = last xs \<or> x \<in> set (butlast xs)"
  by (induction xs) auto

lemma set_takeWhile_subset: "set (takeWhile P xs) \<subseteq> set xs"
  by (auto dest: set_takeWhileD)

lemma int_sum_list: "int (sum_list xs) = sum_list (map int xs)"
  by (induction xs) simp_all

section \<open>Machine integers of the source\<close>

text \<open>
  Go's \<open>int64\<close> arithmetic wraps; where the code's values can reach the bound the models use
  this reduction to the representable range, elsewhere the bound is proved unreachable.
\<close>

definition wrap64 :: "int \<Rightarrow> int" where
  "wrap64 x = (x + 2 ^ 63) mod 2 ^ 64 - 2 ^ 63"

definition in_int64 :: "int \<Rightarrow> bool" where
  "in_int64 x \<longleftrightarrow> - (2 ^ 63) \<le> x \<and> x < 2 ^ 63"

lemma wrap64_id [simp]: "in_int64 x \<Longrightarrow> wrap64 x = x"
  by (simp add: wrap64_def in_int64_def)

lemma wrap64_range: "in_int64 (wrap64 x)"
  by (simp add: wrap64_def in_int64_def pos_mod_bound[of "2 ^ 64" "x + 2 ^ 63"])

section \<open>Encodings\<close>

text \<open>
  Two components that exchange a value in encoded form share this contract: whatever is encoded without an
  error is decoded to what it was. Encoding may fail, and decoding may accept more than encodings.
\<close>

locale codec =
  fixes encode :: "'a \<Rightarrow> 'b option" and decode :: "'b \<Rightarrow> 'a option"
  assumes decode_encode: "encode x = Some b \<Longrightarrow> decode b = Some x"
begin

lemma encode_inj: "encode x = Some b \<Longrightarrow> encode y = Some b \<Longrightarrow> x = y"
  using decode_encode[of x b] decode_encode[of y b] by simp

lemma decode_all: "map encode xs = map Some bs \<Longrightarrow> map decode bs = map Some xs"
proof (induction xs arbitrary: bs)
  case (Cons x xs)
  then show ?case by (cases bs) (auto simp: decode_encode)
qed simp

end

end
