(* ===== verification/GoStrings.thy ===== *)
theory GoStrings
  imports Prelude
begin

text \<open>
  The part of Go's \<open>strings\<close> package the platform uses, on byte strings: a Go string is a
  sequence of bytes, and so is a \<^typ>\<open>string\<close> (a character is a byte). The functions are
  executable; their lemmas characterise them without reference to the scanning loops.
\<close>

section \<open>Searching\<close>

definition has_prefix :: "string \<Rightarrow> string \<Rightarrow> bool" where
  "has_prefix s p \<longleftrightarrow> prefix p s"

definition has_suffix :: "string \<Rightarrow> string \<Rightarrow> bool" where
  "has_suffix s p \<longleftrightarrow> suffix p s"

text \<open>\<open>strings.Index\<close>: the least position at which the pattern occurs.\<close>

fun str_index :: "string \<Rightarrow> string \<Rightarrow> nat option" where
  "str_index [] sub = (if sub = [] then Some 0 else None)"
| "str_index (c # s) sub = (if prefix sub (c # s) then Some 0 else map_option Suc (str_index s sub))"

definition str_contains :: "string \<Rightarrow> string \<Rightarrow> bool" where
  "str_contains s sub \<longleftrightarrow> str_index s sub \<noteq> None"

lemma str_index_Some_prefix: "str_index s sub = Some i \<Longrightarrow> i \<le> length s \<and> prefix sub (drop i s)"
  by (induction s arbitrary: i) (auto split: if_splits)

lemma str_index_Some_least: "str_index s sub = Some i \<Longrightarrow> j < i \<Longrightarrow> \<not> prefix sub (drop j s)"
proof (induction s arbitrary: i j)
  case (Cons c s)
  then show ?case by (cases j) (auto split: if_splits)
qed (auto split: if_splits)

lemma str_index_None: "str_index s sub = None \<longleftrightarrow> \<not> sublist sub s"
  by (induction s) (auto simp: sublist_Cons_right)

lemma str_contains_iff [go_str]: "str_contains s sub \<longleftrightarrow> sublist sub s"
  using str_index_None by (auto simp: str_contains_def)

lemma str_index_split:
  assumes "str_index s sub = Some i"
  shows "s = take i s @ sub @ drop (i + length sub) s"
proof -
  from assms have "prefix sub (drop i s)" by (simp add: str_index_Some_prefix)
  then have "drop i s = sub @ drop (length sub) (drop i s)"
    by (metis take_drop_prefix)
  then show ?thesis by (metis add.commute append_take_drop_id drop_drop)
qed

section \<open>Splitting and joining\<close>

text \<open>\<open>strings.Cut\<close>, and \<open>strings.Split\<close> for a non-empty separator.\<close>

definition str_cut :: "string \<Rightarrow> string \<Rightarrow> string \<times> string \<times> bool" where
  "str_cut s sep = (case str_index s sep of
     None \<Rightarrow> (s, [], False)
   | Some i \<Rightarrow> (take i s, drop (i + length sep) s, True))"

function str_split :: "string \<Rightarrow> string \<Rightarrow> string list" where
  "str_split s sep = (case str_index s sep of
     None \<Rightarrow> [s]
   | Some i \<Rightarrow> if sep = [] then [s] else take i s # str_split (drop (i + length sep) s) sep)"
  by pat_completeness auto
termination
proof (relation "measure (\<lambda>(s, sep). length s)")
  fix s sep :: string and i
  assume "str_index s sep = Some i" and "sep \<noteq> []"
  then have "s = take i s @ sep @ drop (i + length sep) s" by (simp add: str_index_split)
  then have "length s \<ge> i + length sep"
    using str_index_Some_prefix[OF \<open>str_index s sep = Some i\<close>]
    by (metis add_le_cancel_left append_take_drop_id diff_add_inverse le_add_diff_inverse length_drop prefix_length_le)
  with \<open>sep \<noteq> []\<close> show "((drop (i + length sep) s, sep), (s, sep)) \<in> measure (\<lambda>(s, sep). length s)"
    by (cases sep) auto
qed simp

declare str_split.simps [simp del]

fun str_join :: "string list \<Rightarrow> string \<Rightarrow> string" where
  "str_join [] sep = []"
| "str_join [x] sep = x"
| "str_join (x # y # xs) sep = x @ sep @ str_join (y # xs) sep"

lemma str_join_Cons: "xs \<noteq> [] \<Longrightarrow> str_join (x # xs) sep = x @ sep @ str_join xs sep"
  by (cases xs) auto

lemma str_join_append:
  "xs \<noteq> [] \<Longrightarrow> ys \<noteq> [] \<Longrightarrow> str_join (xs @ ys) sep = str_join xs sep @ sep @ str_join ys sep"
proof (induction xs)
  case (Cons x xs)
  then show ?case by (cases xs) (auto simp: str_join_Cons)
qed simp

lemma str_split_nonempty [simp]: "str_split s sep \<noteq> []"
  by (subst str_split.simps) (auto split: option.splits)

lemma str_join_split: "str_join (str_split s sep) sep = s"
proof (induction s sep rule: str_split.induct)
  case (1 s sep)
  show ?case
  proof (cases "str_index s sep")
    case None
    then show ?thesis by (simp add: str_split.simps)
  next
    case (Some i)
    with "1.IH"[OF Some] show ?thesis
      by (simp add: str_split.simps[of s] str_join_Cons str_index_split[OF Some, symmetric])
  qed
qed

section \<open>Splitting on one byte\<close>

text \<open>
  Every separator the source splits on, but one, is a single byte; the recursive form below is
  the one the proofs use, and it agrees with \<open>str_split\<close>.
\<close>

fun split_byte :: "char \<Rightarrow> string \<Rightarrow> string list" where
  "split_byte c [] = [[]]"
| "split_byte c (x # s) =
     (if x = c then [] # split_byte c s
      else (case split_byte c s of [] \<Rightarrow> [[x]] | y # ys \<Rightarrow> (x # y) # ys))"

lemma split_byte_nonempty [simp]: "split_byte c s \<noteq> []"
  by (induction s) (auto split: list.splits)

lemma split_byte_no_sep: "x \<in> set (split_byte c s) \<Longrightarrow> c \<notin> set x"
proof (induction s arbitrary: x)
  case (Cons a s)
  then show ?case
    by (cases "split_byte c s") (auto split: if_splits)
qed simp

lemma split_byte_idle: "c \<notin> set s \<Longrightarrow> split_byte c s = [s]"
  by (induction s) auto

lemma split_byte_append: "c \<notin> set u \<Longrightarrow> split_byte c (u @ c # v) = u # split_byte c v"
  by (induction u) auto

lemma split_byte_append_sep: "split_byte c (u @ c # v) = split_byte c u @ split_byte c v"
proof (induction u)
  case (Cons a u)
  then show ?case by (cases "split_byte c u") auto
qed simp

lemma str_index_byte_None: "str_index s [c] = None \<longleftrightarrow> c \<notin> set s"
  by (induction s) auto

lemma str_index_byte_take: "str_index s [c] = Some i \<Longrightarrow> c \<notin> set (take i s)"
  by (induction s arbitrary: i) (auto split: if_splits)

lemma str_split_byte: "str_split s [c] = split_byte c s"
proof (induction s "[c]" rule: str_split.induct)
  case (1 s)
  show ?case
  proof (cases "str_index s [c]")
    case None
    then have "c \<notin> set s" by (simp add: str_index_byte_None)
    with None show ?thesis by (simp add: str_split.simps[of s] split_byte_idle)
  next
    case (Some i)
    have "s = take i s @ c # drop (Suc i) s" using str_index_split[OF Some] by simp
    moreover have "c \<notin> set (take i s)" using Some by (rule str_index_byte_take)
    ultimately have "split_byte c s = take i s # split_byte c (drop (Suc i) s)"
      by (metis split_byte_append)
    with Some "1"[OF Some] show ?thesis by (simp add: str_split.simps[of s])
  qed
qed

lemma str_join_no_sep_split:
  assumes "\<forall>x\<in>set xs. c \<notin> set x" and "xs \<noteq> []"
  shows "split_byte c (str_join xs [c]) = xs"
  using assms
proof (induction xs)
  case (Cons x xs)
  then show ?case
    by (cases xs) (auto simp: split_byte_idle split_byte_append)
qed simp

section \<open>Trimming\<close>

text \<open>
  \<open>strings.TrimSpace\<close> strips the code points of \<open>unicode.IsSpace\<close> at both ends. In UTF-8
  these are the six ASCII blanks and the encodings of U+0085, U+00A0, U+1680, U+2000 to U+200A,
  U+2028, U+2029, U+202F, U+205F and U+3000. Each encoding starts with a lead byte, so reading
  it as a suffix is what decoding the last rune does.
\<close>

definition space_encodings :: "string list" where
  "space_encodings =
    [[CHR 0x09],
     [CHR 0x0A],
     [CHR 0x0B],
     [CHR 0x0C],
     [CHR 0x0D],
     [CHR '' ''],
     [CHR 0xC2, CHR 0x85],
     [CHR 0xC2, CHR 0xA0],
     [CHR 0xE1, CHR 0x9A, CHR 0x80],
     [CHR 0xE2, CHR 0x80, CHR 0x80],
     [CHR 0xE2, CHR 0x80, CHR 0x81],
     [CHR 0xE2, CHR 0x80, CHR 0x82],
     [CHR 0xE2, CHR 0x80, CHR 0x83],
     [CHR 0xE2, CHR 0x80, CHR 0x84],
     [CHR 0xE2, CHR 0x80, CHR 0x85],
     [CHR 0xE2, CHR 0x80, CHR 0x86],
     [CHR 0xE2, CHR 0x80, CHR 0x87],
     [CHR 0xE2, CHR 0x80, CHR 0x88],
     [CHR 0xE2, CHR 0x80, CHR 0x89],
     [CHR 0xE2, CHR 0x80, CHR 0x8A],
     [CHR 0xE2, CHR 0x80, CHR 0xA8],
     [CHR 0xE2, CHR 0x80, CHR 0xA9],
     [CHR 0xE2, CHR 0x80, CHR 0xAF],
     [CHR 0xE2, CHR 0x81, CHR 0x9F],
     [CHR 0xE3, CHR 0x80, CHR 0x80]]"

lemma space_encodings_nonempty: "w \<in> set space_encodings \<Longrightarrow> w \<noteq> []"
  by (auto simp: space_encodings_def)

function trim_left_of :: "string list \<Rightarrow> string \<Rightarrow> string" where
  "trim_left_of ws s = (case find (\<lambda>w. w \<noteq> [] \<and> prefix w s) ws of
     None \<Rightarrow> s | Some w \<Rightarrow> trim_left_of ws (drop (length w) s))"
  by pat_completeness auto
termination
  by (relation "measure (\<lambda>(ws, s). length s)")
     (auto simp: find_Some_iff prefix_def)

declare trim_left_of.simps [simp del]

definition trim_left_space :: "string \<Rightarrow> string" where
  "trim_left_space s = trim_left_of space_encodings s"

definition trim_right_space :: "string \<Rightarrow> string" where
  "trim_right_space s = rev (trim_left_of (map rev space_encodings) (rev s))"

definition str_trim_space :: "string \<Rightarrow> string" where
  "str_trim_space s = trim_right_space (trim_left_space s)"

definition starts_blank :: "string \<Rightarrow> bool" where
  "starts_blank s \<longleftrightarrow> (\<exists>w\<in>set space_encodings. prefix w s)"

definition ends_blank :: "string \<Rightarrow> bool" where
  "ends_blank s \<longleftrightarrow> (\<exists>w\<in>set space_encodings. suffix w s)"

text \<open>\<open>strings.TrimSuffix\<close>.\<close>

definition str_trim_suffix :: "string \<Rightarrow> string \<Rightarrow> string" where
  "str_trim_suffix s p = (if suffix p s then take (length s - length p) s else s)"

lemma str_trim_suffix_append [simp]: "str_trim_suffix (s @ p) p = s"
  by (auto simp: str_trim_suffix_def suffix_def)

lemma trim_left_of_suffix: "suffix (trim_left_of ws s) s"
proof (induction ws s rule: trim_left_of.induct)
  case (1 ws s)
  then show ?case
    by (subst trim_left_of.simps) (auto split: option.splits intro: suffix_order.trans suffix_drop)
qed

lemma trim_left_of_stop: "w \<in> set ws \<Longrightarrow> w \<noteq> [] \<Longrightarrow> \<not> prefix w (trim_left_of ws s)"
proof (induction ws s rule: trim_left_of.induct)
  case (1 ws s)
  then show ?case
    by (subst trim_left_of.simps) (auto split: option.splits simp: find_None_iff)
qed

lemma trim_left_of_idle: "(\<And>w. w \<in> set ws \<Longrightarrow> w \<noteq> [] \<Longrightarrow> \<not> prefix w s) \<Longrightarrow> trim_left_of ws s = s"
  by (subst trim_left_of.simps) (auto split: option.splits simp: find_Some_iff)

lemma str_trim_space_sublist: "sublist (str_trim_space s) s"
proof -
  have "suffix (trim_left_space s) s"
    by (simp add: trim_left_space_def trim_left_of_suffix)
  moreover have "prefix (str_trim_space s) (trim_left_space s)"
    using trim_left_of_suffix[of "map rev space_encodings" "rev (trim_left_space s)"]
    by (simp add: str_trim_space_def trim_right_space_def suffix_to_prefix)
  ultimately show ?thesis
    by (meson prefix_imp_sublist sublist_order.order.trans suffix_imp_sublist)
qed

lemma str_trim_space_set: "set (str_trim_space s) \<subseteq> set s"
  using str_trim_space_sublist set_mono_sublist by blast

lemma str_trim_space_ends: "\<not> ends_blank (str_trim_space s)"
proof
  assume "ends_blank (str_trim_space s)"
  then obtain w where w: "w \<in> set space_encodings" "suffix w (str_trim_space s)"
    by (auto simp: ends_blank_def)
  then have "prefix (rev w) (trim_left_of (map rev space_encodings) (rev (trim_left_space s)))"
    by (simp add: str_trim_space_def trim_right_space_def suffix_to_prefix)
  moreover have "rev w \<in> set (map rev space_encodings)" and "rev w \<noteq> []"
    using w(1) space_encodings_nonempty by auto
  ultimately show False by (simp add: trim_left_of_stop)
qed

lemma str_trim_space_idle [go_str]:
  assumes "\<not> starts_blank s" and "\<not> ends_blank s"
  shows "str_trim_space s = s"
proof -
  have "trim_left_space s = s"
    unfolding trim_left_space_def using assms(1)
    by (intro trim_left_of_idle) (auto simp: starts_blank_def)
  moreover have "trim_left_of (map rev space_encodings) (rev s) = rev s"
    using assms(2) by (intro trim_left_of_idle) (auto simp: ends_blank_def suffix_to_prefix)
  ultimately show ?thesis by (simp add: str_trim_space_def trim_right_space_def)
qed

text \<open>A string of plain printable ASCII at both ends is left alone.\<close>

definition plain_char :: "char \<Rightarrow> bool" where
  "plain_char c \<longleftrightarrow> 33 \<le> (of_char c :: nat) \<and> (of_char c :: nat) \<le> 126"

lemma space_encoding_hd_last:
  "w \<in> set space_encodings \<Longrightarrow> \<not> plain_char (hd w) \<and> \<not> plain_char (last w)"
  by (auto simp: space_encodings_def plain_char_def)

lemma plain_not_starts_blank: "s \<noteq> [] \<Longrightarrow> plain_char (hd s) \<Longrightarrow> \<not> starts_blank s"
  using space_encoding_hd_last space_encodings_nonempty
  by (fastforce simp: starts_blank_def prefix_def)

lemma plain_not_ends_blank: "s \<noteq> [] \<Longrightarrow> plain_char (last s) \<Longrightarrow> \<not> ends_blank s"
  using space_encoding_hd_last space_encodings_nonempty
  by (fastforce simp: ends_blank_def suffix_def)

lemma str_trim_space_plain [go_str]:
  "s \<noteq> [] \<Longrightarrow> plain_char (hd s) \<Longrightarrow> plain_char (last s) \<Longrightarrow> str_trim_space s = s"
  by (simp add: str_trim_space_idle plain_not_starts_blank plain_not_ends_blank)

lemma str_trim_space_Nil [simp]: "str_trim_space [] = []"
  using str_trim_space_sublist[of "[]"] by simp

end
