(* ===== verification/GoPath.thy ===== *)
theory GoPath
  imports GoStrings
begin

text \<open>
  Go's lexical path operations (\<open>path/filepath\<close> on Linux): \<open>Clean\<close>, \<open>Join\<close>, \<open>IsAbs\<close>,
  \<open>Dir\<close>. \<open>Clean\<close> processes the slash-separated elements with a stack: empty elements and
  \<open>.\<close> disappear, \<open>..\<close> pops the last proper element, stays in front of a relative path and is
  dropped at the root. The central fact for the archive extractors is that a cleaned rooted
  path has no \<open>..\<close> element, so a lexical prefix check confines it.
\<close>

abbreviation dotdot :: string where
  "dotdot \<equiv> ''..''"

definition path_segments :: "string \<Rightarrow> string list" where
  "path_segments p = split_byte (CHR ''/'') p"

definition path_join_segments :: "string list \<Rightarrow> string" where
  "path_join_segments xs = str_join xs ''/''"

definition is_abs :: "string \<Rightarrow> bool" where
  "is_abs p \<longleftrightarrow> has_prefix p ''/''"

fun clean_segments :: "bool \<Rightarrow> string list \<Rightarrow> string list \<Rightarrow> string list" where
  "clean_segments rooted st [] = rev st"
| "clean_segments rooted st (x # xs) =
     (if x = [] \<or> x = ''.'' then clean_segments rooted st xs
      else if x = dotdot then
        (case st of
           [] \<Rightarrow> clean_segments rooted (if rooted then [] else [dotdot]) xs
         | y # ys \<Rightarrow> clean_segments rooted (if y = dotdot then dotdot # st else ys) xs)
      else clean_segments rooted (x # st) xs)"

definition path_clean :: "string \<Rightarrow> string" where
  "path_clean p =
     (let segs = clean_segments (is_abs p) [] (path_segments p) in
      if is_abs p then CHR ''/'' # path_join_segments segs
      else if segs = [] then ''.'' else path_join_segments segs)"

text \<open>\<open>filepath.Join\<close> of two elements.\<close>

definition path_join :: "string \<Rightarrow> string \<Rightarrow> string" where
  "path_join a b =
     (if a \<noteq> [] then path_clean (a @ ''/'' @ b)
      else if b \<noteq> [] then path_clean b else [])"

text \<open>\<open>filepath.Dir\<close>: everything up to the last slash, cleaned.\<close>

definition path_dir :: "string \<Rightarrow> string" where
  "path_dir p = path_clean (rev (dropWhile (\<lambda>c. c \<noteq> CHR ''/'') (rev p)))"

section \<open>Cleaned element lists\<close>

definition clean_element :: "string \<Rightarrow> bool" where
  "clean_element x \<longleftrightarrow> x \<noteq> [] \<and> x \<noteq> ''.'' \<and> CHR ''/'' \<notin> set x"

lemma path_segments_no_slash: "x \<in> set (path_segments p) \<Longrightarrow> CHR ''/'' \<notin> set x"
  unfolding path_segments_def by (rule split_byte_no_sep)

lemma list_all_clean_segments:
  assumes "list_all clean_element st" and "list_all (\<lambda>x. CHR ''/'' \<notin> set x) xs"
  shows "list_all clean_element (clean_segments rooted st xs)"
  using assms
proof (induction xs arbitrary: st)
  case Nil
  then show ?case by simp
next
  case (Cons x xs)
  have dd: "clean_element dotdot" by (simp add: clean_element_def)
  have proper: "x \<noteq> [] \<Longrightarrow> x \<noteq> ''.'' \<Longrightarrow> clean_element x"
    using Cons.prems(2) by (simp add: clean_element_def)
  show ?case
    using Cons.prems Cons.IH dd proper by (cases st) simp_all
qed

lemma clean_segments_elements:
  assumes "\<forall>x\<in>set st. clean_element x" and "\<forall>x\<in>set xs. CHR ''/'' \<notin> set x"
  shows "\<forall>x\<in>set (clean_segments rooted st xs). clean_element x"
  using list_all_clean_segments assms by (simp add: list_all_iff)

lemma clean_segments_no_dotdot:
  assumes "dotdot \<notin> set st"
  shows "dotdot \<notin> set (clean_segments True st xs)"
  using assms
proof (induction True st xs rule: clean_segments.induct)
  case (2 st x xs)
  then show ?case by (auto split: list.splits)
qed simp

lemma clean_segments_idle:
  assumes "\<forall>x\<in>set xs. clean_element x" and "dotdot \<notin> set xs"
  shows "clean_segments rooted st xs = rev st @ xs"
  using assms by (induction xs arbitrary: st) (auto simp: clean_element_def)

lemma path_segments_join:
  assumes "\<forall>x\<in>set xs. clean_element x" and "xs \<noteq> []"
  shows "path_segments (path_join_segments xs) = xs"
  unfolding path_segments_def path_join_segments_def
  using assms by (intro str_join_no_sep_split) (auto simp: clean_element_def)

lemma path_join_segments_Nil [simp]: "path_join_segments [] = []"
  by (simp add: path_join_segments_def)

section \<open>Rooted paths\<close>

lemma is_abs_Cons [simp]: "is_abs (CHR ''/'' # p)"
  by (simp add: is_abs_def has_prefix_def)

lemma is_abs_path_clean: "is_abs p \<Longrightarrow> is_abs (path_clean p)"
  by (simp add: path_clean_def Let_def)

lemma rooted_segments_Cons: "path_segments (CHR ''/'' # p) = [] # path_segments p"
  by (simp add: path_segments_def)

lemma path_clean_rooted_no_dotdot [go_str]:
  assumes "is_abs p"
  shows "dotdot \<notin> set (path_segments (path_clean p))"
proof -
  let ?segs = "clean_segments True [] (path_segments p)"
  have elems: "\<forall>x\<in>set ?segs. clean_element x"
    by (rule clean_segments_elements) (auto dest: path_segments_no_slash)
  have nodd: "dotdot \<notin> set ?segs" by (rule clean_segments_no_dotdot) simp
  have "path_clean p = CHR ''/'' # path_join_segments ?segs"
    using assms by (simp add: path_clean_def)
  moreover have "dotdot \<notin> set (path_segments (path_join_segments ?segs))"
  proof (cases "?segs = []")
    case True
    then show ?thesis by (simp add: path_segments_def)
  next
    case False
    then show ?thesis using nodd by (simp add: path_segments_join[OF elems])
  qed
  ultimately show ?thesis by (simp add: rooted_segments_Cons)
qed

lemma path_join_rooted:
  assumes "is_abs a"
  shows "is_abs (path_join a b)" and "dotdot \<notin> set (path_segments (path_join a b))"
proof -
  have "a \<noteq> []" and abs: "is_abs (a @ ''/'' @ b)"
    using assms by (auto simp: is_abs_def has_prefix_def prefix_def)
  then have "path_join a b = path_clean (a @ ''/'' @ b)"
    by (simp add: path_join_def)
  with abs show "is_abs (path_join a b)" and "dotdot \<notin> set (path_segments (path_join a b))"
    by (simp_all add: is_abs_path_clean path_clean_rooted_no_dotdot)
qed

lemma path_clean_idem_rooted:
  assumes "is_abs p"
  shows "path_clean (path_clean p) = path_clean p"
proof -
  let ?segs = "clean_segments True [] (path_segments p)"
  have elems: "\<forall>x\<in>set ?segs. clean_element x"
    by (rule clean_segments_elements) (auto dest: path_segments_no_slash)
  have nodd: "dotdot \<notin> set ?segs" by (rule clean_segments_no_dotdot) simp
  have eq: "path_clean p = CHR ''/'' # path_join_segments ?segs"
    using assms by (simp add: path_clean_def)
  have "clean_segments True [] ([] # path_segments (path_join_segments ?segs)) = ?segs"
  proof (cases "?segs = []")
    case True
    then show ?thesis by (simp add: path_segments_def)
  next
    case False
    then show ?thesis
      by (simp add: path_segments_join[OF elems] clean_segments_idle[OF elems nodd])
  qed
  then show ?thesis
    unfolding eq by (simp add: path_clean_def rooted_segments_Cons)
qed

section \<open>Relative paths\<close>

text \<open>
  \<open>strings.Contains(p, "..")\<close> is stronger than an element being \<open>..\<close>: a path without the
  two-dot substring has no such element.
\<close>

lemma segment_sublist: "x \<in> set (path_segments p) \<Longrightarrow> sublist x p"
proof -
  assume x: "x \<in> set (path_segments p)"
  have p: "p = path_join_segments (path_segments p)"
    using str_join_split[of p "''/''"]
    by (simp add: path_join_segments_def path_segments_def str_split_byte)
  have "x \<in> set xs \<Longrightarrow> sublist x (str_join xs sep)" for xs and sep :: string
    by (induction xs sep rule: str_join.induct)
       (auto intro: sublist_appendI simp: sublist_append)
  then show ?thesis using x p by (metis path_join_segments_def)
qed

lemma no_dotdot_substring: "\<not> str_contains p dotdot \<Longrightarrow> dotdot \<notin> set (path_segments p)"
  using segment_sublist by (auto simp: str_contains_iff)

section \<open>Confinement\<close>

text \<open>
  Joining a name without a \<open>..\<close> element to a directory stays in the directory: the
  directory's cleaned elements are a prefix of the result's.
\<close>

definition below :: "string \<Rightarrow> string \<Rightarrow> bool" where
  "below base p \<longleftrightarrow> p = base \<or> has_prefix p (base @ ''/'')"

lemma path_segments_append: "path_segments (a @ CHR ''/'' # b) = path_segments a @ path_segments b"
  using split_byte_append_sep[of "CHR ''/''" a b] by (simp add: path_segments_def)

lemma clean_segments_proper:
  assumes "dotdot \<notin> set xs"
  shows "clean_segments rooted st xs = rev st @ filter (\<lambda>x. x \<noteq> [] \<and> x \<noteq> ''.'') xs"
  using assms by (induction xs arbitrary: st) auto

lemma clean_segments_append:
  assumes "dotdot \<notin> set ys"
  shows "clean_segments rooted st (xs @ ys) =
         clean_segments rooted st xs @ filter (\<lambda>x. x \<noteq> [] \<and> x \<noteq> ''.'') ys"
proof (induction xs arbitrary: st)
  case Nil
  then show ?case using assms by (simp add: clean_segments_proper)
next
  case (Cons x xs)
  then show ?case by (cases st) auto
qed

lemma path_join_below:
  assumes "is_abs base" and "dotdot \<notin> set (path_segments name)" and "path_clean base \<noteq> ''/''"
  shows "below (path_clean base) (path_join base name)"
proof -
  let ?B = "clean_segments True [] (path_segments base)"
  let ?R = "filter (\<lambda>x. x \<noteq> [] \<and> x \<noteq> ''.'') (path_segments name)"
  have "base \<noteq> []" and abs: "is_abs (base @ ''/'' @ name)"
    using assms(1) by (auto simp: is_abs_def has_prefix_def prefix_def)
  then have "path_join base name = path_clean (base @ ''/'' @ name)"
    by (simp add: path_join_def)
  also have "\<dots> = CHR ''/'' # path_join_segments (?B @ ?R)"
    using abs assms(2) by (simp add: path_clean_def path_segments_append clean_segments_append)
  finally have join: "path_join base name = CHR ''/'' # path_join_segments (?B @ ?R)" .
  have base: "path_clean base = CHR ''/'' # path_join_segments ?B"
    using assms(1) by (simp add: path_clean_def)
  with assms(3) have "?B \<noteq> []" by auto
  show ?thesis
  proof (cases "?R = []")
    case True
    with join base show ?thesis by (simp add: below_def)
  next
    case False
    with \<open>?B \<noteq> []\<close> have "path_join_segments (?B @ ?R) =
        path_join_segments ?B @ ''/'' @ path_join_segments ?R"
      by (simp add: path_join_segments_def str_join_append)
    with join base show ?thesis by (simp add: below_def has_prefix_def)
  qed
qed

lemma path_join_below_clean:
  assumes "is_abs base" and "path_clean base = base" and "base \<noteq> ''/''" and "dotdot \<notin> set (path_segments name)"
  shows "below base (path_join base name)"
  using path_join_below[OF assms(1,4)] assms(2,3) by simp

text \<open>The directory of a path strictly below a cleaned directory is in that directory again.\<close>

lemma is_abs_append: "is_abs u \<Longrightarrow> is_abs (u @ v)"
  by (auto simp: is_abs_def has_prefix_def prefix_def)

lemma path_clean_trailing_slash:
  assumes "is_abs u"
  shows "path_clean (u @ ''/'') = path_clean u"
proof -
  have "path_segments (u @ ''/'') = path_segments u @ [[]]"
    using path_segments_append[of u "[]"] by (simp add: path_segments_def)
  then show ?thesis
    using assms is_abs_append[OF assms, of "''/''"]
    by (simp add: path_clean_def clean_segments_append)
qed

lemma dropWhile_rev_slash:
  "CHR ''/'' \<notin> set w \<Longrightarrow>
   rev (dropWhile (\<lambda>c. c \<noteq> CHR ''/'') (rev (u @ CHR ''/'' # w))) = u @ ''/''"
  by (simp add: dropWhile_append)

lemma last_slash:
  assumes "CHR ''/'' \<in> set p"
  obtains u w where "p = u @ CHR ''/'' # w" "CHR ''/'' \<notin> set w"
  using split_list_last[OF assms] by blast

lemma path_dir_below:
  assumes abs: "is_abs base" and cl: "path_clean base = base" and "base \<noteq> ''/''"
    and pre: "has_prefix p (base @ ''/'')" and nodd: "dotdot \<notin> set (path_segments p)"
  shows "below base (path_dir p)"
proof -
  obtain q where q: "p = base @ CHR ''/'' # q" using pre by (auto simp: has_prefix_def prefix_def)
  have segq: "dotdot \<notin> set (path_segments q)"
    using nodd by (simp add: q path_segments_append)
  show ?thesis
  proof (cases "CHR ''/'' \<in> set q")
    case False
    then have "path_dir p = path_clean (base @ ''/'')"
      unfolding path_dir_def q by (simp only: dropWhile_rev_slash not_False_eq_True)
    with cl show ?thesis by (simp add: path_clean_trailing_slash[OF abs] below_def)
  next
    case True
    then obtain q' w where q': "q = q' @ CHR ''/'' # w" "CHR ''/'' \<notin> set w" by (rule last_slash)
    have "p = (base @ CHR ''/'' # q') @ CHR ''/'' # w" using q q' by simp
    then have "path_dir p = path_clean ((base @ CHR ''/'' # q') @ ''/'')"
      unfolding path_dir_def using dropWhile_rev_slash[OF q'(2)] by metis
    also have "\<dots> = path_clean (base @ CHR ''/'' # q')"
      by (rule path_clean_trailing_slash) (rule is_abs_append[OF abs])
    also have "\<dots> = path_join base q'"
      using abs by (auto simp: path_join_def is_abs_def has_prefix_def)
    finally have "path_dir p = path_join base q'" .
    moreover have "dotdot \<notin> set (path_segments q')"
      using segq by (simp add: q' path_segments_append)
    ultimately show ?thesis using path_join_below_clean[OF abs cl assms(3)] by simp
  qed
qed

end
