(* ===== verification/Unzipper.thy ===== *)
theory Unzipper
  imports GoPath
begin

text \<open>
  \<open>internal/analyzer/orchestrator/unzipper.go\<close>: the extraction of an uploaded archive into the
  quarantine directory. The decompressed tar stream is a list of entries, ended by the end of the
  stream or by a malformed header; the file system answers each operation with success or failure
  through the argument \<open>os_ok\<close>, and the operations that were carried out are the result's trace.
\<close>

section \<open>Archives and file system operations\<close>

record tar_entry =
  te_name :: string
  te_type :: char
  te_content :: string
  te_broken :: bool

text \<open>\<open>te_broken\<close>: the stream fails after the content instead of ending the entry.\<close>

datatype tar_item = Entry tar_entry | Malformed

definition TypeReg :: char where "TypeReg = CHR ''0''"
definition TypeDir :: char where "TypeDir = CHR ''5''"

datatype fs_op = MkdirAll string | OpenFile string | WriteFile string string

datatype unzip_error =
    OpenFailed | BadGzip | StagingFailed | BadHeader | TraversalBlocked string | MkdirFailed
  | CreateFailed string | CopyFailed string | SizeExceeded

section \<open>Extraction\<close>

definition default_max_bytes :: int where
  "default_max_bytes = 50 * 1024 * 1024"

definition NewUnzipper :: "int \<Rightarrow> int" where
  "NewUnzipper maxSizeBytes = (if maxSizeBytes \<le> 0 then default_max_bytes else maxSizeBytes)"

definition destination :: "string \<Rightarrow> string \<Rightarrow> string" where
  "destination base name = path_join base (path_clean name)"

text \<open>
  \<open>io.Copy\<close> through a limit reader: at most \<open>cap\<close> bytes; the copy fails when the stream breaks
  before the limit.
\<close>

definition copy_limited :: "tar_entry \<Rightarrow> int \<Rightarrow> string \<times> bool" where
  "copy_limited e cap =
     (take (nat cap) (te_content e), te_broken e \<and> int (length (te_content e)) < cap)"

text \<open>One pass through the loop body: an error, the operations carried out and the new total.\<close>

definition extract_entry ::
  "(fs_op \<Rightarrow> bool) \<Rightarrow> int \<Rightarrow> string \<Rightarrow> int \<Rightarrow> tar_entry \<Rightarrow> unzip_error option \<times> fs_op list \<times> int" where
  "extract_entry os_ok maxBytes base tot e =
     (let dest = destination base (te_name e) in
      if \<not> has_prefix dest (base @ ''/'') \<and> dest \<noteq> base then (Some (TraversalBlocked (te_name e)), [], tot)
      else if te_type e = TypeDir then
        (if os_ok (MkdirAll dest) then (None, [MkdirAll dest], tot) else (Some MkdirFailed, [], tot))
      else if te_type e = TypeReg then
        (if \<not> os_ok (MkdirAll (path_dir dest)) then (Some MkdirFailed, [], tot)
         else if \<not> os_ok (OpenFile dest)
         then (Some (CreateFailed (te_name e)), [MkdirAll (path_dir dest)], tot)
         else
           let remainingCap = maxBytes - tot;
               (written, copyErr) = copy_limited e remainingCap;
               ops = [MkdirAll (path_dir dest), OpenFile dest, WriteFile dest written];
               tot' = tot + int (length written) in
           if copyErr then (Some (CopyFailed (te_name e)), ops, tot)
           else if tot' \<ge> maxBytes then (Some SizeExceeded, ops, tot')
           else (None, ops, tot'))
      else (None, [], tot))"

fun extract_entries ::
  "(fs_op \<Rightarrow> bool) \<Rightarrow> int \<Rightarrow> string \<Rightarrow> int \<Rightarrow> tar_item list \<Rightarrow> fs_op list \<Rightarrow> unzip_error option \<times> fs_op list"
where
  "extract_entries os_ok maxBytes base tot [] tr = (None, tr)"
| "extract_entries os_ok maxBytes base tot (Malformed # items) tr = (Some BadHeader, tr)"
| "extract_entries os_ok maxBytes base tot (Entry e # items) tr =
     (case extract_entry os_ok maxBytes base tot e of
        (Some err, ops, tot') \<Rightarrow> (Some err, tr @ ops)
      | (None, ops, tot') \<Rightarrow> extract_entries os_ok maxBytes base tot' items (tr @ ops))"

text \<open>
  \<open>Extract\<close>: \<open>opened\<close> and \<open>gzip_ok\<close> say whether the archive file opens and starts a gzip stream.
\<close>

definition Extract ::
  "(fs_op \<Rightarrow> bool) \<Rightarrow> bool \<Rightarrow> bool \<Rightarrow> int \<Rightarrow> tar_item list \<Rightarrow> string \<Rightarrow> unzip_error option \<times> fs_op list" where
  "Extract os_ok opened gzip_ok maxBytes items targetDir =
     (if \<not> opened then (Some OpenFailed, [])
      else if \<not> gzip_ok then (Some BadGzip, [])
      else let base = path_clean targetDir in
        if \<not> os_ok (MkdirAll base) then (Some StagingFailed, [])
        else extract_entries os_ok maxBytes base 0 items [MkdirAll base])"

section \<open>Confinement\<close>

text \<open>
  Where an operation may act: writing only below the base directory, creating directories below
  it or (for an entry that names the directory itself) its parent, which exists.
\<close>

fun op_confined :: "string \<Rightarrow> fs_op \<Rightarrow> bool" where
  "op_confined base (MkdirAll p) \<longleftrightarrow> below base p \<or> p = path_dir base"
| "op_confined base (OpenFile p) \<longleftrightarrow> below base p \<and> dotdot \<notin> set (path_segments p)"
| "op_confined base (WriteFile p b) \<longleftrightarrow> below base p \<and> dotdot \<notin> set (path_segments p)"

definition clean_base :: "string \<Rightarrow> bool" where
  "clean_base base \<longleftrightarrow> is_abs base \<and> path_clean base = base \<and> base \<noteq> ''/''"

lemma extract_entry_confined:
  assumes "clean_base base" and "extract_entry os_ok maxBytes base tot e = (err, ops, tot')"
  shows "list_all (op_confined base) ops"
proof (cases "\<not> has_prefix (destination base (te_name e)) (base @ ''/'') \<and> destination base (te_name e) \<noteq> base")
  case True
  with assms(2) show ?thesis by (auto simp: extract_entry_def Let_def)
next
  case False
  define dest where "dest = destination base (te_name e)"
  have below: "below base dest" using False by (auto simp: below_def dest_def)
  have nodd: "dotdot \<notin> set (path_segments dest)"
    using assms(1) path_join_rooted(2) by (simp add: clean_base_def destination_def dest_def)
  have "op_confined base (MkdirAll dest)" "op_confined base (OpenFile dest)"
    "\<And>b. op_confined base (WriteFile dest b)"
    using below nodd by simp_all
  moreover have "op_confined base (MkdirAll (path_dir dest))"
    using below assms(1) nodd path_dir_below[of base dest]
    by (auto simp: below_def clean_base_def)
  ultimately show ?thesis
    using assms(2) unfolding extract_entry_def dest_def[symmetric]
    by (auto simp: Let_def split: if_splits prod.splits)
qed

lemma extract_entries_confined:
  assumes "clean_base base" and "list_all (op_confined base) tr"
  shows "list_all (op_confined base) (snd (extract_entries os_ok maxBytes base tot items tr))"
  using assms(2)
proof (induction items arbitrary: tot tr)
  case (Cons item items)
  then show ?case
    using extract_entry_confined[OF assms(1)]
    by (cases item) (auto split: prod.splits option.splits)
qed simp

text \<open>
  C13: No archive, however its entry names are written and wherever it breaks off, makes the
  extraction open or write a file outside the target directory or through a \<open>..\<close> element.
\<close>

theorem extract_confined:
  assumes "is_abs target" and "path_clean target \<noteq> ''/''"
  shows "list_all (op_confined (path_clean target)) (snd (Extract os_ok opened gzip_ok maxBytes items target))"
proof -
  have base: "clean_base (path_clean target)"
    using assms by (simp add: clean_base_def is_abs_path_clean path_clean_idem_rooted)
  have "op_confined (path_clean target) (MkdirAll (path_clean target))" by (simp add: below_def)
  then show ?thesis
    using extract_entries_confined[OF base] by (simp add: Extract_def Let_def)
qed

definition sample_entry :: "string \<Rightarrow> tar_item" where
  "sample_entry name = Entry \<lparr>te_name = name, te_type = TypeReg, te_content = ''abc'', te_broken = False\<rparr>"

theorem extract_confined_witness:
  "fst (Extract (\<lambda>_. True) True True 10 [sample_entry ''../../etc/cron'', sample_entry ''b''] ''/tmp/q'') =
     Some (TraversalBlocked ''../../etc/cron'') \<and>
   list_all (op_confined (path_clean ''/tmp/q''))
     (snd (Extract (\<lambda>_. True) True True 10 [sample_entry ''../../etc/cron'', sample_entry ''b''] ''/tmp/q''))"
proof
  show "fst (Extract (\<lambda>_. True) True True 10 [sample_entry ''../../etc/cron'', sample_entry ''b''] ''/tmp/q'') =
     Some (TraversalBlocked ''../../etc/cron'')" by code_simp
  have "is_abs ''/tmp/q''" by (simp add: is_abs_def has_prefix_def)
  moreover have "path_clean ''/tmp/q'' \<noteq> ''/''" by code_simp
  ultimately show "list_all (op_confined (path_clean ''/tmp/q''))
     (snd (Extract (\<lambda>_. True) True True 10 [sample_entry ''../../etc/cron'', sample_entry ''b''] ''/tmp/q''))"
    by (rule extract_confined)
qed

section \<open>The decompression bound\<close>

fun op_bytes :: "fs_op \<Rightarrow> int" where
  "op_bytes (WriteFile p b) = int (length b)"
| "op_bytes _ = 0"

definition bytes_written :: "fs_op list \<Rightarrow> int" where
  "bytes_written tr = sum_list (map op_bytes tr)"

lemma bytes_written_simps [simp]:
  "bytes_written [] = 0" "bytes_written (x # xs) = op_bytes x + bytes_written xs"
  "bytes_written (xs @ ys) = bytes_written xs + bytes_written ys"
  by (simp_all add: bytes_written_def)

lemma copy_limited_bound: "0 \<le> cap \<Longrightarrow> int (length (fst (copy_limited e cap))) \<le> cap"
  by (simp add: copy_limited_def)

lemma extract_entry_bytes:
  assumes "extract_entry os_ok maxBytes base tot e = (err, ops, tot')" and "tot < maxBytes"
  shows "tot + bytes_written ops \<le> maxBytes \<and> (err = None \<longrightarrow> tot' = tot + bytes_written ops \<and> tot' < maxBytes)"
proof -
  have "int (length (fst (copy_limited e (maxBytes - tot)))) \<le> maxBytes - tot"
    using assms(2) by (intro copy_limited_bound) simp
  with assms show ?thesis
    by (auto simp: extract_entry_def Let_def split_beta split: if_splits)
qed

lemma extract_entries_bytes:
  assumes "bytes_written tr = tot" and "tot < maxBytes"
  shows "bytes_written (snd (extract_entries os_ok maxBytes base tot items tr)) \<le> maxBytes"
  using assms
proof (induction items arbitrary: tot tr)
  case (Cons item items)
  show ?case
  proof (cases item)
    case (Entry e)
    obtain err ops tot' where e: "extract_entry os_ok maxBytes base tot e = (err, ops, tot')"
      by (metis prod_cases3)
    note bytes = extract_entry_bytes[OF e Cons.prems(2)]
    show ?thesis
    proof (cases err)
      case None
      with bytes Cons.prems(1) Cons.IH[of "tr @ ops" tot'] show ?thesis by (simp add: Entry e)
    next
      case (Some x)
      with bytes Cons.prems(1) show ?thesis by (simp add: Entry e)
    qed
  next
    case Malformed
    with Cons.prems show ?thesis by simp
  qed
qed simp

text \<open>
  C14: Whatever the archive decompresses to, at most \<open>MaxAllowedBytes\<close> bytes are written before
  the extraction stops.
\<close>

theorem extract_bounded:
  assumes "0 < maxBytes"
  shows "bytes_written (snd (Extract os_ok opened gzip_ok maxBytes items target)) \<le> maxBytes"
  using assms extract_entries_bytes[of "[MkdirAll (path_clean target)]" 0 maxBytes]
  by (simp add: Extract_def Let_def)

theorem extract_bounded_witness:
  "bytes_written (snd (Extract (\<lambda>_. True) True True 4 [sample_entry ''a'', sample_entry ''b''] ''/tmp/q'')) \<le> 4 \<and>
   fst (Extract (\<lambda>_. True) True True 4 [sample_entry ''a'', sample_entry ''b''] ''/tmp/q'') = Some SizeExceeded"
proof
  show "bytes_written (snd (Extract (\<lambda>_. True) True True 4 [sample_entry ''a'', sample_entry ''b''] ''/tmp/q'')) \<le> 4"
    by (rule extract_bounded) simp
  show "fst (Extract (\<lambda>_. True) True True 4 [sample_entry ''a'', sample_entry ''b''] ''/tmp/q'') = Some SizeExceeded"
    by code_simp
qed

section \<open>A successful extraction is complete\<close>

lemma copy_limited_complete:
  assumes "snd (copy_limited e cap) = False" and "int (length (fst (copy_limited e cap))) < cap"
  shows "fst (copy_limited e cap) = te_content e" and "\<not> te_broken e"
  using assms by (auto simp: copy_limited_def min_def split: if_splits)

lemma extract_entry_complete:
  assumes "extract_entry os_ok maxBytes base tot e = (None, ops, tot')" and "te_type e = TypeReg"
  shows "WriteFile (destination base (te_name e)) (te_content e) \<in> set ops"
  using assms copy_limited_complete(1)[of e "maxBytes - tot"]
  by (auto simp: extract_entry_def Let_def split_beta TypeReg_def TypeDir_def split: if_splits)

lemma extract_entries_mono:
  "set tr \<subseteq> set (snd (extract_entries os_ok maxBytes base tot items tr))"
proof (induction items arbitrary: tot tr)
  case (Cons item items)
  have "set tr \<subseteq> set (snd (extract_entries os_ok maxBytes base tot' items (tr @ ops)))" for tot' ops
    using Cons.IH[of "tr @ ops" tot'] by simp
  then show ?case by (cases item) (auto split: prod.splits option.splits)
qed simp

lemma extract_entries_complete:
  "fst (extract_entries os_ok maxBytes base tot items tr) = None \<Longrightarrow> Entry e \<in> set items \<Longrightarrow>
   te_type e = TypeReg \<Longrightarrow>
   WriteFile (destination base (te_name e)) (te_content e)
     \<in> set (snd (extract_entries os_ok maxBytes base tot items tr))"
proof (induction items arbitrary: tot tr)
  case (Cons item items)
  show ?case
  proof (cases "item = Entry e")
    case False
    with Cons show ?thesis by (cases item) (auto split: prod.splits option.splits)
  next
    case True
    obtain err ops tot' where e: "extract_entry os_ok maxBytes base tot e = (err, ops, tot')"
      by (metis prod_cases3)
    with True Cons.prems(1) have "err = None" by (cases err) auto
    with e extract_entry_complete Cons.prems(3)
    have "WriteFile (destination base (te_name e)) (te_content e) \<in> set (tr @ ops)" by fastforce
    with e \<open>err = None\<close> True extract_entries_mono[of "tr @ ops" os_ok maxBytes base tot' items]
    show ?thesis by auto
  qed
qed simp

text \<open>
  When the extraction reports success, the whole archive was read and every regular entry's
  file was written with its whole content: the size limit never truncates silently.
\<close>

theorem extract_complete:
  assumes "fst (Extract os_ok opened gzip_ok maxBytes items target) = None"
    and "Entry e \<in> set items" and "te_type e = TypeReg"
  shows "WriteFile (destination (path_clean target) (te_name e)) (te_content e)
           \<in> set (snd (Extract os_ok opened gzip_ok maxBytes items target))"
  using assms extract_entries_complete by (auto simp: Extract_def Let_def split: if_splits)

theorem extract_complete_witness:
  "WriteFile (destination (path_clean ''/tmp/q'') ''b'') ''abc''
     \<in> set (snd (Extract (\<lambda>_. True) True True 10 [sample_entry ''a'', sample_entry ''b''] ''/tmp/q''))"
proof -
  let ?e = "\<lparr>te_name = ''b'', te_type = TypeReg, te_content = ''abc'', te_broken = False\<rparr>"
  have "fst (Extract (\<lambda>_. True) True True 10 [sample_entry ''a'', sample_entry ''b''] ''/tmp/q'') = None"
    by code_simp
  from extract_complete[OF this, of ?e] show ?thesis by (simp add: sample_entry_def)
qed

end
