(* ===== verification/StatusStore.thy ===== *)
theory StatusStore
  imports Prelude
begin

text \<open>
  The interface through which the services claim work: a table of keyed rows with a status,
  an unconditional and a conditional status update. The laws say what a statement does to the
  status column when it succeeds, and that a failed statement changes nothing. The client
  lemmas are proved here once, for functions (claimed by the build service) and for invocations
  (claimed by the execution service).
\<close>

section \<open>Tables of keyed rows\<close>

definition status_in :: "('r \<Rightarrow> 'k) \<Rightarrow> ('r \<Rightarrow> 'st) \<Rightarrow> 'r list \<Rightarrow> 'k \<Rightarrow> 'st option" where
  "status_in key stat rows k = map_option stat (find (\<lambda>r. key r = k) rows)"

lemma find_key_member: "find (\<lambda>r. key r = k) rs = Some r \<Longrightarrow> r \<in> set rs \<and> key r = k"
  by (induction rs) (auto split: if_splits)

lemma find_key_update:
  assumes "\<And>r. key (upd r) = key r"
  shows "find (\<lambda>r. key r = k) (map (\<lambda>r. if P r then upd r else r) rs) =
         map_option (\<lambda>r. if P r then upd r else r) (find (\<lambda>r. key r = k) rs)"
  using assms by (induction rs) auto

lemma status_in_update:
  assumes "\<And>r. key (upd r) = key r" and "\<And>r. stat (upd r) = b"
  shows "status_in key stat (map (\<lambda>r. if key r = k0 then upd r else r) rs) =
    (\<lambda>k. if k = k0 then map_option (\<lambda>_. b) (status_in key stat rs k0) else status_in key stat rs k)"
proof
  fix k
  show "status_in key stat (map (\<lambda>r. if key r = k0 then upd r else r) rs) k =
    (if k = k0 then map_option (\<lambda>_. b) (status_in key stat rs k0) else status_in key stat rs k)"
    using assms(2) find_key_member[of key k rs]
    by (cases "find (\<lambda>r. key r = k) rs") (auto simp: status_in_def find_key_update[of key, OF assms(1)])
qed

lemma status_in_update_if:
  assumes "\<And>r. key (upd r) = key r" and "\<And>r. stat (upd r) = b"
  shows "status_in key stat (map (\<lambda>r. if key r = k0 \<and> stat r = a then upd r else r) rs) =
    (if status_in key stat rs k0 = Some a then (status_in key stat rs)(k0 \<mapsto> b)
     else status_in key stat rs)"
proof
  fix k
  show "status_in key stat (map (\<lambda>r. if key r = k0 \<and> stat r = a then upd r else r) rs) k =
    (if status_in key stat rs k0 = Some a then (status_in key stat rs)(k0 \<mapsto> b)
     else status_in key stat rs) k"
    using assms(2) find_key_member[of key k rs]
    by (cases "find (\<lambda>r. key r = k) rs")
       (auto simp: status_in_def find_key_update[of key, OF assms(1)])
qed

text \<open>A row with a new key is found under it, and the others as before.\<close>

lemma find_append_new:
  assumes "key f \<notin> key ` set rows"
  shows "find (\<lambda>r. key r = k) (rows @ [f]) = (if k = key f then Some f else find (\<lambda>r. key r = k) rows)"
  using assms by (induction rows) auto

lemma status_in_append_new:
  assumes "key f \<notin> key ` set rows"
  shows "status_in key stat rows (key f) = None"
    and "status_in key stat (rows @ [f]) = (status_in key stat rows)(key f \<mapsto> stat f)"
proof -
  have "find (\<lambda>r. key r = key f) rows = None" using assms by (induction rows) auto
  then show "status_in key stat rows (key f) = None" by (simp add: status_in_def)
  show "status_in key stat (rows @ [f]) = (status_in key stat rows)(key f \<mapsto> stat f)"
    by (auto simp: fun_eq_iff status_in_def find_append_new[OF assms])
qed

text \<open>With distinct keys a conditional update affects one row exactly when the key has that status.\<close>

lemma affected_one:
  assumes "distinct (map key rs)"
  shows "length (filter (\<lambda>r. key r = k \<and> stat r = a) rs) = Suc 0 \<longleftrightarrow> status_in key stat rs k = Some a"
  using assms
proof (induction rs)
  case Nil
  then show ?case by (simp add: status_in_def)
next
  case (Cons r rs)
  show ?case
  proof (cases "key r = k")
    case True
    have "filter (\<lambda>r. key r = k \<and> stat r = a) rs = []"
      using Cons.prems True by (auto simp: filter_empty_conv image_iff)
    with True show ?thesis by (simp add: status_in_def)
  next
    case False
    with Cons show ?thesis by (simp add: status_in_def)
  qed
qed

section \<open>The claiming interface\<close>

locale status_store =
  fixes inv :: "'s \<Rightarrow> bool"
    and status_of :: "'s \<Rightarrow> 'k \<Rightarrow> 'st option"
    and update :: "'k \<Rightarrow> 'st \<Rightarrow> 's \<Rightarrow> ('e + unit) \<times> 's"
    and update_if :: "'k \<Rightarrow> 'st \<Rightarrow> 'st \<Rightarrow> 's \<Rightarrow> ('e + bool) \<times> 's"
  assumes inv_update: "inv s \<Longrightarrow> inv (snd (update k b s))"
    and inv_update_if: "inv s \<Longrightarrow> inv (snd (update_if k a b s))"
    and update_ok: "update k b s = (Inr u, s') \<Longrightarrow>
          status_of s' = (\<lambda>k'. if k' = k then map_option (\<lambda>_. b) (status_of s k) else status_of s k')"
    and update_err: "update k b s = (Inl e, s') \<Longrightarrow> status_of s' = status_of s"
    and update_if_true: "inv s \<Longrightarrow> update_if k a b s = (Inr True, s') \<Longrightarrow>
          status_of s k = Some a \<and> status_of s' = (status_of s)(k \<mapsto> b)"
    and update_if_false: "inv s \<Longrightarrow> update_if k a b s = (Inr False, s') \<Longrightarrow>
          status_of s k \<noteq> Some a \<and> status_of s' = status_of s"
    and update_if_err: "update_if k a b s = (Inl e, s') \<Longrightarrow> status_of s' = status_of s"
begin

lemma update_other: "k' \<noteq> k \<Longrightarrow> status_of (snd (update k b s)) k' = status_of s k'"
proof (cases "update k b s")
  case (Pair r s')
  assume "k' \<noteq> k"
  with Pair show ?thesis
    by (cases r) (auto dest: update_ok update_err)
qed

lemma update_if_other:
  assumes "inv s" and "k' \<noteq> k"
  shows "status_of (snd (update_if k a b s)) k' = status_of s k'"
proof (cases "update_if k a b s")
  case (Pair r s')
  consider e where "r = Inl e" | "r = Inr True" | "r = Inr False"
    by (cases r) auto
  then show ?thesis
    by cases (use Pair assms in \<open>auto dest: update_if_true update_if_false update_if_err\<close>)
qed

text \<open>A row that is not in the expected status is not claimed.\<close>

lemma no_claim_elsewhere:
  assumes "inv s" and "status_of s k \<noteq> Some a"
  shows "fst (update_if k a b s) \<noteq> Inr True"
  using assms by (metis prod.collapse update_if_true)

text \<open>
  Any number of workers run the same conditional update one after the other: the database
  serialises the statements, so every interleaving of the workers is such a sequence.
\<close>

fun claim_all :: "nat \<Rightarrow> 'k \<Rightarrow> 'st \<Rightarrow> 'st \<Rightarrow> 's \<Rightarrow> ('e + bool) list \<times> 's" where
  "claim_all 0 k a b s = ([], s)"
| "claim_all (Suc n) k a b s =
     (let (r, s1) = update_if k a b s; (rs, s2) = claim_all n k a b s1 in (r # rs, s2))"

lemma claim_all_none:
  assumes "inv s" and "status_of s k \<noteq> Some a"
  shows "Inr True \<notin> set (fst (claim_all n k a b s))"
  using assms
proof (induction n arbitrary: s)
  case (Suc n)
  obtain r s1 where r: "update_if k a b s = (r, s1)" by fastforce
  have "r \<noteq> Inr True" using no_claim_elsewhere[OF Suc.prems] r by (metis fst_conv)
  moreover have "status_of s1 = status_of s"
  proof (cases r)
    case (Inl e)
    with r show ?thesis by (simp add: update_if_err)
  next
    case (Inr t)
    with r \<open>r \<noteq> Inr True\<close> Suc.prems(1) show ?thesis by (cases t) (auto dest: update_if_false)
  qed
  moreover have "inv s1" using inv_update_if[OF Suc.prems(1), of k a b] r by simp
  ultimately show ?case
    using Suc.IH[of s1] Suc.prems(2) r by (auto simp: split_beta)
qed simp

lemma at_most_one_claim:
  assumes "inv s" and "a \<noteq> b"
  shows "length (filter (\<lambda>r. r = Inr True) (fst (claim_all n k a b s))) \<le> 1"
  using assms(1)
proof (induction n arbitrary: s)
  case (Suc n)
  obtain r s1 where r: "update_if k a b s = (r, s1)" by fastforce
  have inv1: "inv s1" using inv_update_if[OF Suc.prems, of k a b] r by simp
  show ?case
  proof (cases "r = Inr True")
    case True
    with r Suc.prems have "status_of s1 k = Some b" by (auto dest: update_if_true)
    with inv1 assms(2) have "Inr True \<notin> set (fst (claim_all n k a b s1))"
      by (intro claim_all_none) auto
    then have "filter (\<lambda>r. r = Inr True) (fst (claim_all n k a b s1)) = []"
      by (auto simp: filter_empty_conv)
    with r True show ?thesis by (simp add: split_beta)
  next
    case False
    with r Suc.IH[OF inv1] show ?thesis by (simp add: split_beta)
  qed
qed simp

end

end
