(* ===== verification/Stores.thy ===== *)
theory Stores
  imports StatusStore "HOL-Library.Word"
begin

text \<open>
  The PostgreSQL tables and the statements the Go stores run on them: \<open>internal/function\<close>,
  \<open>internal/invocation\<close>, \<open>internal/server/user\<close>. A table is the list of its rows; a statement
  either takes effect as a whole or fails and changes nothing. Which statements fail for
  reasons outside the tables (a lost connection, a cancelled context) is the component
  \<open>pg_outcomes\<close> of the state: the outcomes of the next statements, all later ones succeeding.
  \<open>uuid.New()\<close> and \<open>time.Now()\<close> are arguments.
\<close>

type_synonym uuid = "128 word"
type_synonym timestamp = int

section \<open>Rows\<close>

datatype fn_status =
    FnQuarantined | FnExtracted | FnScanning | FnDetected | FnVerified
  | FnPreparingEnvironment | FnReady | FnFailed

fun fn_status_text :: "fn_status \<Rightarrow> string" where
  "fn_status_text FnQuarantined = ''QUARANTINED''"
| "fn_status_text FnExtracted = ''EXTRACTED''"
| "fn_status_text FnScanning = ''SCANNING''"
| "fn_status_text FnDetected = ''DETECTED''"
| "fn_status_text FnVerified = ''VERIFIED''"
| "fn_status_text FnPreparingEnvironment = ''PREPARING_ENVIRONMENT''"
| "fn_status_text FnReady = ''READY''"
| "fn_status_text FnFailed = ''FAILED''"

record func =
  f_id :: uuid
  f_user :: uuid
  f_status :: fn_status
  f_archive_path :: string
  f_drive_path :: "string option"

datatype inv_status = InvPending | InvExecuting | InvDone | InvFailed

fun inv_status_text :: "inv_status \<Rightarrow> string" where
  "inv_status_text InvPending = ''PENDING''"
| "inv_status_text InvExecuting = ''EXECUTING''"
| "inv_status_text InvDone = ''DONE''"
| "inv_status_text InvFailed = ''FAILED''"

record invoc =
  i_id :: uuid
  i_function :: uuid
  i_status :: inv_status
  i_time :: timestamp
  i_end_time :: "timestamp option"
  i_log_path :: "string option"

record user_row =
  u_id :: uuid
  u_name :: string
  u_email :: string

record key_row =
  k_auth_id :: string
  k_user :: uuid
  k_secret :: string

record pg =
  pg_users :: "user_row list"
  pg_keys :: "key_row list"
  pg_functions :: "func list"
  pg_invocations :: "invoc list"
  pg_outcomes :: "bool list"

datatype store_error = QueryFailed | ConstraintViolation | RowNotFound

type_synonym 'a stmt = "pg \<Rightarrow> (store_error + 'a) \<times> pg"

definition db_exec :: "'a stmt \<Rightarrow> 'a stmt" where
  "db_exec stmt s = (case pg_outcomes s of
     [] \<Rightarrow> stmt s
   | ok # rest \<Rightarrow>
       if ok then stmt (s\<lparr>pg_outcomes := rest\<rparr>) else (Inl QueryFailed, s\<lparr>pg_outcomes := rest\<rparr>))"

section \<open>internal/server/user\<close>

definition create_user :: "uuid \<Rightarrow> string \<Rightarrow> string \<Rightarrow> user_row stmt" where
  "create_user fresh username email =
     (let u = \<lparr>u_id = fresh, u_name = username, u_email = email\<rparr> in
      db_exec (\<lambda>s.
        if \<exists>r\<in>set (pg_users s). u_id r = fresh \<or> u_name r = username \<or> u_email r = email
        then (Inl ConstraintViolation, s)
        else (Inr u, s\<lparr>pg_users := pg_users s @ [u]\<rparr>)))"

section \<open>internal/function\<close>

definition create_function :: "uuid \<Rightarrow> uuid \<Rightarrow> fn_status \<Rightarrow> string \<Rightarrow> func stmt" where
  "create_function fresh userId status archivePath =
     (let f = \<lparr>f_id = fresh, f_user = userId, f_status = status,
               f_archive_path = archivePath, f_drive_path = None\<rparr> in
      db_exec (\<lambda>s.
        if (\<exists>r\<in>set (pg_functions s). f_id r = fresh) \<or> (\<forall>u\<in>set (pg_users s). u_id u \<noteq> userId)
        then (Inl ConstraintViolation, s)
        else (Inr f, s\<lparr>pg_functions := pg_functions s @ [f]\<rparr>)))"

definition update_functions_where :: "(func \<Rightarrow> bool) \<Rightarrow> (func \<Rightarrow> func) \<Rightarrow> nat stmt" where
  "update_functions_where P upd = db_exec (\<lambda>s.
     (Inr (length (filter P (pg_functions s))),
      s\<lparr>pg_functions := map (\<lambda>f. if P f then upd f else f) (pg_functions s)\<rparr>))"

definition ignore_count :: "(store_error + nat) \<times> pg \<Rightarrow> (store_error + unit) \<times> pg" where
  "ignore_count r = (map_sum id (\<lambda>_. ()) (fst r), snd r)"

definition one_row :: "(store_error + nat) \<times> pg \<Rightarrow> (store_error + bool) \<times> pg" where
  "one_row r = (map_sum id (\<lambda>n. n = 1) (fst r), snd r)"

definition update_function_status :: "uuid \<Rightarrow> fn_status \<Rightarrow> unit stmt" where
  "update_function_status functionId status s =
     ignore_count (update_functions_where (\<lambda>f. f_id f = functionId) (\<lambda>f. f\<lparr>f_status := status\<rparr>) s)"

definition update_function_status_if :: "uuid \<Rightarrow> fn_status \<Rightarrow> fn_status \<Rightarrow> bool stmt" where
  "update_function_status_if functionId from to s =
     one_row (update_functions_where (\<lambda>f. f_id f = functionId \<and> f_status f = from)
                                     (\<lambda>f. f\<lparr>f_status := to\<rparr>) s)"

definition update_function_status_and_drive_path :: "uuid \<Rightarrow> fn_status \<Rightarrow> string \<Rightarrow> unit stmt" where
  "update_function_status_and_drive_path functionId status drivePath s =
     ignore_count (update_functions_where (\<lambda>f. f_id f = functionId)
                     (\<lambda>f. f\<lparr>f_status := status, f_drive_path := Some drivePath\<rparr>) s)"

text \<open>
  \<open>DISTINCT ON (function_id) ... ORDER BY function_id, end_time DESC\<close>: per function the row that
  comes first when end times descend, where SQL sorts NULL before every value. Between rows of
  equal end time SQL leaves the choice open; here it is the first stored.
\<close>

fun end_time_first :: "timestamp option \<Rightarrow> timestamp option \<Rightarrow> bool" where
  "end_time_first None _ = True"
| "end_time_first (Some _) None = False"
| "end_time_first (Some a) (Some b) = (b \<le> a)"

fun latest_invocation :: "invoc list \<Rightarrow> invoc option" where
  "latest_invocation [] = None"
| "latest_invocation (i # is) = (case latest_invocation is of
     None \<Rightarrow> Some i
   | Some j \<Rightarrow> if end_time_first (i_end_time i) (i_end_time j) then Some i else Some j)"

record func_with_latest =
  l_id :: uuid
  l_user :: uuid
  l_status :: fn_status
  l_inv_id :: "uuid option"
  l_inv_status :: "inv_status option"
  l_inv_time :: "timestamp option"

definition with_latest :: "invoc list \<Rightarrow> func \<Rightarrow> func_with_latest" where
  "with_latest invs f =
     (let li = latest_invocation (filter (\<lambda>i. i_function i = f_id f) invs) in
      \<lparr>l_id = f_id f, l_user = f_user f, l_status = f_status f,
       l_inv_id = map_option i_id li, l_inv_status = map_option i_status li,
       l_inv_time = Option.bind li i_end_time\<rparr>)"

definition get_functions_by_user_with_latest :: "uuid \<Rightarrow> func_with_latest list stmt" where
  "get_functions_by_user_with_latest userUUID = db_exec (\<lambda>s.
     (Inr (map (with_latest (pg_invocations s)) (filter (\<lambda>f. f_user f = userUUID) (pg_functions s))), s))"

definition get_functions_by_user_id :: "uuid \<Rightarrow> func list stmt" where
  "get_functions_by_user_id userUUID = db_exec (\<lambda>s.
     (Inr (filter (\<lambda>f. f_user f = userUUID) (pg_functions s)), s))"

definition find_function :: "pg \<Rightarrow> uuid \<Rightarrow> func option" where
  "find_function s k = find (\<lambda>f. f_id f = k) (pg_functions s)"

definition get_function_by_id :: "uuid \<Rightarrow> func stmt" where
  "get_function_by_id functionId = db_exec (\<lambda>s.
     (case find_function s functionId of None \<Rightarrow> Inl RowNotFound | Some f \<Rightarrow> Inr f, s))"

definition get_function_status_by_id :: "uuid \<Rightarrow> string stmt" where
  "get_function_status_by_id functionId = db_exec (\<lambda>s.
     (case find_function s functionId of
        None \<Rightarrow> Inl RowNotFound | Some f \<Rightarrow> Inr (fn_status_text (f_status f)), s))"

section \<open>internal/invocation\<close>

definition create_invocation :: "uuid \<Rightarrow> uuid \<Rightarrow> timestamp \<Rightarrow> invoc stmt" where
  "create_invocation fresh functionId invocationTime =
     (let inv = \<lparr>i_id = fresh, i_function = functionId, i_status = InvPending,
                 i_time = invocationTime, i_end_time = None, i_log_path = None\<rparr> in
      db_exec (\<lambda>s.
        if (\<exists>r\<in>set (pg_invocations s). i_id r = fresh) \<or> (\<forall>f\<in>set (pg_functions s). f_id f \<noteq> functionId)
        then (Inl ConstraintViolation, s)
        else (Inr inv, s\<lparr>pg_invocations := pg_invocations s @ [inv]\<rparr>)))"

definition update_invocations_where :: "(invoc \<Rightarrow> bool) \<Rightarrow> (invoc \<Rightarrow> invoc) \<Rightarrow> nat stmt" where
  "update_invocations_where P upd = db_exec (\<lambda>s.
     (Inr (length (filter P (pg_invocations s))),
      s\<lparr>pg_invocations := map (\<lambda>i. if P i then upd i else i) (pg_invocations s)\<rparr>))"

definition update_invocation_status :: "uuid \<Rightarrow> inv_status \<Rightarrow> unit stmt" where
  "update_invocation_status invocationId status s =
     ignore_count (update_invocations_where (\<lambda>i. i_id i = invocationId) (\<lambda>i. i\<lparr>i_status := status\<rparr>) s)"

definition update_invocation_status_if :: "uuid \<Rightarrow> inv_status \<Rightarrow> inv_status \<Rightarrow> bool stmt" where
  "update_invocation_status_if invocationId from to s =
     one_row (update_invocations_where (\<lambda>i. i_id i = invocationId \<and> i_status i = from)
                                       (\<lambda>i. i\<lparr>i_status := to\<rparr>) s)"

definition update_invocation_status_log_end ::
    "uuid \<Rightarrow> inv_status \<Rightarrow> string \<Rightarrow> timestamp \<Rightarrow> unit stmt" where
  "update_invocation_status_log_end invocationId status logPath endTime s =
     ignore_count (update_invocations_where (\<lambda>i. i_id i = invocationId)
       (\<lambda>i. i\<lparr>i_status := status, i_log_path := Some logPath, i_end_time := Some endTime\<rparr>) s)"

text \<open>
  The two joins on \<open>functions\<close>: an invocation belongs to a user when some row of \<open>functions\<close>
  with its function id has that user. \<open>ORDER BY end_time\<close> ascends with NULL last.
\<close>

definition owned_by :: "pg \<Rightarrow> uuid \<Rightarrow> invoc \<Rightarrow> bool" where
  "owned_by s userId i \<longleftrightarrow> (\<exists>f\<in>set (pg_functions s). f_id f = i_function i \<and> f_user f = userId)"

fun end_time_before :: "timestamp option \<Rightarrow> timestamp option \<Rightarrow> bool" where
  "end_time_before (Some a) (Some b) = (a \<le> b)"
| "end_time_before (Some _) None = True"
| "end_time_before None b = (b = None)"

fun insert_by_end_time :: "invoc \<Rightarrow> invoc list \<Rightarrow> invoc list" where
  "insert_by_end_time i [] = [i]"
| "insert_by_end_time i (j # js) =
     (if end_time_before (i_end_time i) (i_end_time j) then i # j # js else j # insert_by_end_time i js)"

definition order_by_end_time :: "invoc list \<Rightarrow> invoc list" where
  "order_by_end_time is = foldr insert_by_end_time is []"

text \<open>The first query does not select \<open>log_path\<close>, which stays nil in the scanned struct.\<close>

definition get_invocations_for_user_and_function :: "uuid \<Rightarrow> uuid \<Rightarrow> invoc list stmt" where
  "get_invocations_for_user_and_function userId functionId = db_exec (\<lambda>s.
     (Inr (map (\<lambda>i. i\<lparr>i_log_path := None\<rparr>)
        (order_by_end_time (filter (\<lambda>i. owned_by s userId i \<and> i_function i = functionId) (pg_invocations s)))), s))"

text \<open>
  The details query returns a pointer to a struct that keeps its zero value when no row matches:
  \<open>None\<close> stands for that zero struct, whose \<open>InvocationTime\<close> is nil.
\<close>

definition get_invocation_details_for_user :: "uuid \<Rightarrow> uuid \<Rightarrow> invoc option stmt" where
  "get_invocation_details_for_user userId invocationId = db_exec (\<lambda>s.
     (Inr (case order_by_end_time (filter (\<lambda>i. owned_by s userId i \<and> i_id i = invocationId) (pg_invocations s)) of
             [] \<Rightarrow> None | i # _ \<Rightarrow> Some i), s))"

section \<open>Integrity of the tables\<close>

text \<open>The primary and foreign keys of \<open>migrations/\<close>.\<close>

definition pg_wf :: "pg \<Rightarrow> bool" where
  "pg_wf s \<longleftrightarrow> distinct (map u_id (pg_users s)) \<and> distinct (map f_id (pg_functions s))
     \<and> distinct (map i_id (pg_invocations s))
     \<and> f_user ` set (pg_functions s) \<subseteq> u_id ` set (pg_users s)
     \<and> i_function ` set (pg_invocations s) \<subseteq> f_id ` set (pg_functions s)"

lemma db_exec_cases:
  obtains (run) s0 where "db_exec stmt s = stmt s0" "pg_functions s0 = pg_functions s"
      "pg_invocations s0 = pg_invocations s" "pg_users s0 = pg_users s" "pg_keys s0 = pg_keys s"
  | (failed) s0 where "db_exec stmt s = (Inl QueryFailed, s0)" "pg_functions s0 = pg_functions s"
      "pg_invocations s0 = pg_invocations s" "pg_users s0 = pg_users s" "pg_keys s0 = pg_keys s"
proof (cases "pg_outcomes s")
  case Nil
  then show ?thesis using run[of s] by (simp add: db_exec_def)
next
  case (Cons ok rest)
  then show ?thesis
    using run[of "s\<lparr>pg_outcomes := rest\<rparr>"] failed[of "s\<lparr>pg_outcomes := rest\<rparr>"]
    by (cases ok) (simp_all add: db_exec_def)
qed

lemma db_exec_up [store_simps]: "pg_outcomes s = [] \<Longrightarrow> db_exec stmt s = stmt s"
  by (simp add: db_exec_def)

lemma pg_wf_cong:
  "pg_users s' = pg_users s \<Longrightarrow> pg_functions s' = pg_functions s \<Longrightarrow>
   pg_invocations s' = pg_invocations s \<Longrightarrow> pg_wf s' = pg_wf s"
  by (simp add: pg_wf_def)

lemma db_exec_wf:
  assumes wf: "pg_wf s" and pres: "\<And>s0. pg_wf s0 \<Longrightarrow> pg_wf (snd (stmt s0))"
  shows "pg_wf (snd (db_exec stmt s))"
proof (cases stmt s rule: db_exec_cases)
  case (run s0)
  then have "pg_wf s0" using wf pg_wf_cong[of s0 s] by simp
  with run(1) pres show ?thesis by simp
next
  case (failed s0)
  then show ?thesis using wf pg_wf_cong[of s0 s] by simp
qed

lemma map_key_update:
  assumes "\<And>r. key (upd r) = key r"
  shows "map key (map (\<lambda>r. if P r then upd r else r) rs) = map key rs"
  using assms by (induction rs) simp_all

lemma image_key_update:
  assumes "\<And>r. key (upd r) = key r"
  shows "key ` set (map (\<lambda>r. if P r then upd r else r) rs) = key ` set rs"
  using map_key_update[of key upd P rs, OF assms] by (metis list.set_map)

lemma pg_wf_functions_update:
  assumes "pg_wf s" and "map f_id rows = map f_id (pg_functions s)"
    and "f_id ` set rows = f_id ` set (pg_functions s)"
    and "f_user ` set rows = f_user ` set (pg_functions s)"
  shows "pg_wf (s\<lparr>pg_functions := rows\<rparr>)"
  using assms by (simp add: pg_wf_def)

lemma pg_wf_invocations_update:
  assumes "pg_wf s" and "map i_id rows = map i_id (pg_invocations s)"
    and "i_function ` set rows = i_function ` set (pg_invocations s)"
  shows "pg_wf (s\<lparr>pg_invocations := rows\<rparr>)"
  using assms by (simp add: pg_wf_def)

lemma wf_update_functions:
  assumes wf: "pg_wf s" and "\<And>f. f_id (upd f) = f_id f" and "\<And>f. f_user (upd f) = f_user f"
  shows "pg_wf (snd (update_functions_where P upd s))"
  unfolding update_functions_where_def
  by (rule db_exec_wf[OF wf], simp only: snd_conv)
     (rule pg_wf_functions_update map_key_update image_key_update assms | assumption)+

lemma wf_update_invocations:
  assumes wf: "pg_wf s" and "\<And>i. i_id (upd i) = i_id i" and "\<And>i. i_function (upd i) = i_function i"
  shows "pg_wf (snd (update_invocations_where P upd s))"
  unfolding update_invocations_where_def
  by (rule db_exec_wf[OF wf], simp only: snd_conv)
     (rule pg_wf_invocations_update map_key_update image_key_update assms | assumption)+

lemmas stmt_update_defs =
  update_function_status_def update_function_status_if_def
  update_function_status_and_drive_path_def update_invocation_status_def
  update_invocation_status_if_def update_invocation_status_log_end_def ignore_count_def one_row_def

lemma wf_update_statements:
  assumes "pg_wf s"
  shows "pg_wf (snd (update_function_status fid st s))"
    and "pg_wf (snd (update_function_status_if fid st st' s))"
    and "pg_wf (snd (update_function_status_and_drive_path fid st p s))"
    and "pg_wf (snd (update_invocation_status iid ist s))"
    and "pg_wf (snd (update_invocation_status_if iid ist ist' s))"
    and "pg_wf (snd (update_invocation_status_log_end iid ist p t s))"
  using assms by (simp_all add: stmt_update_defs wf_update_functions wf_update_invocations)

lemma wf_create_function:
  assumes "pg_wf s"
  shows "pg_wf (snd (create_function fresh u st p s))"
  unfolding create_function_def Let_def
  by (rule db_exec_wf[OF assms]) (auto simp: pg_wf_def)

lemma wf_create_invocation:
  assumes "pg_wf s"
  shows "pg_wf (snd (create_invocation fresh fid t s))"
  unfolding create_invocation_def Let_def
  by (rule db_exec_wf[OF assms]) (auto simp: pg_wf_def)

section \<open>What a keyed update does\<close>

lemma update_functions_where_ok:
  "update_functions_where P upd s = (Inr n, s') \<Longrightarrow>
   n = length (filter P (pg_functions s)) \<and>
   pg_functions s' = map (\<lambda>f. if P f then upd f else f) (pg_functions s) \<and>
   pg_invocations s' = pg_invocations s \<and> pg_users s' = pg_users s"
  unfolding update_functions_where_def
  by (cases "pg_outcomes s") (auto simp: db_exec_def split: if_splits)

lemma update_functions_where_err:
  "update_functions_where P upd s = (Inl e, s') \<Longrightarrow>
   pg_functions s' = pg_functions s \<and> pg_invocations s' = pg_invocations s \<and> pg_users s' = pg_users s"
  unfolding update_functions_where_def
  by (cases "pg_outcomes s") (auto simp: db_exec_def split: if_splits)

lemma update_invocations_where_ok:
  "update_invocations_where P upd s = (Inr n, s') \<Longrightarrow>
   n = length (filter P (pg_invocations s)) \<and>
   pg_invocations s' = map (\<lambda>i. if P i then upd i else i) (pg_invocations s) \<and>
   pg_functions s' = pg_functions s \<and> pg_users s' = pg_users s"
  unfolding update_invocations_where_def
  by (cases "pg_outcomes s") (auto simp: db_exec_def split: if_splits)

lemma update_invocations_where_err:
  "update_invocations_where P upd s = (Inl e, s') \<Longrightarrow>
   pg_functions s' = pg_functions s \<and> pg_invocations s' = pg_invocations s \<and> pg_users s' = pg_users s"
  unfolding update_invocations_where_def
  by (cases "pg_outcomes s") (auto simp: db_exec_def split: if_splits)

lemma ignore_count_ok: "ignore_count r = (Inr u, s') \<Longrightarrow> \<exists>n. r = (Inr n, s')"
  by (cases r; cases "fst r") (auto simp: ignore_count_def)

lemma ignore_count_err: "ignore_count r = (Inl e, s') \<Longrightarrow> r = (Inl e, s')"
  by (cases r; cases "fst r") (auto simp: ignore_count_def)

lemma one_row_ok: "one_row r = (Inr t, s') \<Longrightarrow> \<exists>n. r = (Inr n, s') \<and> t = (n = 1)"
  by (cases r; cases "fst r") (auto simp: one_row_def)

lemma one_row_err: "one_row r = (Inl e, s') \<Longrightarrow> r = (Inl e, s')"
  by (cases r; cases "fst r") (auto simp: one_row_def)

section \<open>The two stores implement the claiming interface\<close>

definition fn_status_of :: "pg \<Rightarrow> uuid \<Rightarrow> fn_status option" where
  "fn_status_of s = status_in f_id f_status (pg_functions s)"

definition inv_status_of :: "pg \<Rightarrow> uuid \<Rightarrow> inv_status option" where
  "inv_status_of s = status_in i_id i_status (pg_invocations s)"

lemma fn_update_if_result:
  assumes wf: "pg_wf s" and upd: "update_function_status_if k a b s = (Inr t, s')"
  shows "t = (fn_status_of s k = Some a)"
    and "fn_status_of s' = (if t then (fn_status_of s)(k \<mapsto> b) else fn_status_of s)"
proof -
  from wf have dist: "distinct (map f_id (pg_functions s))" by (simp add: pg_wf_def)
  from upd obtain n where
    "update_functions_where (\<lambda>f. f_id f = k \<and> f_status f = a) (\<lambda>f. f\<lparr>f_status := b\<rparr>) s = (Inr n, s')"
    and t: "t = (n = 1)"
    unfolding update_function_status_if_def by (blast dest: one_row_ok)
  note eff = update_functions_where_ok[OF this(1)]
  show t': "t = (fn_status_of s k = Some a)"
    using eff t by (simp add: fn_status_of_def affected_one[OF dist])
  show "fn_status_of s' = (if t then (fn_status_of s)(k \<mapsto> b) else fn_status_of s)"
    using eff t' by (simp add: fn_status_of_def status_in_update_if)
qed

lemma inv_update_if_result:
  assumes wf: "pg_wf s" and upd: "update_invocation_status_if k a b s = (Inr t, s')"
  shows "t = (inv_status_of s k = Some a)"
    and "inv_status_of s' = (if t then (inv_status_of s)(k \<mapsto> b) else inv_status_of s)"
proof -
  from wf have dist: "distinct (map i_id (pg_invocations s))" by (simp add: pg_wf_def)
  from upd obtain n where
    "update_invocations_where (\<lambda>i. i_id i = k \<and> i_status i = a) (\<lambda>i. i\<lparr>i_status := b\<rparr>) s = (Inr n, s')"
    and t: "t = (n = 1)"
    unfolding update_invocation_status_if_def by (blast dest: one_row_ok)
  note eff = update_invocations_where_ok[OF this(1)]
  show t': "t = (inv_status_of s k = Some a)"
    using eff t by (simp add: inv_status_of_def affected_one[OF dist])
  show "inv_status_of s' = (if t then (inv_status_of s)(k \<mapsto> b) else inv_status_of s)"
    using eff t' by (simp add: inv_status_of_def status_in_update_if)
qed

lemma fn_update_ok:
  assumes "update_function_status k b s = (Inr u, s')"
  shows "fn_status_of s' =
    (\<lambda>k'. if k' = k then map_option (\<lambda>_. b) (fn_status_of s k) else fn_status_of s k')"
  using assms unfolding update_function_status_def
  by (auto dest!: ignore_count_ok update_functions_where_ok simp: fn_status_of_def status_in_update)

lemma fn_update_drive_ok:
  assumes "update_function_status_and_drive_path k b p s = (Inr u, s')"
  shows "fn_status_of s' =
    (\<lambda>k'. if k' = k then map_option (\<lambda>_. b) (fn_status_of s k) else fn_status_of s k')"
  using assms unfolding update_function_status_and_drive_path_def
  by (auto dest!: ignore_count_ok update_functions_where_ok simp: fn_status_of_def status_in_update)

lemma inv_update_ok:
  assumes "update_invocation_status k b s = (Inr u, s')"
  shows "inv_status_of s' =
    (\<lambda>k'. if k' = k then map_option (\<lambda>_. b) (inv_status_of s k) else inv_status_of s k')"
  using assms unfolding update_invocation_status_def
  by (auto dest!: ignore_count_ok update_invocations_where_ok simp: inv_status_of_def status_in_update)

lemma inv_update_log_end_ok:
  assumes "update_invocation_status_log_end k b p t s = (Inr u, s')"
  shows "inv_status_of s' =
    (\<lambda>k'. if k' = k then map_option (\<lambda>_. b) (inv_status_of s k) else inv_status_of s k')"
  using assms unfolding update_invocation_status_log_end_def
  by (auto dest!: ignore_count_ok update_invocations_where_ok simp: inv_status_of_def status_in_update)

lemma failed_updates:
  "update_function_status k b s = (Inl e, s') \<Longrightarrow> fn_status_of s' = fn_status_of s"
  "update_function_status_if k a b s = (Inl e, s') \<Longrightarrow> fn_status_of s' = fn_status_of s"
  "update_function_status_and_drive_path k b p s = (Inl e, s') \<Longrightarrow> fn_status_of s' = fn_status_of s"
  "update_invocation_status k' b' s = (Inl e, s') \<Longrightarrow> inv_status_of s' = inv_status_of s"
  "update_invocation_status_if k' a' b' s = (Inl e, s') \<Longrightarrow> inv_status_of s' = inv_status_of s"
  "update_invocation_status_log_end k' b' p t s = (Inl e, s') \<Longrightarrow> inv_status_of s' = inv_status_of s"
  unfolding update_function_status_def update_function_status_if_def
    update_function_status_and_drive_path_def update_invocation_status_def
    update_invocation_status_if_def update_invocation_status_log_end_def
  by (auto dest!: ignore_count_err one_row_err update_functions_where_err update_invocations_where_err
        simp: fn_status_of_def inv_status_of_def)

interpretation fn_store: status_store pg_wf fn_status_of update_function_status update_function_status_if
proof
  fix s s' k a b and u :: unit
  show "pg_wf s \<Longrightarrow> update_function_status_if k a b s = (Inr True, s') \<Longrightarrow>
      fn_status_of s k = Some a \<and> fn_status_of s' = (fn_status_of s)(k \<mapsto> b)"
    using fn_update_if_result[of s k a b True s'] by simp
  show "pg_wf s \<Longrightarrow> update_function_status_if k a b s = (Inr False, s') \<Longrightarrow>
      fn_status_of s k \<noteq> Some a \<and> fn_status_of s' = fn_status_of s"
    using fn_update_if_result[of s k a b False s'] by simp
qed (fact wf_update_statements fn_update_ok failed_updates)+

interpretation inv_store: status_store pg_wf inv_status_of update_invocation_status update_invocation_status_if
proof
  fix s s' k a b and u :: unit
  show "pg_wf s \<Longrightarrow> update_invocation_status_if k a b s = (Inr True, s') \<Longrightarrow>
      inv_status_of s k = Some a \<and> inv_status_of s' = (inv_status_of s)(k \<mapsto> b)"
    using inv_update_if_result[of s k a b True s'] by simp
  show "pg_wf s \<Longrightarrow> update_invocation_status_if k a b s = (Inr False, s') \<Longrightarrow>
      inv_status_of s k \<noteq> Some a \<and> inv_status_of s' = inv_status_of s"
    using inv_update_if_result[of s k a b False s'] by simp
qed (fact wf_update_statements inv_update_ok failed_updates)+

section \<open>A sample database\<close>

text \<open>One user with one function and one invocation of it, in given statuses; the witnesses use it.\<close>

definition sample_pg :: "fn_status \<Rightarrow> inv_status \<Rightarrow> pg" where
  "sample_pg fst0 ist =
     \<lparr>pg_users = [\<lparr>u_id = 1, u_name = ''ana'', u_email = ''ana@x.rs''\<rparr>], pg_keys = [],
      pg_functions = [\<lparr>f_id = 7, f_user = 1, f_status = fst0, f_archive_path = ''a.tar.gz'', f_drive_path = None\<rparr>],
      pg_invocations = [\<lparr>i_id = 9, i_function = 7, i_status = ist, i_time = 100,
                         i_end_time = None, i_log_path = None\<rparr>],
      pg_outcomes = []\<rparr>"

lemma sample_pg_facts:
  "pg_wf (sample_pg a b)" "pg_outcomes (sample_pg a b) = []"
  "fn_status_of (sample_pg a b) 7 = Some a" "inv_status_of (sample_pg a b) 9 = Some b"
  by (simp_all add: sample_pg_def pg_wf_def fn_status_of_def inv_status_of_def status_in_def)

end
