(* ===== verification/ArchiveCheck.thy ===== *)
theory ArchiveCheck
  imports Unzipper Stores
begin

text \<open>
  The server's checks of an upload: \<open>internal/server/extractor\<close> (the validation of the archive's
  headers and the two event workers) and \<open>internal/server/events/bus.go\<close>. A tar stream is the list
  of the headers \<open>Next\<close> returns; an entry whose content is cut off makes the following \<open>Next\<close>
  fail, which is \<open>None\<close> in the list.
\<close>

section \<open>extractor.go\<close>

record tar_header =
  th_name :: string
  th_type :: char
  th_size :: int

definition MaxTotalSize :: int where "MaxTotalSize = 1024 * 1024"
definition MaxFiles :: int where "MaxFiles = 10"

datatype header_error =
    NotRegular string | EmptyName | PathTraversal string | NullByte string
  | FileTooLarge int | TotalTooLarge | TooManyFiles

definition validateTarHeader :: "tar_header \<Rightarrow> int \<Rightarrow> int \<Rightarrow> header_error + string" where
  "validateTarHeader header totalExtractedSize totalExtractedFiles =
     (if th_type header \<noteq> TypeReg \<and> th_type header \<noteq> TypeDir then Inl (NotRegular (th_name header))
      else
        let cleanName = path_clean (th_name header) in
        if cleanName = ''.'' \<or> cleanName = ''/'' \<or> cleanName = '''' then Inl EmptyName
        else if str_contains cleanName dotdot \<or> is_abs cleanName then Inl (PathTraversal cleanName)
        else if CHR 0x00 \<in> set cleanName then Inl (NullByte cleanName)
        else if th_size header > MaxTotalSize then Inl (FileTooLarge (th_size header))
        else
          let newTotal = wrap64 (totalExtractedSize + th_size header) in
          if newTotal > MaxTotalSize then Inl TotalTooLarge
          else if wrap64 (totalExtractedFiles + 1) > MaxFiles then Inl TooManyFiles
          else Inr cleanName)"

datatype unzip_failure = GzipHeader | TarRead | InvalidEntry header_error

fun check_entries :: "tar_header option list \<Rightarrow> int \<Rightarrow> int \<Rightarrow> unzip_failure option" where
  "check_entries [] tot files = None"
| "check_entries (None # hs) tot files = Some TarRead"
| "check_entries (Some h # hs) tot files =
     (case validateTarHeader h tot files of
        Inl e \<Rightarrow> Some (InvalidEntry e)
      | Inr _ \<Rightarrow> check_entries hs (wrap64 (tot + th_size h)) (wrap64 (files + 1)))"

text \<open>\<open>None\<close> as the stream: what was uploaded does not start a gzip stream.\<close>

definition Unzip :: "tar_header option list option \<Rightarrow> unzip_failure option" where
  "Unzip stream = (case stream of None \<Rightarrow> Some GzipHeader | Some hs \<Rightarrow> check_entries hs 0 0)"

datatype extract_failure = ObjectMissing | BadArchive unzip_failure

definition ExtractFromQuarantine ::
  "(string \<Rightarrow> string \<Rightarrow> tar_header option list option option) \<Rightarrow> string \<Rightarrow> string \<Rightarrow> extract_failure option" where
  "ExtractFromQuarantine getObject bucket path =
     (case getObject bucket path of
        None \<Rightarrow> Some ObjectMissing
      | Some stream \<Rightarrow> map_option BadArchive (Unzip stream))"

section \<open>What an accepted archive looks like\<close>

definition header_ok :: "tar_header \<Rightarrow> bool" where
  "header_ok h \<longleftrightarrow> (th_type h = TypeReg \<or> th_type h = TypeDir) \<and>
     path_clean (th_name h) \<notin> {'''', ''.'', ''/''} \<and> \<not> str_contains (path_clean (th_name h)) dotdot \<and>
     \<not> is_abs (path_clean (th_name h)) \<and> CHR 0x00 \<notin> set (path_clean (th_name h))"

definition sizes_ok :: "tar_header list \<Rightarrow> bool" where
  "sizes_ok hs \<longleftrightarrow> list_all (\<lambda>h. 0 \<le> th_size h \<and> th_size h < 2 ^ 63) hs"

text \<open>\<open>archive/tar\<close> refuses a header with a negative size, and sizes are int64 values.\<close>

definition sizes_in_range :: "tar_header option list \<Rightarrow> bool" where
  "sizes_in_range hs \<longleftrightarrow> sizes_ok (map the (filter (\<lambda>h. h \<noteq> None) hs))"

lemma sizes_in_range_Some [simp]: "sizes_in_range (map Some es) = sizes_ok es"
  by (simp add: sizes_in_range_def filter_map o_def)

lemma validate_accepts:
  assumes "0 \<le> th_size h" "th_size h < 2 ^ 63" "0 \<le> tot" "tot \<le> MaxTotalSize" "0 \<le> files" "files \<le> MaxFiles"
  shows "is_ok (validateTarHeader h tot files) \<longleftrightarrow>
           header_ok h \<and> tot + th_size h \<le> MaxTotalSize \<and> files + 1 \<le> MaxFiles"
proof -
  have files: "wrap64 (files + 1) = files + 1"
    using assms by (intro wrap64_id) (simp add: in_int64_def MaxFiles_def)
  show ?thesis
  proof (cases "th_size h \<le> MaxTotalSize")
    case True
    then have "wrap64 (tot + th_size h) = tot + th_size h"
      using assms by (intro wrap64_id) (simp add: in_int64_def MaxTotalSize_def)
    with True files show ?thesis by (simp add: validateTarHeader_def header_ok_def Let_def)
  next
    case False
    with assms(3) show ?thesis by (simp add: validateTarHeader_def Let_def)
  qed
qed

lemma check_entries_accepts:
  assumes "sizes_ok hs" "0 \<le> tot" "tot \<le> MaxTotalSize" "0 \<le> files" "files \<le> MaxFiles"
  shows "check_entries (map Some hs) tot files = None \<longleftrightarrow>
           list_all header_ok hs \<and> tot + sum_list (map th_size hs) \<le> MaxTotalSize \<and> files + int (length hs) \<le> MaxFiles"
  using assms
proof (induction hs arbitrary: tot files)
  case (Cons h hs)
  have h: "0 \<le> th_size h" "th_size h < 2 ^ 63" and hs: "sizes_ok hs"
    using Cons.prems(1) by (simp_all add: sizes_ok_def)
  have nonneg: "0 \<le> sum_list (map th_size hs)"
    using hs by (auto simp: sizes_ok_def list_all_iff intro!: sum_list_nonneg)
  note acc = validate_accepts[OF h Cons.prems(2-5)]
  show ?case
  proof (cases "validateTarHeader h tot files")
    case (Inl e)
    with acc nonneg show ?thesis by auto
  next
    case (Inr n)
    with acc have ok: "header_ok h" "tot + th_size h \<le> MaxTotalSize" "files + 1 \<le> MaxFiles" by simp_all
    have "wrap64 (tot + th_size h) = tot + th_size h" "wrap64 (files + 1) = files + 1"
      using ok h Cons.prems by (simp_all add: in_int64_def MaxTotalSize_def MaxFiles_def)
    then show ?thesis
      using Inr ok h Cons.prems Cons.IH[OF hs, of "tot + th_size h" "files + 1"] by auto
  qed
qed simp

lemma check_entries_reads: "check_entries hs tot files = None \<Longrightarrow> \<exists>hs'. hs = map Some hs'"
proof (induction hs tot files rule: check_entries.induct)
  case (3 h hs tot files)
  then obtain hs' where "hs = map Some hs'" by (auto split: sum.splits)
  then show ?case by (intro exI[of _ "h # hs'"]) simp
qed simp_all

lemma unzip_accepts:
  assumes "sizes_in_range hs"
  shows "Unzip (Some hs) = None \<longleftrightarrow>
     (\<exists>es. hs = map Some es \<and> list_all header_ok es \<and> sum_list (map th_size es) \<le> 1048576 \<and> length es \<le> 10)"
proof -
  have key: "check_entries (map Some es) 0 0 = None \<longleftrightarrow>
      list_all header_ok es \<and> sum_list (map th_size es) \<le> 1048576 \<and> length es \<le> 10" if "hs = map Some es" for es
    using check_entries_accepts[of es 0 0] assms that by (simp add: MaxTotalSize_def MaxFiles_def)
  show ?thesis
  proof
    assume "Unzip (Some hs) = None"
    then have none: "check_entries hs 0 0 = None" by (simp add: Unzip_def)
    then obtain es where "hs = map Some es" using check_entries_reads by blast
    with none key show "\<exists>es. hs = map Some es \<and> list_all header_ok es \<and>
        sum_list (map th_size es) \<le> 1048576 \<and> length es \<le> 10" by blast
  next
    assume "\<exists>es. hs = map Some es \<and> list_all header_ok es \<and>
        sum_list (map th_size es) \<le> 1048576 \<and> length es \<le> 10"
    with key show "Unzip (Some hs) = None" by (auto simp: Unzip_def)
  qed
qed

text \<open>
  C15: The server accepts exactly the archives that are a readable gzip stream of at most 10 regular
  or directory entries with safe relative names, whose sizes add up to at most 1 MiB.
\<close>

theorem unzip_accepts_iff:
  assumes "sizes_in_range hs"
  shows "Unzip (Some hs) = None \<longleftrightarrow>
     (\<exists>es. hs = map Some es \<and> list_all header_ok es \<and> sum_list (map th_size es) \<le> 1048576 \<and> length es \<le> 10)"
  by (rule unzip_accepts[OF assms])

definition sample_header :: "string \<Rightarrow> int \<Rightarrow> tar_header" where
  "sample_header name n = \<lparr>th_name = name, th_type = TypeReg, th_size = n\<rparr>"

theorem unzip_accepts_iff_witness:
  "Unzip (Some [Some (sample_header ''f/main.py'' 1048576), Some (sample_header ''x'' 1)]) \<noteq> None"
proof -
  let ?hs = "[Some (sample_header ''f/main.py'' 1048576), Some (sample_header ''x'' 1)]"
  have "sizes_in_range ?hs" by (simp add: sizes_in_range_def sizes_ok_def sample_header_def)
  from unzip_accepts_iff[OF this] show ?thesis by (auto simp: sample_header_def)
qed

section \<open>An accepted archive is unpacked by the analyzer\<close>

definition header_of :: "tar_entry \<Rightarrow> tar_header" where
  "header_of e = \<lparr>th_name = te_name e, th_type = te_type e, th_size = int (length (te_content e))\<rparr>"

lemma header_ok_destination:
  assumes "header_ok (header_of e)" and "clean_base base"
  shows "has_prefix (destination base (te_name e)) (base @ ''/'') \<or> destination base (te_name e) = base"
proof -
  have "dotdot \<notin> set (path_segments (path_clean (te_name e)))"
    using assms(1) no_dotdot_substring by (simp add: header_ok_def header_of_def)
  then show ?thesis
    using path_join_below_clean[of base "path_clean (te_name e)"] assms(2)
    by (auto simp: clean_base_def below_def destination_def)
qed

lemma extract_entry_succeeds:
  assumes "header_ok (header_of e)" "clean_base base" "\<not> te_broken e"
    and "0 \<le> tot" "tot + int (length (te_content e)) < maxBytes"
  shows "\<exists>ops tot'. extract_entry (\<lambda>_. True) maxBytes base tot e = (None, ops, tot') \<and>
           tot' \<le> tot + int (length (te_content e)) \<and> tot \<le> tot'"
  using header_ok_destination[OF assms(1,2)] assms(3-5)
  by (auto simp: extract_entry_def copy_limited_def Let_def min_def)

lemma extract_entries_succeeds:
  assumes "clean_base base" "list_all (\<lambda>e. header_ok (header_of e) \<and> \<not> te_broken e) es"
    and "0 \<le> tot" "tot + sum_list (map (\<lambda>e. int (length (te_content e))) es) < maxBytes"
  shows "fst (extract_entries (\<lambda>_. True) maxBytes base tot (map Entry es) tr) = None"
  using assms(2-4)
proof (induction es arbitrary: tot tr)
  case (Cons e es)
  have nonneg: "0 \<le> sum_list (map (\<lambda>e. int (length (te_content e))) es)"
    by (auto intro!: sum_list_nonneg)
  with Cons.prems obtain ops tot' where e: "extract_entry (\<lambda>_. True) maxBytes base tot e = (None, ops, tot')"
    and "tot' \<le> tot + int (length (te_content e))" "tot \<le> tot'"
    using extract_entry_succeeds[of e base tot maxBytes] assms(1) by auto
  with Cons.prems Cons.IH[of tot' "tr @ ops"] show ?case by simp
qed simp

lemma accepted_extracts:
  assumes "Unzip (Some (map (\<lambda>e. Some (header_of e)) es)) = None"
    and "list_all (\<lambda>e. \<not> te_broken e \<and> length (te_content e) < 2 ^ 63) es"
    and "is_abs target" and "path_clean target \<noteq> ''/''"
  shows "fst (Extract (\<lambda>_. True) True True (NewUnzipper 0) (map Entry es) target) = None"
proof -
  have sizes: "sizes_ok (map header_of es)"
    using assms(2) by (auto simp: sizes_ok_def list_all_iff header_of_def)
  have "check_entries (map Some (map header_of es)) 0 0 = None"
    using assms(1) by (simp add: Unzip_def o_def)
  then have ok: "list_all header_ok (map header_of es)" "sum_list (map th_size (map header_of es)) \<le> MaxTotalSize"
    using check_entries_accepts[OF sizes, of 0 0] by (simp_all add: MaxTotalSize_def MaxFiles_def)
  have base: "clean_base (path_clean target)"
    using assms(3,4) by (simp add: clean_base_def is_abs_path_clean path_clean_idem_rooted)
  have "sum_list (map (\<lambda>e. int (length (te_content e))) es) < NewUnzipper 0"
    using ok(2) by (simp add: o_def header_of_def MaxTotalSize_def NewUnzipper_def default_max_bytes_def)
  then show ?thesis
    using extract_entries_succeeds[OF base, of es 0] ok(1) assms(2)
    by (simp add: Extract_def Let_def list_all_iff)
qed



end
