(* ===== verification/Stages.thy ===== *)
theory Stages
  imports GoPath
begin

text \<open>
  The stages of the analyzer behind the orchestrator's interfaces: the ClamAV client
  (\<open>internal/analyzer/av\<close>), the dependency audit (\<open>audit\<close>), Semgrep (\<open>sast\<close>) and the LLM judge
  (\<open>llm\<close>). The engines are outside the repository: what a scan sends back, whether a command
  exits with success and what the model replies are arguments; how the code reads the answers is
  modelled in full.
\<close>

section \<open>ClamAV\<close>

datatype clam_status = RES_OK | RES_FOUND | RES_ERROR | RES_OTHER

datatype av_error = ScanNotStarted | EngineFailure | NoStatus

fun scan_local_results :: "bool \<Rightarrow> clam_status list \<Rightarrow> av_error + bool" where
  "scan_local_results isClean [] = (if \<not> isClean then Inr False else Inr True)"
| "scan_local_results isClean (r # rs) = (case r of
     RES_FOUND \<Rightarrow> scan_local_results False rs
   | RES_ERROR \<Rightarrow> Inl EngineFailure
   | _ \<Rightarrow> scan_local_results isClean rs)"

definition ScanLocalPath :: "(string \<Rightarrow> clam_status list option) \<Rightarrow> string \<Rightarrow> av_error + bool" where
  "ScanLocalPath multiscan path = (case multiscan path of
     None \<Rightarrow> Inl ScanNotStarted
   | Some results \<Rightarrow> scan_local_results True results)"

record stream_state =
  st_clean :: bool
  st_err :: bool
  st_found :: bool

definition stream_step :: "clam_status \<Rightarrow> stream_state \<Rightarrow> stream_state" where
  "stream_step r st =
     (if st_found st then st
      else (case r of
              RES_OK \<Rightarrow> st\<lparr>st_clean := True, st_found := True\<rparr>
            | RES_ERROR \<Rightarrow> st\<lparr>st_err := True, st_found := True\<rparr>
            | RES_FOUND \<Rightarrow> st\<lparr>st_clean := False, st_found := True\<rparr>
            | RES_OTHER \<Rightarrow> st))"

definition ScanStream :: "clam_status list option \<Rightarrow> av_error + bool" where
  "ScanStream results = (case results of
     None \<Rightarrow> Inl ScanNotStarted
   | Some rs \<Rightarrow>
       let st = fold stream_step rs \<lparr>st_clean = False, st_err = False, st_found = False\<rparr> in
       if \<not> st_found st then Inl NoStatus
       else if st_err st then Inl EngineFailure
       else Inr (st_clean st))"

lemma scan_local_results_iff:
  "scan_local_results c rs = Inr True \<longleftrightarrow> c \<and> RES_FOUND \<notin> set rs \<and> RES_ERROR \<notin> set rs"
  by (induction rs arbitrary: c) (auto split: clam_status.splits)

lemma scan_local_results_error: "scan_local_results c rs = Inl e \<longleftrightarrow> e = EngineFailure \<and> RES_ERROR \<in> set rs"
  by (induction rs arbitrary: c) (auto split: clam_status.splits)

text \<open>
  The path scan reports a clean workspace exactly when it ran and no result of it is a
  detection or an engine error, and reports an error whenever some file could not be scanned.
\<close>

theorem scan_clean_iff:
  "(ScanLocalPath multiscan path = Inr True \<longleftrightarrow>
      (\<exists>rs. multiscan path = Some rs \<and> RES_FOUND \<notin> set rs \<and> RES_ERROR \<notin> set rs)) \<and>
   (ScanLocalPath multiscan path = Inr False \<longleftrightarrow>
      (\<exists>rs. multiscan path = Some rs \<and> RES_FOUND \<in> set rs \<and> RES_ERROR \<notin> set rs))"
proof -
  have "scan_local_results c rs = Inr False \<longleftrightarrow> RES_ERROR \<notin> set rs \<and> (\<not> c \<or> RES_FOUND \<in> set rs)" for c rs
    by (induction rs arbitrary: c) (auto split: clam_status.splits)
  then show ?thesis
    by (auto simp: ScanLocalPath_def scan_local_results_iff split: option.splits)
qed

lemma stream_done: "st_found st \<Longrightarrow> fold stream_step rs st = st"
  by (induction rs) (auto simp: stream_step_def)

text \<open>The stream scan is decided by its first status.\<close>

fun first_status :: "clam_status list \<Rightarrow> clam_status option" where
  "first_status [] = None"
| "first_status (r # rs) = (if r = RES_OTHER then first_status rs else Some r)"

lemma scan_stream_first:
  "ScanStream (Some rs) = (case first_status rs of
     None \<Rightarrow> Inl NoStatus | Some RES_ERROR \<Rightarrow> Inl EngineFailure | Some r \<Rightarrow> Inr (r = RES_OK))"
proof (induction rs)
  case (Cons r rs)
  then show ?case
    by (cases r) (simp_all add: ScanStream_def stream_step_def stream_done Let_def)
qed (simp add: ScanStream_def)

section \<open>Dependency audit\<close>

definition audit_args :: "string \<Rightarrow> string list" where
  "audit_args reqPath = [''-r'', reqPath, ''-f'', ''json'', ''--no-deps'',
     ''--cache-dir'', ''/tmp/pyaudit'', ''--progress-spinner'', ''off'']"

text \<open>
  \<open>absent\<close>: \<open>os.Stat\<close> says that the file does not exist; \<open>run\<close>: the audit command exits with 0.
  The result is the error flag.
\<close>

definition Audit :: "(string \<Rightarrow> bool) \<Rightarrow> (string list \<Rightarrow> bool) \<Rightarrow> string \<Rightarrow> bool" where
  "Audit absent run dirPath =
     (let reqPath = path_join dirPath ''requirements.txt'' in
      if absent reqPath then False else \<not> run (audit_args reqPath))"

section \<open>Semgrep\<close>

record semgrep_result =
  sr_check_id :: string
  sr_message :: string
  sr_lines :: string

datatype sast_error = AbsFailed | SetenvFailed | SemgrepFailed | BadSemgrepJson

definition semgrep_args :: "string \<Rightarrow> string list" where
  "semgrep_args absPath = [''scan'', ''--json'', ''--config'', ''r/python'', ''--quiet'', absPath]"

text \<open>
  The command's result is its exit status and its output; the exit status alone does not make the
  run fail, since Semgrep exits with 1 on findings.
\<close>

definition SemgrepRun ::
  "(string \<Rightarrow> string option) \<Rightarrow> bool \<Rightarrow> (string list \<Rightarrow> bool \<times> string) \<Rightarrow>
   (string \<Rightarrow> semgrep_result list option) \<Rightarrow> string \<Rightarrow> sast_error + semgrep_result list" where
  "SemgrepRun abs_path setenv_ok run unmarshal targetPath =
     (case abs_path targetPath of
        None \<Rightarrow> Inl AbsFailed
      | Some absPath \<Rightarrow>
          if \<not> setenv_ok then Inl SetenvFailed
          else let (ok, output) = run (semgrep_args absPath) in
            if \<not> ok \<and> output = [] then Inl SemgrepFailed
            else (case unmarshal output of None \<Rightarrow> Inl BadSemgrepJson | Some report \<Rightarrow> Inr report))"

section \<open>The LLM judge\<close>

datatype sast_verdict = SastFailure | SastMalicious | SastSafe

datatype judge_error =
    LogUnreadable | RequestFailed | BadStatus int | BadEnvelope | BadVerdict

text \<open>
  \<open>AskForSAST\<close>: \<open>post\<close> is the exchange with Ollama for the prompt built from the rule message and
  the code; \<open>Inr\<close> carries the decoded \<open>response\<close> field. The HTTP status is not looked at.
\<close>

definition AskForSAST ::
  "(string \<Rightarrow> string \<Rightarrow> judge_error + string) \<Rightarrow> string \<Rightarrow> string \<Rightarrow> sast_verdict \<times> judge_error option" where
  "AskForSAST post sastMessage codeContext = (case post sastMessage codeContext of
     Inl e \<Rightarrow> (SastFailure, Some e)
   | Inr response \<Rightarrow> (if response = ''MALICIOUS'' then SastMalicious else SastSafe, None))"

definition judge_url :: "string \<Rightarrow> string" where
  "judge_url baseUrl = (if baseUrl = [] then ''http://localhost:11434/api/generate''
                        else baseUrl @ ''/api/generate'')"

definition judge_model :: "string \<Rightarrow> string" where
  "judge_model modelName = (if modelName = [] then ''qwen2.5:3b'' else modelName)"

text \<open>
  \<open>AskForLogs\<close>: the log that is sent is the behaviour part of the report when the file parses and
  marshals again, and the whole file otherwise.
\<close>

record ollama_reply =
  or_status :: int
  or_envelope :: "string option"

definition optimized_log :: "(string \<Rightarrow> 'b option) \<Rightarrow> ('b \<Rightarrow> string option) \<Rightarrow> string \<Rightarrow> string" where
  "optimized_log unmarshal marshal logData = (case unmarshal logData of
     None \<Rightarrow> logData
   | Some behavior \<Rightarrow> (case marshal behavior of None \<Rightarrow> logData | Some compact \<Rightarrow> compact))"

definition AskForLogs ::
  "(string \<Rightarrow> string option) \<Rightarrow> (string \<Rightarrow> 'b option) \<Rightarrow> ('b \<Rightarrow> string option) \<Rightarrow>
   (string \<Rightarrow> string \<Rightarrow> string \<Rightarrow> ollama_reply option) \<Rightarrow> (string \<Rightarrow> string option) \<Rightarrow>
   string \<Rightarrow> string \<Rightarrow> string \<Rightarrow> judge_error + string" where
  "AskForLogs read unmarshal marshal post parse_verdict baseUrl modelName logPath =
     (case read logPath of
        None \<Rightarrow> Inl LogUnreadable
      | Some logData \<Rightarrow>
          (case post (judge_url baseUrl) (judge_model modelName) (optimized_log unmarshal marshal logData) of
             None \<Rightarrow> Inl RequestFailed
           | Some reply \<Rightarrow>
               if or_status reply \<noteq> 200 then Inl (BadStatus (or_status reply))
               else (case or_envelope reply of
                       None \<Rightarrow> Inl BadEnvelope
                     | Some response \<Rightarrow>
                         (case parse_verdict response of
                            None \<Rightarrow> Inl BadVerdict
                          | Some v \<Rightarrow> Inr (if v = ''SUSPICIOUS'' then ''MALICIOUS'' else v)))))"

text \<open>
  The behavioural judge's answer never is SUSPICIOUS: a suspicious verdict reaches the
  orchestrator as MALICIOUS, and every verdict it returns comes from a readable report and a
  reply with status 200.
\<close>

theorem judge_suspicious_is_malicious:
  assumes "AskForLogs read unmarshal marshal post parse_verdict baseUrl modelName logPath = Inr v"
  shows "v \<noteq> ''SUSPICIOUS'' \<and> (\<exists>logData reply response w.
     read logPath = Some logData \<and>
     post (judge_url baseUrl) (judge_model modelName) (optimized_log unmarshal marshal logData) = Some reply \<and>
     or_status reply = 200 \<and> or_envelope reply = Some response \<and> parse_verdict response = Some w \<and>
     (w = v \<or> w = ''SUSPICIOUS'' \<and> v = ''MALICIOUS''))"
  using assms by (auto simp: AskForLogs_def split: option.splits if_splits)

theorem judge_suspicious_is_malicious_witness:
  "AskForLogs (\<lambda>_. Some ''log'') (\<lambda>_. None :: unit option) (\<lambda>_. None)
     (\<lambda>_ _ _. Some \<lparr>or_status = 200, or_envelope = Some ''r''\<rparr>) (\<lambda>_. Some ''SUSPICIOUS'') [] [] ''p'' =
     Inr ''MALICIOUS'' \<and> ''MALICIOUS'' \<noteq> ''SUSPICIOUS''"
proof -
  have "AskForLogs (\<lambda>_. Some ''log'') (\<lambda>_. None :: unit option) (\<lambda>_. None)
     (\<lambda>_ _ _. Some \<lparr>or_status = 200, or_envelope = Some ''r''\<rparr>) (\<lambda>_. Some ''SUSPICIOUS'') [] [] ''p'' =
     Inr ''MALICIOUS''" by (simp add: AskForLogs_def)
  with judge_suspicious_is_malicious[OF this] show ?thesis by blast
qed

end
