(* ===== verification/Behavior.thy ===== *)
theory Behavior
  imports GoStrings
begin

text \<open>
  \<open>internal/analyzer/dast/helpers.go\<close> and \<open>types.go\<close>: the parser that turns the gVisor boot log
  of a detonation into the behaviour report the LLM judges. The helpers carry the names of the
  source; its index scans are recursions on the remaining string, with the index that the source
  returns (\<open>-1\<close> for none) as an \<^typ>\<open>int\<close>.
\<close>

section \<open>String helpers\<close>

fun indexByte_at :: "nat \<Rightarrow> string \<Rightarrow> char \<Rightarrow> int" where
  "indexByte_at i [] b = -1"
| "indexByte_at i (c # s) b = (if c = b then int i else indexByte_at (Suc i) s b)"

definition indexByte :: "string \<Rightarrow> char \<Rightarrow> int" where
  "indexByte s b = indexByte_at 0 s b"

fun indexStr_at :: "nat \<Rightarrow> string \<Rightarrow> string \<Rightarrow> int" where
  "indexStr_at i [] sub = (if sub = [] then int i else -1)"
| "indexStr_at i (c # s) sub =
     (if length sub > length (c # s) then -1
      else if take (length sub) (c # s) = sub then int i
      else indexStr_at (Suc i) s sub)"

definition indexStr :: "string \<Rightarrow> string \<Rightarrow> int" where
  "indexStr s sub = indexStr_at 0 s sub"

definition containsStr :: "string \<Rightarrow> string \<Rightarrow> bool" where
  "containsStr s sub \<longleftrightarrow> indexStr s sub \<noteq> -1"

fun splitLines_from :: "string \<Rightarrow> string \<Rightarrow> string list" where
  "splitLines_from cur [] = (if cur = [] then [] else [rev cur])"
| "splitLines_from cur (c # s) =
     (if c = CHR 0x0A then rev cur # splitLines_from [] s else splitLines_from (c # cur) s)"

definition splitLines :: "string \<Rightarrow> string list" where
  "splitLines s = splitLines_from [] s"

definition is_blank :: "char \<Rightarrow> bool" where
  "is_blank c \<longleftrightarrow> c = CHR '' '' \<or> c = CHR 0x09"

definition trimSpace :: "string \<Rightarrow> string" where
  "trimSpace s = rev (dropWhile is_blank (rev (dropWhile is_blank s)))"

definition slice_to :: "string \<Rightarrow> int \<Rightarrow> string" where
  "slice_to s i = take (nat i) s"

definition slice_from :: "string \<Rightarrow> int \<Rightarrow> string" where
  "slice_from s i = drop (nat i) s"

section \<open>Fields of a log line\<close>

text \<open>
  The scan looks at the suffix that starts at index \<open>i\<close>: \<open>i < len(line)-6\<close> says that it has more
  than six bytes, \<open>i+9 < len(line)\<close> that it has more than nine.
\<close>

fun extractTimestamp :: "string \<Rightarrow> string" where
  "extractTimestamp [] = []"
| "extractTimestamp (c # t) =
     (if length (c # t) > 6
      then if c = CHR '' '' \<and> length (c # t) > 9 \<and> t ! 2 = CHR '':'' \<and> t ! 5 = CHR '':''
           then takeWhile (\<lambda>x. x \<noteq> CHR '' '') t
           else extractTimestamp t
      else [])"

text \<open>What follows the last closing bracket that a space follows.\<close>

fun after_last_bracket :: "string \<Rightarrow> string option" where
  "after_last_bracket [] = None"
| "after_last_bracket (c # t) = (case after_last_bracket t of
     Some r \<Rightarrow> Some r
   | None \<Rightarrow> if c = CHR '']'' \<and> t \<noteq> [] \<and> hd t = CHR '' '' then Some (tl t) else None)"

definition extractBody :: "string \<Rightarrow> string" where
  "extractBody line = (case after_last_bracket line of
     None \<Rightarrow> []
   | Some rest \<Rightarrow>
       (let xIdx = indexStr rest '' X '' in if xIdx = -1 then [] else slice_from rest (xIdx + 3)))"

definition path_stop :: "char \<Rightarrow> bool" where
  "path_stop c \<longleftrightarrow> c = CHR '','' \<or> c = CHR '')'' \<or> c = CHR '' '' \<or> c = CHR 0x22 \<or> c = CHR ''}''"

definition extractPath :: "string \<Rightarrow> string" where
  "extractPath args = takeWhile (\<lambda>c. \<not> path_stop c) (dropWhile (\<lambda>c. c \<noteq> CHR ''/'') args)"

definition flag_markers :: "string list" where
  "flag_markers = [''O_RDONLY'', ''O_WRONLY'', ''O_RDWR'', ''O_CREAT'', ''O_EXCL'', ''O_TRUNC'', ''O_APPEND'']"

fun add_flags :: "string \<Rightarrow> string \<Rightarrow> string list \<Rightarrow> string" where
  "add_flags args result [] = result"
| "add_flags args result (m # ms) =
     add_flags args
       (if containsStr args m then (if result \<noteq> [] then result @ ''|'' else result) @ m else result) ms"

definition extractFlags :: "string \<Rightarrow> string" where
  "extractFlags args = add_flags args [] flag_markers"

definition extractNetDetail :: "string \<Rightarrow> string" where
  "extractNetDetail args =
     (let addrIdx = indexStr args ''Addr: '' in
      if addrIdx = -1 then []
      else
        let rest = slice_from args (addrIdx + 6);
            e = (if indexByte rest (CHR '','') = -1 then indexByte rest (CHR ''}'')
                 else indexByte rest (CHR '',''));
            addr = (if e \<noteq> -1 then trimSpace (slice_to rest e) else rest);
            portIdx = indexStr args ''Port: '';
            port = (if portIdx \<noteq> -1
                    then let pr = slice_from args (portIdx + 6); pend = indexByte pr (CHR ''}'') in
                         if pend \<noteq> -1 then '':'' @ trimSpace (slice_to pr pend) else []
                    else [])
        in addr @ port)"

definition extractExecArgs :: "string \<Rightarrow> string" where
  "extractExecArgs args =
     (let start = indexByte args (CHR ''['') in
      if start = -1 then []
      else let e = indexByte (slice_from args start) (CHR '']'') in
           if e = -1 then [] else slice_to (slice_from args start) (e + 1))"

section \<open>Noise\<close>

definition noisy_substrings :: "string list" where
  "noisy_substrings = [''__pycache__'', ''.pyc'', ''pyvenv.cfg'', ''pybuilddir.txt'',
     ''Setup.local'', ''python311.zip'', ''/etc/localtime'']"

definition isNoisyFSPath :: "string \<Rightarrow> bool" where
  "isNoisyFSPath path =
     (if path = ''/tmp/script.py'' \<or> path = ''script.py'' then True
      else if path = [] \<or> path = ''/'' \<or> path = ''/tmp'' \<or> path = ''/tmp/'' then True
      else if has_prefix path ''/usr/local/'' \<or> has_prefix path ''/usr/lib/'' \<or>
              has_prefix path ''/root/.local/'' then True
      else list_ex (\<lambda>sub. str_contains path sub) noisy_substrings)"

section \<open>The report\<close>

record fs_event =
  fs_ts :: string
  fs_op :: string
  fs_path :: string
  fs_flags :: string
  fs_result :: string

record net_event =
  net_ts :: string
  net_op :: string
  net_detail :: string
  net_result :: string

record proc_event =
  proc_ts :: string
  proc_op :: string
  proc_args :: string
  proc_result :: string

record behavior_report =
  FSAccess :: "fs_event list"
  NetEvents :: "net_event list"
  ProcEvents :: "proc_event list"
  RawSyscalls :: "string list"

definition fsOps :: "string list" where
  "fsOps = [''open'', ''openat'', ''read'', ''write'', ''stat'', ''fstat'', ''lstat'',
            ''rename'', ''unlink'', ''mkdir'', ''rmdir'']"

definition netOps :: "string list" where
  "netOps = [''socket'', ''connect'', ''bind'', ''listen'', ''accept'', ''sendto'',
             ''recvfrom'', ''sendmsg'', ''recvmsg'']"

definition procOps :: "string list" where
  "procOps = [''execve'', ''vfork'', ''clone'', ''kill'', ''exit_group'']"

text \<open>Go compares strings bytewise, lexicographically.\<close>

fun timestampBefore :: "string \<Rightarrow> string \<Rightarrow> bool" where
  "timestampBefore a [] = False"
| "timestampBefore [] (b # bs) = True"
| "timestampBefore (a # as) (b # bs) =
     ((of_char a :: nat) < of_char b \<or> (a = b \<and> timestampBefore as bs))"

fun findHandlerStartTime_in :: "string list \<Rightarrow> string" where
  "findHandlerStartTime_in [] = []"
| "findHandlerStartTime_in (line # lines) =
     (if \<not> containsStr line '' X '' then findHandlerStartTime_in lines
      else if containsStr (extractBody line) ''execve'' \<and> containsStr (extractBody line) ''import handler''
      then extractTimestamp line
      else findHandlerStartTime_in lines)"

definition findHandlerStartTime :: "string \<Rightarrow> string" where
  "findHandlerStartTime raw = findHandlerStartTime_in (splitLines raw)"

definition return_value :: "string \<Rightarrow> string" where
  "return_value body =
     (let eqIdx = indexStr body '' = '' in
      if eqIdx = -1 then []
      else let retVal = slice_from body (eqIdx + 3); tiIdx = indexByte retVal (CHR ''('') in
           if tiIdx \<noteq> -1 then trimSpace (slice_to retVal tiIdx) else retVal)"

definition report_line :: "string \<Rightarrow> string \<Rightarrow> behavior_report \<Rightarrow> behavior_report" where
  "report_line handlerStart line report =
     (if \<not> containsStr line '' X '' then report
      else
        let ts = extractTimestamp line in
        if handlerStart \<noteq> [] \<and> timestampBefore ts handlerStart then report
        else
          let body = extractBody line in
          if body = [] then report
          else
            let parenIdx = indexByte body (CHR ''('') in
            if parenIdx = -1 then report
            else
              let syscallName = slice_to body parenIdx;
                  argsSection = slice_from body parenIdx;
                  retVal = return_value body in
              if syscallName \<in> set fsOps then
                let path = extractPath argsSection in
                if isNoisyFSPath path then report
                else report\<lparr>FSAccess := FSAccess report @
                       [\<lparr>fs_ts = ts, fs_op = syscallName, fs_path = path,
                         fs_flags = extractFlags argsSection, fs_result = retVal\<rparr>]\<rparr>
              else if syscallName \<in> set netOps then
                report\<lparr>NetEvents := NetEvents report @
                       [\<lparr>net_ts = ts, net_op = syscallName,
                         net_detail = extractNetDetail argsSection, net_result = retVal\<rparr>]\<rparr>
              else if syscallName \<in> set procOps then
                report\<lparr>ProcEvents := ProcEvents report @
                       [\<lparr>proc_ts = ts, proc_op = syscallName,
                         proc_args = extractExecArgs argsSection, proc_result = retVal\<rparr>]\<rparr>
              else report)"

definition empty_report :: behavior_report where
  "empty_report = \<lparr>FSAccess = [], NetEvents = [], ProcEvents = [], RawSyscalls = []\<rparr>"

definition parseBehaviorReport :: "string \<Rightarrow> behavior_report" where
  "parseBehaviorReport raw =
     fold (report_line (findHandlerStartTime raw)) (splitLines raw) empty_report"

section \<open>The helpers against the library's search functions\<close>

lemma indexByte_at_shift: "indexByte_at i s b = (case str_index s [b] of None \<Rightarrow> -1 | Some j \<Rightarrow> int (i + j))"
  by (induction i s b rule: indexByte_at.induct) (auto split: option.splits)

lemma indexByte_index: "indexByte s b = (case str_index s [b] of None \<Rightarrow> -1 | Some j \<Rightarrow> int j)"
  by (simp add: indexByte_def indexByte_at_shift split: option.splits)

lemma prefix_take: "prefix p s \<longleftrightarrow> take (length p) s = p"
  by (metis append_eq_conv_conj prefix_def take_is_prefix)

lemma str_index_too_long: "length sub > length s \<Longrightarrow> str_index s sub = None"
  by (metis str_index_None sublist_length_le not_less)

lemma indexStr_at_shift: "indexStr_at i s sub = (case str_index s sub of None \<Rightarrow> -1 | Some j \<Rightarrow> int (i + j))"
proof (induction i s sub rule: indexStr_at.induct)
  case (2 i c s sub)
  show ?case
  proof (cases "length sub > length (c # s)")
    case True
    then show ?thesis using str_index_too_long[OF True] by simp
  next
    case False
    with "2.IH" show ?thesis by (auto simp: prefix_take split: option.splits)
  qed
qed simp

lemma indexStr_index: "indexStr s sub = (case str_index s sub of None \<Rightarrow> -1 | Some j \<Rightarrow> int j)"
  by (simp add: indexStr_def indexStr_at_shift split: option.splits)

lemma containsStr_iff [go_str]: "containsStr s sub \<longleftrightarrow> sublist sub s"
  using str_index_None[of s sub] by (auto simp: containsStr_def indexStr_index split: option.splits)

lemma splitLines_from_no_newline:
  "CHR 0x0A \<notin> set cur \<Longrightarrow> l \<in> set (splitLines_from cur s) \<Longrightarrow> CHR 0x0A \<notin> set l"
  by (induction cur s rule: splitLines_from.induct) (auto split: if_splits)

lemma splitLines_from_concat:
  "concat (map (\<lambda>l. l @ [CHR 0x0A]) (splitLines_from cur s)) =
     rev cur @ s @ (if cur @ s = [] \<or> (s \<noteq> [] \<and> last s = CHR 0x0A) then [] else [CHR 0x0A])"
  by (induction cur s rule: splitLines_from.induct) auto

text \<open>
  \<open>splitLines\<close> loses nothing but the line ends: no line holds a newline, and the lines, each
  with its newline put back, are the input up to a missing final newline.
\<close>

theorem splitLines_roundtrip:
  "concat (map (\<lambda>l. l @ [CHR 0x0A]) (splitLines s)) =
     (if s = [] \<or> last s = CHR 0x0A then s else s @ [CHR 0x0A]) \<and>
   list_all (\<lambda>l. CHR 0x0A \<notin> set l) (splitLines s)"
  using splitLines_from_concat[of "[]" s] splitLines_from_no_newline[of "[]"]
  by (auto simp: splitLines_def list_all_iff)

section \<open>The report as three independent selections\<close>

text \<open>
  What one line contributes, as a value: the reference the accumulating loop is compared with.
\<close>

datatype line_event = FsE fs_event | NetE net_event | ProcE proc_event

definition line_event_of :: "string \<Rightarrow> string \<Rightarrow> line_event option" where
  "line_event_of start line =
     (let ts = extractTimestamp line; body = extractBody line; p = indexByte body (CHR ''('');
          name = slice_to body p; args = slice_from body p; ret = return_value body in
      if \<not> sublist '' X '' line \<or> (start \<noteq> [] \<and> timestampBefore ts start) \<or> body = [] \<or> p = -1 then None
      else if name \<in> set fsOps then
        (if isNoisyFSPath (extractPath args) then None
         else Some (FsE \<lparr>fs_ts = ts, fs_op = name, fs_path = extractPath args,
                          fs_flags = extractFlags args, fs_result = ret\<rparr>))
      else if name \<in> set netOps then
        Some (NetE \<lparr>net_ts = ts, net_op = name, net_detail = extractNetDetail args, net_result = ret\<rparr>)
      else if name \<in> set procOps then
        Some (ProcE \<lparr>proc_ts = ts, proc_op = name, proc_args = extractExecArgs args, proc_result = ret\<rparr>)
      else None)"

definition add_event :: "line_event option \<Rightarrow> behavior_report \<Rightarrow> behavior_report" where
  "add_event e r = (case e of
     None \<Rightarrow> r
   | Some (FsE f) \<Rightarrow> r\<lparr>FSAccess := FSAccess r @ [f]\<rparr>
   | Some (NetE n) \<Rightarrow> r\<lparr>NetEvents := NetEvents r @ [n]\<rparr>
   | Some (ProcE p) \<Rightarrow> r\<lparr>ProcEvents := ProcEvents r @ [p]\<rparr>)"

lemma report_line_event: "report_line start line r = add_event (line_event_of start line) r"
  by (simp add: report_line_def line_event_of_def add_event_def Let_def containsStr_iff)

definition fs_of :: "line_event option \<Rightarrow> fs_event list" where
  "fs_of e = (case e of Some (FsE f) \<Rightarrow> [f] | _ \<Rightarrow> [])"

definition net_of :: "line_event option \<Rightarrow> net_event list" where
  "net_of e = (case e of Some (NetE n) \<Rightarrow> [n] | _ \<Rightarrow> [])"

definition proc_of :: "line_event option \<Rightarrow> proc_event list" where
  "proc_of e = (case e of Some (ProcE p) \<Rightarrow> [p] | _ \<Rightarrow> [])"

lemma add_event_fields:
  "FSAccess (add_event e r) = FSAccess r @ fs_of e"
  "NetEvents (add_event e r) = NetEvents r @ net_of e"
  "ProcEvents (add_event e r) = ProcEvents r @ proc_of e"
  "RawSyscalls (add_event e r) = RawSyscalls r"
  by (auto simp: add_event_def fs_of_def net_of_def proc_of_def split: option.splits line_event.splits)

lemma fold_report_fields:
  "FSAccess (fold (report_line start) ls r) = FSAccess r @ concat (map (\<lambda>l. fs_of (line_event_of start l)) ls)"
  "NetEvents (fold (report_line start) ls r) = NetEvents r @ concat (map (\<lambda>l. net_of (line_event_of start l)) ls)"
  "ProcEvents (fold (report_line start) ls r) = ProcEvents r @ concat (map (\<lambda>l. proc_of (line_event_of start l)) ls)"
  "RawSyscalls (fold (report_line start) ls r) = RawSyscalls r"
  by (induction ls arbitrary: r) (simp_all add: report_line_event add_event_fields)

text \<open>
  The behaviour report is, per category and in log order, exactly the events of the log's
  lines: nothing is invented, merged or reordered by the accumulating loop, and the raw syscall
  list stays empty.
\<close>

theorem report_is_selection:
  "parseBehaviorReport raw =
     (let es = map (line_event_of (findHandlerStartTime raw)) (splitLines raw) in
      \<lparr>FSAccess = concat (map fs_of es), NetEvents = concat (map net_of es),
       ProcEvents = concat (map proc_of es), RawSyscalls = []\<rparr>)"
  by (simp add: behavior_report.equality parseBehaviorReport_def fold_report_fields empty_report_def
        Let_def o_def)

lemma fs_of_line_ok:
  assumes "e \<in> set (fs_of (line_event_of start line))"
  shows "fs_op e \<in> set fsOps \<and> \<not> isNoisyFSPath (fs_path e) \<and> \<not> (start \<noteq> [] \<and> timestampBefore (fs_ts e) start)"
  using assms by (auto simp: fs_of_def line_event_of_def Let_def split: if_splits)

text \<open>
  No file event of a report is noise: its call is a monitored file call, its path passes the
  noise filter, and it does not precede the start of the user's handler.
\<close>

theorem report_no_noise:
  "list_all (\<lambda>e. fs_op e \<in> set fsOps \<and> \<not> isNoisyFSPath (fs_path e) \<and>
       \<not> (findHandlerStartTime raw \<noteq> [] \<and> timestampBefore (fs_ts e) (findHandlerStartTime raw)))
     (FSAccess (parseBehaviorReport raw))"
  using fs_of_line_ok by (fastforce simp: report_is_selection Let_def list_all_iff)

section \<open>A line the parser loses\<close>

text \<open>
  The body of a line is sought after the last closing bracket that a space follows. System call
  arguments are the program's own strings, so a bracket and a space inside one of them moves the
  start of the body past the call's name.
\<close>

lemma after_last_bracket_None: "\<not> sublist ''] '' v \<Longrightarrow> after_last_bracket v = None"
proof (induction v)
  case (Cons c v)
  then have "after_last_bracket v = None" by (auto simp: sublist_Cons_right)
  moreover have "\<not> (c = CHR '']'' \<and> v \<noteq> [] \<and> hd v = CHR '' '')"
    using Cons.prems by (cases v) (auto simp: sublist_Cons_right)
  ultimately show ?case by auto
qed simp

lemma after_last_bracket_append: "after_last_bracket t = Some r \<Longrightarrow> after_last_bracket (u @ t) = Some r"
  by (induction u) auto

text \<open>
  A log line in which an argument holds a closing bracket followed by a space, with no
  further such bracket and no later \<open> X \<close>, adds nothing to the report: a program hides a file
  access, a connection or a command from the judge by putting these two bytes into its argument.
\<close>

theorem bracket_in_argument_hides_call:
  assumes "\<not> sublist ''] '' v" and "\<not> sublist '' X '' v"
  shows "report_line start (u @ ''] '' @ v) report = report"
proof -
  have "after_last_bracket (CHR '']'' # CHR '' '' # v) = Some v"
    using after_last_bracket_None[OF assms(1)] by simp
  then have "after_last_bracket (u @ ''] '' @ v) = Some v"
    using after_last_bracket_append[of "CHR '']'' # CHR '' '' # v" v u] by simp
  then have "extractBody (u @ ''] '' @ v) = []"
    using assms(2) by (simp add: extractBody_def Let_def indexStr_index str_index_None[THEN iffD2])
  then show ?thesis by (simp add: report_line_event line_event_of_def add_event_def Let_def)
qed

definition sample_line :: "string \<Rightarrow> string" where
  "sample_line path = ''I0521 22:49:06.655741  1 strace.go:605] [ 1: 1] python X open(0x7f '' @ path @ '', O_RDONLY) = 3''"

theorem bracket_in_argument_hides_call_witness:
  "FSAccess (report_line [] (sample_line ''/etc/shadow'') empty_report) \<noteq> [] \<and>
   FSAccess (report_line [] (sample_line ''/tmp/l] /../../etc/shadow'') empty_report) = []"
proof
  show "FSAccess (report_line [] (sample_line ''/etc/shadow'') empty_report) \<noteq> []" by code_simp
  have "\<not> sublist ''] '' ''/../../etc/shadow, O_RDONLY) = 3''"
    and "\<not> sublist '' X '' ''/../../etc/shadow, O_RDONLY) = 3''" by code_simp+
  from bracket_in_argument_hides_call[OF this, of "[]"
      "''I0521 22:49:06.655741  1 strace.go:605] [ 1: 1] python X open(0x7f /tmp/l''" empty_report]
  show "FSAccess (report_line [] (sample_line ''/tmp/l] /../../etc/shadow'') empty_report) = []"
    by (simp add: sample_line_def empty_report_def)
qed

end
