(* ===== verification/Orchestrator.thy ===== *)
theory Orchestrator
  imports Stages Sanitizer Unzipper Behavior Stores
begin

text \<open>
  The analysis pipeline: \<open>AnalyzeFile\<close> and \<open>askLLMForSast\<close> of
  \<open>internal/analyzer/orchestrator/analysis_orchestrator.go\<close>. The orchestrator reaches its stages
  through Go interfaces, which are the fields of the record below; \<open>Stages\<close>, \<open>Unzipper\<close>,
  \<open>Sanitizer\<close> and \<open>Behavior\<close> model the implementations it is wired with. The result lists the
  stages that ran and the paths the deferred functions removed; \<open>log.Fatalf\<close> ends the process
  without running deferred functions.
\<close>

datatype verdict = FAILURE | MALICIOUS | SAFE

record execution_result =
  er_stdout :: string
  er_stderr :: string
  er_behavior :: behavior_report

record pipeline =
  p_download :: "string \<Rightarrow> uuid \<Rightarrow> string option"
  p_extract :: "string \<Rightarrow> string \<Rightarrow> unzip_error option"
  p_audit :: "string \<Rightarrow> bool"
  p_scan :: "string \<Rightarrow> av_error + bool"
  p_sast :: "string \<Rightarrow> sast_error + semgrep_result list"
  p_ask_sast :: "string \<Rightarrow> string \<Rightarrow> sast_verdict \<times> judge_error option"
  p_detonate :: "string \<Rightarrow> execution_result option"
  p_write_report :: "execution_result \<Rightarrow> string \<Rightarrow> bool"
  p_ask_logs :: "string \<Rightarrow> judge_error + string"

datatype analysis_error =
    DownloadFailed | ExtractFailed unzip_error | AuditFlagged | ScanFailed av_error | FileUnsafe
  | DetonationFailed | ReportFailed | LogJudgeFailed judge_error

datatype stage =
    DownloadStage | ExtractStage | AuditStage | ScanStage | SastStage | SastJudgeStage string
  | DetonateStage | ReportStage | LogJudgeStage

datatype analysis =
    Fatal "stage list"
  | Verdict verdict "analysis_error option" "stage list" "string list"

section \<open>The pipeline\<close>

definition quarantine_path :: "(uuid \<Rightarrow> string) \<Rightarrow> uuid \<Rightarrow> string" where
  "quarantine_path ustr k = ''/tmp/quarantine/'' @ ustr k @ ''/extracted''"

definition askLLMForSast :: "pipeline \<Rightarrow> semgrep_result \<Rightarrow> sast_verdict \<times> judge_error option" where
  "askLLMForSast P finding =
     (let msg = sr_message finding; cleanCode = SanitizeCode (sr_lines finding) in
      case p_ask_sast P msg cleanCode of
        (v, Some e) \<Rightarrow> (SastFailure, Some e)
      | (v, None) \<Rightarrow> (v, None))"

text \<open>
  The loop over the findings: whether a finding was judged malicious, and the findings asked
  about. A judge error skips the finding.
\<close>

fun judge_findings :: "pipeline \<Rightarrow> semgrep_result list \<Rightarrow> bool \<times> stage list" where
  "judge_findings P [] = (False, [])"
| "judge_findings P (f # fs) =
     (case askLLMForSast P f of
        (v, Some e) \<Rightarrow> (let (m, tr) = judge_findings P fs in (m, SastJudgeStage (sr_check_id f) # tr))
      | (v, None) \<Rightarrow>
          if v = SastMalicious then (True, [SastJudgeStage (sr_check_id f)])
          else (let (m, tr) = judge_findings P fs in (m, SastJudgeStage (sr_check_id f) # tr)))"

definition AnalyzeFile ::
  "(uuid \<Rightarrow> string) \<Rightarrow> string \<Rightarrow> pipeline \<Rightarrow> string \<Rightarrow> uuid \<Rightarrow> analysis" where
  "AnalyzeFile ustr reportDir P fileName functionId =
     (case p_download P fileName functionId of
        None \<Rightarrow> Verdict FAILURE (Some DownloadFailed) [DownloadStage] []
      | Some localPath \<Rightarrow>
          let extractPath = quarantine_path ustr functionId;
              cleanup = [extractPath, localPath] in
          (case p_extract P localPath extractPath of
             Some e \<Rightarrow> Verdict FAILURE (Some (ExtractFailed e)) [DownloadStage, ExtractStage] cleanup
           | None \<Rightarrow>
               if p_audit P extractPath
               then Verdict MALICIOUS (Some AuditFlagged) [DownloadStage, ExtractStage, AuditStage] cleanup
               else
                 let tr = [DownloadStage, ExtractStage, AuditStage, ScanStage] in
                 (case p_scan P extractPath of
                    Inl e \<Rightarrow> Verdict FAILURE (Some (ScanFailed e)) tr cleanup
                  | Inr False \<Rightarrow> Verdict FAILURE (Some FileUnsafe) tr cleanup
                  | Inr True \<Rightarrow>
                      (case p_sast P extractPath of
                         Inl e \<Rightarrow> Fatal (tr @ [SastStage])
                       | Inr findings \<Rightarrow>
                           let (bad, judged) = judge_findings P findings; tr1 = tr @ SastStage # judged in
                           if bad then Verdict MALICIOUS None tr1 cleanup
                           else
                             (case p_detonate P extractPath of
                                None \<Rightarrow> Verdict FAILURE (Some DetonationFailed) (tr1 @ [DetonateStage]) cleanup
                              | Some result \<Rightarrow>
                                  let jsonPath = reportDir @ ''/'' @ ustr functionId;
                                      cleanup1 = jsonPath # cleanup in
                                  if p_write_report P result jsonPath
                                  then Verdict FAILURE (Some ReportFailed) (tr1 @ [DetonateStage, ReportStage]) cleanup1
                                  else
                                    let tr2 = tr1 @ [DetonateStage, ReportStage, LogJudgeStage] in
                                    (case p_ask_logs P jsonPath of
                                       Inl e \<Rightarrow> Verdict FAILURE (Some (LogJudgeFailed e)) tr2 cleanup1
                                     | Inr v \<Rightarrow>
                                         if v = ''MALICIOUS'' then Verdict MALICIOUS None tr2 cleanup1
                                         else Verdict SAFE None tr2 cleanup1))))))"

section \<open>When a function is judged safe\<close>

definition judged_malicious :: "pipeline \<Rightarrow> semgrep_result \<Rightarrow> bool" where
  "judged_malicious P f \<longleftrightarrow> p_ask_sast P (sr_message f) (SanitizeCode (sr_lines f)) = (SastMalicious, None)"

lemma judge_findings_bad: "fst (judge_findings P fs) \<longleftrightarrow> (\<exists>f\<in>set fs. judged_malicious P f)"
  by (induction fs)
     (auto simp: askLLMForSast_def judged_malicious_def Let_def split_beta prod_eq_iff
        split: option.splits)

lemma judge_findings_stages: "DetonateStage \<notin> set (snd (judge_findings P fs))"
  by (induction fs) (auto simp: askLLMForSast_def Let_def split_beta split: option.splits prod.splits)

definition static_checks_pass :: "pipeline \<Rightarrow> string \<Rightarrow> bool" where
  "static_checks_pass P path \<longleftrightarrow> \<not> p_audit P path \<and> p_scan P path = Inr True \<and>
     (\<exists>fs. p_sast P path = Inr fs \<and> (\<forall>f\<in>set fs. \<not> judged_malicious P f))"

definition verdict_of :: "analysis \<Rightarrow> verdict option" where
  "verdict_of a = (case a of Fatal _ \<Rightarrow> None | Verdict v _ _ _ \<Rightarrow> Some v)"

definition stages_of :: "analysis \<Rightarrow> stage list" where
  "stages_of a = (case a of Fatal tr \<Rightarrow> tr | Verdict _ _ tr _ \<Rightarrow> tr)"

definition removed_by :: "analysis \<Rightarrow> string list" where
  "removed_by a = (case a of Fatal _ \<Rightarrow> [] | Verdict _ _ _ ps \<Rightarrow> ps)"

lemmas analysis_views = verdict_of_def stages_of_def removed_by_def

lemma safe_iff:
  "verdict_of (AnalyzeFile ustr reportDir P fileName k) = Some SAFE \<longleftrightarrow>
     (\<exists>localPath result v.
        p_download P fileName k = Some localPath \<and>
        p_extract P localPath (quarantine_path ustr k) = None \<and>
        static_checks_pass P (quarantine_path ustr k) \<and>
        p_detonate P (quarantine_path ustr k) = Some result \<and>
        \<not> p_write_report P result (reportDir @ ''/'' @ ustr k) \<and>
        p_ask_logs P (reportDir @ ''/'' @ ustr k) = Inr v \<and> v \<noteq> ''MALICIOUS'')"
proof -
  have "(case judge_findings P fs of (bad, judged) \<Rightarrow> g bad judged) =
        g (\<exists>f\<in>set fs. judged_malicious P f) (snd (judge_findings P fs))" for fs and g :: "bool \<Rightarrow> stage list \<Rightarrow> analysis"
    using judge_findings_bad by (simp add: split_beta)
  then show ?thesis
    unfolding AnalyzeFile_def static_checks_pass_def verdict_of_def Let_def
    by (auto split: option.splits sum.splits bool.splits if_splits)
qed

text \<open>
  The analyzer calls a function SAFE exactly when its archive was fetched and extracted, the
  audit, the virus scan and the static analysis passed with no finding judged malicious, and the
  detonation produced a report for which the judge answered something other than MALICIOUS.
\<close>

theorem safe_verdict_iff:
  "verdict_of (AnalyzeFile ustr reportDir P fileName k) = Some SAFE \<longleftrightarrow>
     (\<exists>localPath result v.
        p_download P fileName k = Some localPath \<and>
        p_extract P localPath (quarantine_path ustr k) = None \<and>
        static_checks_pass P (quarantine_path ustr k) \<and>
        p_detonate P (quarantine_path ustr k) = Some result \<and>
        \<not> p_write_report P result (reportDir @ ''/'' @ ustr k) \<and>
        p_ask_logs P (reportDir @ ''/'' @ ustr k) = Inr v \<and> v \<noteq> ''MALICIOUS'')"
  by (rule safe_iff)


text \<open>A pipeline whose stages all pass, given the judge's answer; and one step of it replaced.\<close>

definition passing_pipeline :: "string \<Rightarrow> pipeline" where
  "passing_pipeline v = \<lparr>p_download = (\<lambda>_ _. Some ''/tmp/quarantine/id/a''), p_extract = (\<lambda>_ _. None),
     p_audit = (\<lambda>_. False), p_scan = (\<lambda>_. Inr True), p_sast = (\<lambda>_. Inr []),
     p_ask_sast = (\<lambda>_ _. (SastSafe, None)),
     p_detonate = (\<lambda>_. Some \<lparr>er_stdout = [], er_stderr = [], er_behavior = empty_report\<rparr>),
     p_write_report = (\<lambda>_ _. False), p_ask_logs = (\<lambda>_. Inr v)\<rparr>"


text \<open>
  On every verdict the workspace is cleaned: once the archive was fetched, the archive and the
  extraction directory are removed, and the report too once the detonation ran. The one way to
  leave the files behind is the process ending on a failed static analysis.
\<close>

theorem workspace_cleaned:
  "AnalyzeFile ustr reportDir P fileName k = Verdict v e tr removed \<Longrightarrow>
     (\<forall>localPath. p_download P fileName k = Some localPath \<longrightarrow>
        localPath \<in> set removed \<and> quarantine_path ustr k \<in> set removed) \<and>
     (ReportStage \<in> set tr \<longrightarrow> reportDir @ ''/'' @ ustr k \<in> set removed)"
proof -
  assume a: "AnalyzeFile ustr reportDir P fileName k = Verdict v e tr removed"
  have stages: "ReportStage \<notin> set (snd (judge_findings P fs))" for fs
    by (induction fs) (auto simp: askLLMForSast_def Let_def split_beta split: option.splits)
  have "(case judge_findings P fs of (bad, judged) \<Rightarrow> g bad judged) =
        g (\<exists>f\<in>set fs. judged_malicious P f) (snd (judge_findings P fs))" for fs and g :: "bool \<Rightarrow> stage list \<Rightarrow> analysis"
    using judge_findings_bad by (simp add: split_beta)
  then show ?thesis
    using a stages unfolding AnalyzeFile_def Let_def
    by (auto split: option.splits sum.splits bool.splits if_splits)
qed

theorem workspace_cleaned_witness:
  "\<exists>v e tr removed. AnalyzeFile (\<lambda>_. ''id'') ''/r'' (passing_pipeline ''SAFE'') ''a'' 7 = Verdict v e tr removed \<and>
     quarantine_path (\<lambda>_. ''id'') 7 \<in> set removed"
proof -
  obtain v e tr removed where
    a: "AnalyzeFile (\<lambda>_. ''id'') ''/r'' (passing_pipeline ''SAFE'') ''a'' 7 = Verdict v e tr removed"
    by (simp add: AnalyzeFile_def passing_pipeline_def Let_def)
  moreover have "p_download (passing_pipeline ''SAFE'') ''a'' 7 = Some ''/tmp/quarantine/id/a''"
    by (simp add: passing_pipeline_def)
  ultimately show ?thesis using workspace_cleaned[OF a] by blast
qed

lemma failure_has_error:
  "AnalyzeFile ustr reportDir P fileName k = Verdict v None tr removed \<Longrightarrow> v \<noteq> FAILURE"
  unfolding AnalyzeFile_def Let_def
  by (auto split: option.splits sum.splits bool.splits if_splits prod.splits)

lemma safe_has_no_error:
  "AnalyzeFile ustr reportDir P fileName k = Verdict SAFE e tr removed \<Longrightarrow> e = None"
  unfolding AnalyzeFile_def Let_def
  by (auto split: option.splits sum.splits bool.splits if_splits prod.splits)

end
