(* ===== verification/Listener.thy ===== *)
theory Listener
  imports Orchestrator
begin

text \<open>
  \<open>internal/analyzer/message/listener.go\<close> and \<open>orchestrator/filestore.go\<close> (\<open>Move\<close>): what happens
  to a message of the analyzer queue. The calls to the object store and to the broker are
  recorded in the order they are made; \<open>ans\<close> says which of them succeed.
\<close>

record function_message =
  fm_function :: uuid
  fm_bucket :: string
  fm_path :: string

datatype ext_call =
    CopyObject string string string
  | RemoveObject string string
  | PublishBuild uuid string

datatype listen_error =
    BadPayload | StatusNotWritten store_error | AnalysisError analysis_error | MoveFailed | PublishFailed

definition Move :: "(ext_call \<Rightarrow> bool) \<Rightarrow> string \<Rightarrow> string \<Rightarrow> string \<Rightarrow> bool \<times> ext_call list" where
  "Move ans bucketName fileName destBucket =
     (let copy = CopyObject bucketName fileName destBucket; remove = RemoveObject bucketName fileName in
      if \<not> ans copy then (False, [copy])
      else if \<not> ans remove then (False, [copy, remove])
      else (True, [copy, remove]))"

definition updateFunctionStatus :: "uuid \<Rightarrow> verdict \<Rightarrow> unit stmt" where
  "updateFunctionStatus k v =
     update_function_status k (if v = MALICIOUS then FnDetected else FnVerified)"

definition onLand :: "uuid \<Rightarrow> unit stmt" where
  "onLand k = update_function_status k FnScanning"

text \<open>\<open>None\<close> as the outcome: the process ended inside the analysis.\<close>

record processed =
  pr_outcome :: "listen_error option option"
  pr_calls :: "ext_call list"
  pr_db :: pg

definition processMessage ::
  "(string \<Rightarrow> function_message option) \<Rightarrow> (ext_call \<Rightarrow> bool) \<Rightarrow> (string \<Rightarrow> uuid \<Rightarrow> analysis) \<Rightarrow>
   string \<Rightarrow> string \<Rightarrow> string \<Rightarrow> pg \<Rightarrow> processed" where
  "processMessage dec ans analyze quarantine functions payload s =
     (case dec payload of
        None \<Rightarrow> \<lparr>pr_outcome = Some (Some BadPayload), pr_calls = [], pr_db = s\<rparr>
      | Some m \<Rightarrow>
          (case onLand (fm_function m) s of
             (Inl e, s1) \<Rightarrow> \<lparr>pr_outcome = Some (Some (StatusNotWritten e)), pr_calls = [], pr_db = s1\<rparr>
           | (Inr _, s1) \<Rightarrow>
               (case analyze (fm_path m) (fm_function m) of
                  Fatal _ \<Rightarrow> \<lparr>pr_outcome = None, pr_calls = [], pr_db = s1\<rparr>
                | Verdict v err _ _ \<Rightarrow>
                    (case updateFunctionStatus (fm_function m) v s1 of
                       (Inl e, s2) \<Rightarrow> \<lparr>pr_outcome = Some (Some (StatusNotWritten e)), pr_calls = [], pr_db = s2\<rparr>
                     | (Inr _, s2) \<Rightarrow>
                         (case err of
                            Some e \<Rightarrow> \<lparr>pr_outcome = Some (Some (AnalysisError e)), pr_calls = [], pr_db = s2\<rparr>
                          | None \<Rightarrow>
                              if v = MALICIOUS then \<lparr>pr_outcome = Some None, pr_calls = [], pr_db = s2\<rparr>
                              else
                                (case Move ans quarantine (fm_path m) functions of
                                   (False, calls) \<Rightarrow> \<lparr>pr_outcome = Some (Some MoveFailed), pr_calls = calls, pr_db = s2\<rparr>
                                 | (True, calls) \<Rightarrow>
                                     let pub = PublishBuild (fm_function m) (fm_path m) in
                                     \<lparr>pr_outcome = Some (if ans pub then None else Some PublishFailed),
                                      pr_calls = calls @ [pub], pr_db = s2\<rparr>))))))"

section \<open>Only safe functions are built\<close>

text \<open>
  A build is requested only for a function the analyzer called SAFE, whose VERIFIED status
  was written, and after its archive was copied to the functions bucket and removed from
  quarantine.
\<close>

theorem build_only_if_safe:
  assumes "PublishBuild k path \<in> set (pr_calls (processMessage dec ans (AnalyzeFile ustr reportDir P)
             quarantine functions payload s))"
  shows "\<exists>m. dec payload = Some m \<and> k = fm_function m \<and> path = fm_path m \<and>
     verdict_of (AnalyzeFile ustr reportDir P path k) = Some SAFE \<and>
     ans (CopyObject quarantine path functions) \<and> ans (RemoveObject quarantine path)"
  using assms failure_has_error[of ustr reportDir P]
  by (auto simp: processMessage_def Move_def Let_def verdict_of_def
      split: option.splits prod.splits sum.splits analysis.splits if_splits)
     (metis verdict.exhaust)+

theorem build_only_if_safe_witness:
  "verdict_of (AnalyzeFile (\<lambda>_. ''id'') ''/r'' (passing_pipeline ''SAFE'') ''a'' 7) = Some SAFE"
proof -
  let ?m = "\<lparr>fm_function = 7, fm_bucket = ''oblak-quarantine'', fm_path = ''a''\<rparr>"
  have "PublishBuild 7 ''a'' \<in> set (pr_calls (processMessage (\<lambda>_. Some ?m) (\<lambda>_. True)
     (AnalyzeFile (\<lambda>_. ''id'') ''/r'' (passing_pipeline ''SAFE'')) ''q'' ''f'' ''payload''
     (sample_pg FnQuarantined InvPending)))"
    by (simp add: processMessage_def onLand_def updateFunctionStatus_def AnalyzeFile_def
        passing_pipeline_def Move_def Let_def update_function_status_def ignore_count_def
        update_functions_where_def db_exec_def sample_pg_def)
  from build_only_if_safe[OF this] show ?thesis by simp
qed

section \<open>What the status says after a failed analysis\<close>

lemma processed_status:
  assumes "pg_outcomes s = []" and "dec payload = Some m"
    and "analyze (fm_path m) (fm_function m) = Verdict v err tr removed"
  shows "fn_status_of (pr_db (processMessage dec ans analyze quarantine functions payload s)) =
     (\<lambda>k. if k = fm_function m
          then map_option (\<lambda>_. if v = MALICIOUS then FnDetected else FnVerified) (fn_status_of s k)
          else fn_status_of s k)"
proof -
  obtain s1 where s1: "update_function_status (fm_function m) FnScanning s = (Inr (), s1)" "pg_outcomes s1 = []"
    using assms(1)
    by (simp add: update_function_status_def ignore_count_def update_functions_where_def db_exec_def)
  define b where "b = (if v = MALICIOUS then FnDetected else FnVerified)"
  obtain s2 where s2: "update_function_status (fm_function m) b s1 = (Inr (), s2)"
    using s1(2)
    by (simp add: update_function_status_def ignore_count_def update_functions_where_def db_exec_def)
  have "pr_db (processMessage dec ans analyze quarantine functions payload s) = s2"
    using assms(2,3) s1(1) s2
    by (auto simp: processMessage_def onLand_def updateFunctionStatus_def b_def[symmetric] Let_def
        split: option.splits prod.splits bool.splits)
  then show ?thesis
    unfolding b_def[symmetric]
    using fn_update_ok[OF s1(1)] fn_update_ok[OF s2]
    by (auto simp: fun_eq_iff option.map_comp o_def)
qed

text \<open>
  An analysis that ends in FAILURE, an infected archive included, leaves the function
  VERIFIED in the database, although the archive stays in quarantine and no build is requested.
\<close>

theorem failed_analysis_marked_verified:
  assumes "pg_outcomes s = []" and "dec payload = Some m"
    and "fn_status_of s (fm_function m) \<noteq> None"
    and "p_download P (fm_path m) (fm_function m) = Some localPath"
    and "p_extract P localPath (quarantine_path ustr (fm_function m)) = None"
    and "\<not> p_audit P (quarantine_path ustr (fm_function m))"
    and "p_scan P (quarantine_path ustr (fm_function m)) = Inr False"
  shows "fn_status_of (pr_db (processMessage dec ans (AnalyzeFile ustr reportDir P) quarantine functions payload s))
           (fm_function m) = Some FnVerified \<and>
         pr_calls (processMessage dec ans (AnalyzeFile ustr reportDir P) quarantine functions payload s) = []"
proof -
  have a: "AnalyzeFile ustr reportDir P (fm_path m) (fm_function m) =
      Verdict FAILURE (Some FileUnsafe) [DownloadStage, ExtractStage, AuditStage, ScanStage]
        [quarantine_path ustr (fm_function m), localPath]"
    using assms(4-7) by (simp add: AnalyzeFile_def Let_def)
  have "pr_calls (processMessage dec ans (AnalyzeFile ustr reportDir P) quarantine functions payload s) = []"
    using assms(2) a by (auto simp: processMessage_def split: prod.splits sum.splits)
  then show ?thesis
    using processed_status[of s dec payload m "AnalyzeFile ustr reportDir P" FAILURE, OF assms(1,2) a,
        of ans quarantine "functions"] assms(3)
    by (auto simp: fun_eq_iff)
qed

definition infected_pipeline :: pipeline where
  "infected_pipeline = (passing_pipeline ''SAFE'')\<lparr>p_scan := (\<lambda>_. Inr False)\<rparr>"

theorem failed_analysis_marked_verified_witness:
  "fn_status_of (pr_db (processMessage
      (\<lambda>_. Some \<lparr>fm_function = 7, fm_bucket = ''oblak-quarantine'', fm_path = ''a''\<rparr>) (\<lambda>_. True)
      (AnalyzeFile (\<lambda>_. ''id'') ''/r'' infected_pipeline) ''q'' ''f'' ''payload''
      (sample_pg FnQuarantined InvPending))) 7 = Some FnVerified"
proof -
  let ?m = "\<lparr>fm_function = 7, fm_bucket = ''oblak-quarantine'', fm_path = ''a''\<rparr>"
  have "fn_status_of (sample_pg FnQuarantined InvPending) (fm_function ?m) \<noteq> None"
    by (simp add: sample_pg_facts)
  from failed_analysis_marked_verified[of _ "\<lambda>_. Some ?m" "''payload''" ?m infected_pipeline
      "''/tmp/quarantine/id/a''" "\<lambda>_. ''id''", OF sample_pg_facts(2) refl this]
  show ?thesis by (simp add: infected_pipeline_def passing_pipeline_def)
qed

text \<open>
  A MALICIOUS verdict marks the function DETECTED and has no other effect: the archive stays
  where it is and nothing is published.
\<close>

theorem malicious_contained:
  assumes "pg_outcomes s = []" and "dec payload = Some m"
    and "verdict_of (analyze (fm_path m) (fm_function m)) = Some MALICIOUS"
  shows "pr_calls (processMessage dec ans analyze quarantine functions payload s) = [] \<and>
         fn_status_of (pr_db (processMessage dec ans analyze quarantine functions payload s)) =
           (\<lambda>k. if k = fm_function m then map_option (\<lambda>_. FnDetected) (fn_status_of s k) else fn_status_of s k)"
proof -
  obtain err tr removed where a: "analyze (fm_path m) (fm_function m) = Verdict MALICIOUS err tr removed"
    using assms(3) by (auto simp: verdict_of_def split: analysis.splits)
  have "pr_calls (processMessage dec ans analyze quarantine functions payload s) = []"
    using assms(2) a by (auto simp: processMessage_def split: prod.splits sum.splits option.splits)
  then show ?thesis using processed_status[of s dec payload m analyze MALICIOUS, OF assms(1,2) a,
      of ans quarantine "functions"] by simp
qed

theorem malicious_contained_witness:
  "fn_status_of (pr_db (processMessage
      (\<lambda>_. Some \<lparr>fm_function = 7, fm_bucket = ''oblak-quarantine'', fm_path = ''a''\<rparr>) (\<lambda>_. True)
      (AnalyzeFile (\<lambda>_. ''id'') ''/r'' (passing_pipeline ''MALICIOUS'')) ''q'' ''f'' ''payload''
      (sample_pg FnQuarantined InvPending))) 7 = Some FnDetected"
proof -
  let ?m = "\<lparr>fm_function = 7, fm_bucket = ''oblak-quarantine'', fm_path = ''a''\<rparr>"
  have "verdict_of (AnalyzeFile (\<lambda>_. ''id'') ''/r'' (passing_pipeline ''MALICIOUS'')
      (fm_path ?m) (fm_function ?m)) = Some MALICIOUS"
    by (simp add: AnalyzeFile_def passing_pipeline_def verdict_of_def Let_def)
  from malicious_contained[of _ "\<lambda>_. Some ?m" "''payload''" ?m
      "AnalyzeFile (\<lambda>_. ''id'') ''/r'' (passing_pipeline ''MALICIOUS'')", OF sample_pg_facts(2) refl this]
  show ?thesis by (simp add: sample_pg_facts)
qed

end
