(* ===== verification/Events.thy ===== *)
theory Events
  imports ArchiveCheck Listener
begin

text \<open>
  The server's event buses (\<open>internal/server/events\<close>), the two workers of
  \<open>internal/server/extractor/service.go\<close> that move an upload on, and the message they publish for the
  analyzer (\<open>internal/server/analyzerpublisher\<close>, \<open>filestore/bucket.go\<close>). A subscriber's channel is
  the list of the events waiting in it.
\<close>

section \<open>Bounded channels\<close>

text \<open>What the bus needs of a channel: it is a queue that refuses an event when it is full.\<close>

locale bounded_queue =
  fixes contents :: "'q \<Rightarrow> 'e list" and send :: "'e \<Rightarrow> 'q \<Rightarrow> 'q" and recv :: "'q \<Rightarrow> ('e \<times> 'q) option"
    and capacity :: nat
  assumes send_contents:
      "contents (send e q) = (if length (contents q) < capacity then contents q @ [e] else contents q)"
    and recv_contents:
      "recv q = None \<longleftrightarrow> contents q = []"
      "recv q = Some (e, q') \<Longrightarrow> contents q = e # contents q'"
begin

lemma send_bounded: "length (contents q) \<le> capacity \<Longrightarrow> length (contents (send e q)) \<le> capacity"
  by (simp add: send_contents)

lemma recv_bounded:
  "length (contents q) \<le> capacity \<Longrightarrow> recv q = Some (e, q') \<Longrightarrow> length (contents q') \<le> capacity"
  using recv_contents(2)[of q e q'] by simp

text \<open>What was received so far and what still waits, in order, is a selection of what was sent.\<close>

lemma send_selection: "subseq (got @ contents q) sent \<Longrightarrow> subseq (got @ contents (send e q)) (sent @ [e])"
  by (auto simp: send_contents list_emb_append_mono subseq_append simp flip: append_assoc)

lemma recv_selection:
  "subseq (got @ contents q) sent \<Longrightarrow> recv q = Some (e, q') \<Longrightarrow> subseq ((got @ [e]) @ contents q') sent"
  using recv_contents(2)[of q e q'] by simp

lemma send_all_room:
  "length (contents q) + length es \<le> capacity \<Longrightarrow> contents (foldl (\<lambda>q e. send e q) q es) = contents q @ es"
proof (induction es arbitrary: q)
  case (Cons e es)
  then show ?case using send_contents[of e q] by simp
qed simp

end

definition BufferSizePerSubscription :: nat where
  "BufferSizePerSubscription = 100"

text \<open>A non-blocking send on a buffered channel, and a receive that does not wait.\<close>

definition chan_send :: "'e \<Rightarrow> 'e list \<Rightarrow> 'e list" where
  "chan_send e ch = (if length ch < BufferSizePerSubscription then ch @ [e] else ch)"

fun chan_recv :: "'e list \<Rightarrow> ('e \<times> 'e list) option" where
  "chan_recv [] = None"
| "chan_recv (e # ch) = Some (e, ch)"

interpretation sub_chan: bounded_queue id chan_send chan_recv BufferSizePerSubscription
proof
  fix q :: "'a list"
  show "chan_recv q = None \<longleftrightarrow> id q = []" by (cases q) simp_all
  fix e q' assume "chan_recv q = Some (e, q')"
  then show "id q = e # id q'" by (cases q) simp_all
qed (simp add: chan_send_def)

section \<open>bus.go\<close>

type_synonym 'e bus = "'e list list"

definition NewBus :: "'e bus" where
  "NewBus = []"

definition Subscribe :: "'e bus \<Rightarrow> 'e bus" where
  "Subscribe b = b @ [[]]"

definition Publish :: "'e \<Rightarrow> 'e bus \<Rightarrow> 'e bus" where
  "Publish event b = map (chan_send event) b"

text \<open>
  Every interleaving of the three operations (the lock of the bus makes each one step), with the
  events each subscriber was sent since it subscribed and the events it has received.
\<close>

record 'e bus_state =
  bs_bus :: "'e bus"
  bs_sent :: "'e list list"
  bs_got :: "'e list list"

inductive bus_reachable :: "'e bus_state \<Rightarrow> bool" where
  start: "bus_reachable \<lparr>bs_bus = NewBus, bs_sent = [], bs_got = []\<rparr>"
| subscribe: "bus_reachable st \<Longrightarrow>
    bus_reachable \<lparr>bs_bus = Subscribe (bs_bus st), bs_sent = bs_sent st @ [[]], bs_got = bs_got st @ [[]]\<rparr>"
| publish: "bus_reachable st \<Longrightarrow>
    bus_reachable (st\<lparr>bs_bus := Publish e (bs_bus st), bs_sent := map (\<lambda>es. es @ [e]) (bs_sent st)\<rparr>)"
| receive: "bus_reachable st \<Longrightarrow> i < length (bs_bus st) \<Longrightarrow> chan_recv (bs_bus st ! i) = Some (e, ch) \<Longrightarrow>
    bus_reachable (st\<lparr>bs_bus := (bs_bus st)[i := ch], bs_got := (bs_got st)[i := bs_got st ! i @ [e]]\<rparr>)"

definition sub_inv :: "'e list \<Rightarrow> 'e list \<Rightarrow> 'e list \<Rightarrow> bool" where
  "sub_inv ch sent got \<longleftrightarrow> length ch \<le> BufferSizePerSubscription \<and> subseq (got @ ch) sent"

definition bus_inv :: "'e bus_state \<Rightarrow> bool" where
  "bus_inv st \<longleftrightarrow> length (bs_sent st) = length (bs_bus st) \<and> length (bs_got st) = length (bs_bus st) \<and>
     (\<forall>i<length (bs_bus st). sub_inv (bs_bus st ! i) (bs_sent st ! i) (bs_got st ! i))"

lemma sub_inv_send: "sub_inv ch sent got \<Longrightarrow> sub_inv (chan_send e ch) (sent @ [e]) got"
  using sub_chan.send_bounded[of ch e] sub_chan.send_selection[of got ch sent e] by (simp add: sub_inv_def)

lemma sub_inv_recv: "sub_inv ch sent got \<Longrightarrow> chan_recv ch = Some (e, ch') \<Longrightarrow> sub_inv ch' sent (got @ [e])"
  using sub_chan.recv_bounded[of ch e ch'] sub_chan.recv_selection[of got ch sent e ch'] by (simp add: sub_inv_def)

lemma bus_reachable_inv: "bus_reachable st \<Longrightarrow> bus_inv st"
proof (induction rule: bus_reachable.induct)
  case start
  then show ?case by (simp add: bus_inv_def NewBus_def)
next
  case (subscribe st)
  then show ?case by (auto simp: bus_inv_def Subscribe_def nth_append sub_inv_def less_Suc_eq)
next
  case (publish st e)
  then show ?case by (simp add: bus_inv_def Publish_def sub_inv_send)
next
  case (receive st i e ch)
  then have "sub_inv (bs_bus st ! i) (bs_sent st ! i) (bs_got st ! i)" by (simp add: bus_inv_def)
  from sub_inv_recv[OF this receive.hyps(3)] receive.IH show ?case
    using receive.hyps(2) unfolding bus_inv_def
    by (intro conjI allI impI) (auto simp: nth_list_update)
qed


lemma bus_one_subscriber:
  "bus_reachable \<lparr>bs_bus = [[e]], bs_sent = [[e]], bs_got = [[]]\<rparr>"
  using bus_reachable.publish[OF bus_reachable.subscribe[OF bus_reachable.start], of e]
  by (simp add: NewBus_def Subscribe_def Publish_def chan_send_def BufferSizePerSubscription_def)


text \<open>
  A burst of uploads does not lose events silently as long as the subscriber is less than its
  buffer behind: from a channel with room for all of them, publishing a list of events leaves
  exactly those events waiting, in order.
\<close>

theorem publish_burst_kept:
  assumes "length ch + length es \<le> 100"
  shows "foldl (\<lambda>b e. Publish e b) [ch] es = [ch @ es]"
proof -
  have "foldl (\<lambda>b e. Publish e b) [ch] es = [foldl (\<lambda>q e. chan_send e q) ch es]"
    by (induction es arbitrary: ch) (simp_all add: Publish_def)
  then show ?thesis
    using sub_chan.send_all_room[of ch es] assms by (simp add: BufferSizePerSubscription_def)
qed

theorem publish_burst_kept_witness:
  "foldl (\<lambda>b e. Publish e b) [[1 :: nat]] [2, 3] = [[1, 2, 3]]"
  using publish_burst_kept[of "[1 :: nat]" "[2, 3]"] by simp

section \<open>service.go\<close>

text \<open>\<open>events.QuarantineEvent\<close> and \<open>events.ExtractionEvent\<close> have the same fields.\<close>

record event =
  ev_function :: uuid
  ev_user :: uuid
  ev_bucket :: string
  ev_path :: string
  ev_time :: timestamp

type_synonym archives = "string \<Rightarrow> string \<Rightarrow> tar_header option list option option"

text \<open>
  The body of the quarantine worker's loop; \<open>None\<close> is its \<open>return\<close>, which ends the goroutine.
\<close>

definition quarantine_step :: "archives \<Rightarrow> timestamp \<Rightarrow> event \<Rightarrow> pg \<Rightarrow> event option \<times> pg" where
  "quarantine_step getObject now e s =
     (let err = ExtractFromQuarantine getObject (ev_bucket e) (ev_path e);
          functionStatus = (if err \<noteq> None then FnFailed else FnExtracted)
      in case update_function_status (ev_function e) functionStatus s of
           (Inl _, s') \<Rightarrow> (None, s')
         | (Inr _, s') \<Rightarrow> (Some (e\<lparr>ev_time := now\<rparr>), s'))"

fun quarantine_worker :: "archives \<Rightarrow> timestamp \<Rightarrow> event list \<Rightarrow> pg \<Rightarrow> event list \<times> pg" where
  "quarantine_worker getObject now [] s = ([], s)"
| "quarantine_worker getObject now (e # es) s =
     (case quarantine_step getObject now e s of
        (None, s') \<Rightarrow> ([], s')
      | (Some x, s') \<Rightarrow> (case quarantine_worker getObject now es s' of (xs, s'') \<Rightarrow> (x # xs, s'')))"

text \<open>
  \<open>analyzerpublisher\<close>: the message of an event, in the quarantine bucket; \<open>publish\<close> is the
  broker's answer, and an error of it is \<open>log.Fatalf\<close>: the server process ends.
\<close>

definition CreateMessage :: "string \<Rightarrow> uuid \<Rightarrow> string \<Rightarrow> function_message" where
  "CreateMessage quarantineBucket k path =
     \<lparr>fm_function = k, fm_bucket = quarantineBucket, fm_path = path\<rparr>"

fun extraction_worker ::
  "string \<Rightarrow> (function_message \<Rightarrow> bool) \<Rightarrow> event list \<Rightarrow> function_message list \<times> bool" where
  "extraction_worker bucket publish [] = ([], True)"
| "extraction_worker bucket publish (e # es) =
     (let m = CreateMessage bucket (ev_function e) (ev_path e) in
      if publish m then (case extraction_worker bucket publish es of (ms, alive) \<Rightarrow> (m # ms, alive))
      else ([], False))"

lemma quarantine_step_up:
  assumes "pg_outcomes s = []"
  obtains s' where "quarantine_step getObject now e s = (Some (e\<lparr>ev_time := now\<rparr>), s')" "pg_outcomes s' = []"
    "fn_status_of s' = (\<lambda>k. if k = ev_function e
       then map_option (\<lambda>_. if ExtractFromQuarantine getObject (ev_bucket e) (ev_path e) = None
                            then FnExtracted else FnFailed) (fn_status_of s (ev_function e))
       else fn_status_of s k)"
proof -
  define st where "st = (if ExtractFromQuarantine getObject (ev_bucket e) (ev_path e) = None then FnExtracted else FnFailed)"
  obtain s' where upd: "update_function_status (ev_function e) st s = (Inr (), s')" and up: "pg_outcomes s' = []"
    using assms by (simp add: update_function_status_def ignore_count_def update_functions_where_def db_exec_def)
  have "quarantine_step getObject now e s = (Some (e\<lparr>ev_time := now\<rparr>), s')"
    using upd by (auto simp: quarantine_step_def st_def Let_def split: if_splits)
  then show ?thesis using that up fn_update_ok[OF upd] unfolding st_def by blast
qed

text \<open>
  With the database up, the worker passes every upload on to the analyzer in order, an upload
  whose archive it rejected included: the rejection is only the status FAILED, which the analyzer
  overwrites.
\<close>

theorem rejected_upload_still_forwarded:
  assumes "pg_outcomes s = []"
  shows "fst (quarantine_worker getObject now es s) = map (\<lambda>e. e\<lparr>ev_time := now\<rparr>) es"
  using assms
proof (induction es arbitrary: s)
  case (Cons e es)
  obtain s' where "quarantine_step getObject now e s = (Some (e\<lparr>ev_time := now\<rparr>), s')" "pg_outcomes s' = []"
    using quarantine_step_up[OF Cons.prems] by metis
  then show ?case using Cons.IH[of s'] by (simp add: split_beta)
qed simp

theorem rejected_upload_still_forwarded_witness:
  "fst (quarantine_worker (\<lambda>_ _. Some None) 5
     [\<lparr>ev_function = 7, ev_user = 1, ev_bucket = ''q'', ev_path = ''a'', ev_time = 0\<rparr>]
     (sample_pg FnQuarantined InvPending)) =
   [\<lparr>ev_function = 7, ev_user = 1, ev_bucket = ''q'', ev_path = ''a'', ev_time = 5\<rparr>]"
  using rejected_upload_still_forwarded[OF sample_pg_facts(2), of "\<lambda>_ _. Some None" 5
      "[\<lparr>ev_function = 7, ev_user = 1, ev_bucket = ''q'', ev_path = ''a'', ev_time = 0\<rparr>]"] by simp

text \<open>
  One failed status update ends the worker: no upload after it is checked, marked or passed on,
  however many arrive and however healthy the database is by then.
\<close>

theorem failed_update_stops_worker:
  assumes "pg_outcomes s = [False]"
  shows "quarantine_worker getObject now (e # es) s = ([], s\<lparr>pg_outcomes := []\<rparr>)"
  using assms
  by (simp add: quarantine_step_def update_function_status_def ignore_count_def update_functions_where_def
      db_exec_def Let_def)

theorem failed_update_stops_worker_witness:
  "fst (quarantine_worker (\<lambda>_ _. Some (Some []))
     5 [\<lparr>ev_function = 7, ev_user = 1, ev_bucket = ''q'', ev_path = ''a'', ev_time = 0\<rparr>]
     ((sample_pg FnQuarantined InvPending)\<lparr>pg_outcomes := [False]\<rparr>)) = []"
  using failed_update_stops_worker[of "(sample_pg FnQuarantined InvPending)\<lparr>pg_outcomes := [False]\<rparr>"] by simp

end
