(* ===== verification/VmService.thy ===== *)
theory VmService
  imports Stores GoPath
begin

text \<open>
  The VM service's work on queue messages: \<open>internal/vm/service\<close> (\<open>Prepare\<close>, \<open>Execute\<close>) and
  \<open>internal/vm/queue/handler.go\<close> (decoding and validation of messages, the dead-letter
  publishers). The VM runners are arguments here (\<open>VmRunner\<close> models them), as are the message
  decoder (\<open>encoding/json\<close> with the UUID library's unmarshaller), the text form of a UUID and
  the broker's publish. \<open>msg.Ack()\<close> is the flag of the handlers' result.
\<close>

section \<open>Messages and errors\<close>

record build_message =
  bm_function :: uuid
  bm_code_object :: string

record execute_message =
  em_invocation :: uuid
  em_code_object :: string
  em_deps_object :: string
  em_payload :: string

datatype run_error = UserError | SystemError string

datatype service_error = StoreFailed store_error | RunFailed run_error

section \<open>EnvironmentPrepareService\<close>

definition drive_object_name :: "(uuid \<Rightarrow> string) \<Rightarrow> uuid \<Rightarrow> string" where
  "drive_object_name ustr fresh = ustr fresh @ ''-deps.ext4''"

definition generate_prepare_object_name :: "(uuid \<Rightarrow> string) \<Rightarrow> uuid \<Rightarrow> string" where
  "generate_prepare_object_name ustr k = ustr k @ ''_prepare.log''"

definition prepare ::
  "(uuid \<Rightarrow> string) \<Rightarrow> uuid \<Rightarrow> (string \<Rightarrow> string \<Rightarrow> string \<Rightarrow> run_error option) \<Rightarrow>
   build_message \<Rightarrow> pg \<Rightarrow> service_error option \<times> pg" where
  "prepare ustr fresh runner m s =
     (case update_function_status_if (bm_function m) FnVerified FnPreparingEnvironment s of
        (Inl e, s1) \<Rightarrow> (Some (StoreFailed e), s1)
      | (Inr False, s1) \<Rightarrow> (None, s1)
      | (Inr True, s1) \<Rightarrow>
          let drive = drive_object_name ustr fresh;
              objectName = generate_prepare_object_name ustr (bm_function m) in
          case runner (bm_code_object m) drive objectName of
            Some UserError \<Rightarrow> (None, snd (update_function_status (bm_function m) FnFailed s1))
          | Some (SystemError e) \<Rightarrow>
              (Some (RunFailed (SystemError e)), snd (update_function_status (bm_function m) FnVerified s1))
          | None \<Rightarrow>
              (case update_function_status_and_drive_path (bm_function m) FnReady drive s1 of
                 (Inl e, s2) \<Rightarrow> (Some (StoreFailed e), s2)
               | (Inr _, s2) \<Rightarrow> (None, s2)))"

section \<open>ExecutionService\<close>

definition generate_object_name :: "(uuid \<Rightarrow> string) \<Rightarrow> (timestamp \<Rightarrow> string) \<Rightarrow> uuid \<Rightarrow> timestamp \<Rightarrow> string" where
  "generate_object_name ustr fmt k t = ustr k @ ''_'' @ fmt t @ ''.log''"

definition execute ::
  "(uuid \<Rightarrow> string) \<Rightarrow> (timestamp \<Rightarrow> string) \<Rightarrow> timestamp \<Rightarrow> timestamp \<Rightarrow>
   (string \<Rightarrow> string \<Rightarrow> string \<Rightarrow> string \<Rightarrow> run_error option) \<Rightarrow>
   execute_message \<Rightarrow> pg \<Rightarrow> service_error option \<times> pg" where
  "execute ustr fmt beginTime endTime runner m s =
     (case update_invocation_status_if (em_invocation m) InvPending InvExecuting s of
        (Inl e, s1) \<Rightarrow> (Some (StoreFailed e), s1)
      | (Inr False, s1) \<Rightarrow> (None, s1)
      | (Inr True, s1) \<Rightarrow>
          let logs = generate_object_name ustr fmt (em_invocation m) beginTime in
          case runner (em_code_object m) (em_deps_object m) logs (em_payload m) of
            Some e \<Rightarrow> (Some (RunFailed e), snd (update_invocation_status (em_invocation m) InvPending s1))
          | None \<Rightarrow>
              (None, snd (update_invocation_status_log_end (em_invocation m) InvDone logs endTime s1)))"

section \<open>Message handlers\<close>

definition maxPayloadBytes :: nat where
  "maxPayloadBytes = 64 * 1024"

definition decode_payload :: "(string \<Rightarrow> 'm option) \<Rightarrow> string \<Rightarrow> 'm option" where
  "decode_payload dec payload = (if length payload > maxPayloadBytes then None else dec payload)"

datatype name_error = EmptyName | NameTooLong | NullByte | NameTraversal

fun has_dotdot_segment :: "string list \<Rightarrow> bool" where
  "has_dotdot_segment [] = False"
| "has_dotdot_segment (seg # segs) = (if seg = dotdot then True else has_dotdot_segment segs)"

definition validate_object_name :: "string \<Rightarrow> name_error option" where
  "validate_object_name name =
     (if name = [] then Some EmptyName
      else if length name > 1024 then Some NameTooLong
      else if char_of (0 :: nat) \<in> set name then Some NullByte
      else if has_dotdot_segment (str_split name ''/'') then Some NameTraversal
      else None)"

definition build_handle ::
  "(string \<Rightarrow> build_message option) \<Rightarrow> (build_message \<Rightarrow> pg \<Rightarrow> service_error option \<times> pg) \<Rightarrow>
   string \<Rightarrow> pg \<Rightarrow> service_error option \<times> bool \<times> pg" where
  "build_handle dec service payload s =
     (case decode_payload dec payload of
        None \<Rightarrow> (None, True, s)
      | Some m \<Rightarrow>
          (case validate_object_name (bm_code_object m) of
             Some _ \<Rightarrow> (None, True, s)
           | None \<Rightarrow> (case service m s of (e, s') \<Rightarrow> (e, False, s'))))"

definition execute_handle ::
  "(string \<Rightarrow> execute_message option) \<Rightarrow> (execute_message \<Rightarrow> pg \<Rightarrow> service_error option \<times> pg) \<Rightarrow>
   string \<Rightarrow> pg \<Rightarrow> service_error option \<times> bool \<times> pg" where
  "execute_handle dec service payload s =
     (case decode_payload dec payload of
        None \<Rightarrow> (None, True, s)
      | Some m \<Rightarrow>
          (case validate_object_name (em_code_object m) of
             Some _ \<Rightarrow> (None, True, s)
           | None \<Rightarrow>
               (case validate_object_name (em_deps_object m) of
                  Some _ \<Rightarrow> (None, True, s)
                | None \<Rightarrow> (case service m s of (e, s') \<Rightarrow> (e, False, s')))))"

section \<open>Dead-letter publishers\<close>

fun mark_functions_failed :: "(string \<Rightarrow> build_message option) \<Rightarrow> string list \<Rightarrow> pg \<Rightarrow> pg" where
  "mark_functions_failed dec [] s = s"
| "mark_functions_failed dec (payload # ps) s =
     mark_functions_failed dec ps
       (case decode_payload dec payload of
          None \<Rightarrow> s
        | Some m \<Rightarrow> snd (update_function_status (bm_function m) FnFailed s))"

definition status_fail_publish ::
  "(string \<Rightarrow> build_message option) \<Rightarrow> (string \<Rightarrow> string list \<Rightarrow> 'e option) \<Rightarrow>
   string \<Rightarrow> string list \<Rightarrow> pg \<Rightarrow> 'e option \<times> pg" where
  "status_fail_publish dec base topic payloads s =
     (let s' = mark_functions_failed dec payloads s in (base topic payloads, s'))"

fun mark_invocations_failed :: "(string \<Rightarrow> execute_message option) \<Rightarrow> string list \<Rightarrow> pg \<Rightarrow> pg" where
  "mark_invocations_failed dec [] s = s"
| "mark_invocations_failed dec (payload # ps) s =
     mark_invocations_failed dec ps
       (case decode_payload dec payload of
          None \<Rightarrow> s
        | Some m \<Rightarrow> snd (update_invocation_status (em_invocation m) InvFailed s))"

definition execute_status_fail_publish ::
  "(string \<Rightarrow> execute_message option) \<Rightarrow> (string \<Rightarrow> string list \<Rightarrow> 'e option) \<Rightarrow>
   string \<Rightarrow> string list \<Rightarrow> pg \<Rightarrow> 'e option \<times> pg" where
  "execute_status_fail_publish dec base topic payloads s =
     (let s' = mark_invocations_failed dec payloads s in (base topic payloads, s'))"

section \<open>Object names stay below their directory\<close>

lemma has_dotdot_segment_iff: "has_dotdot_segment segs \<longleftrightarrow> dotdot \<in> set segs"
  by (induction segs) auto

lemma validate_object_name_ok:
  "validate_object_name name = None \<longleftrightarrow>
     name \<noteq> [] \<and> length name \<le> 1024 \<and> char_of (0 :: nat) \<notin> set name \<and> dotdot \<notin> set (path_segments name)"
  by (auto simp: validate_object_name_def has_dotdot_segment_iff str_split_byte path_segments_def)

section \<open>Branches of the services\<close>

lemma update_fn_status_up [store_simps]:
  "pg_outcomes s = [] \<Longrightarrow> update_function_status k st s =
     (Inr (), s\<lparr>pg_functions := map (\<lambda>f. if f_id f = k then f\<lparr>f_status := st\<rparr> else f) (pg_functions s)\<rparr>)"
  by (simp add: update_function_status_def ignore_count_def update_functions_where_def db_exec_def)

lemma update_fn_drive_up [store_simps]:
  "pg_outcomes s = [] \<Longrightarrow> update_function_status_and_drive_path k st p s =
     (Inr (), s\<lparr>pg_functions := map (\<lambda>f. if f_id f = k
        then f\<lparr>f_status := st, f_drive_path := Some p\<rparr> else f) (pg_functions s)\<rparr>)"
  by (simp add: update_function_status_and_drive_path_def ignore_count_def update_functions_where_def db_exec_def)

lemma update_inv_status_up [store_simps]:
  "pg_outcomes s = [] \<Longrightarrow> update_invocation_status k st s =
     (Inr (), s\<lparr>pg_invocations := map (\<lambda>i. if i_id i = k then i\<lparr>i_status := st\<rparr> else i) (pg_invocations s)\<rparr>)"
  by (simp add: update_invocation_status_def ignore_count_def update_invocations_where_def db_exec_def)

lemma update_fn_if_up:
  assumes "pg_wf s" and "pg_outcomes s = []"
  shows "\<exists>s'. update_function_status_if k a b s = (Inr (fn_status_of s k = Some a), s') \<and>
     pg_outcomes s' = [] \<and> pg_wf s' \<and>
     fn_status_of s' = (if fn_status_of s k = Some a then (fn_status_of s)(k \<mapsto> b) else fn_status_of s)"
proof -
  obtain t s' where upd: "update_function_status_if k a b s = (Inr t, s')" and "pg_outcomes s' = []"
    using assms(2) by (auto simp: update_function_status_if_def one_row_def update_functions_where_def db_exec_def)
  moreover have "pg_wf s'" using wf_update_statements(2)[OF assms(1), of k a b] upd by simp
  ultimately show ?thesis using fn_update_if_result[OF assms(1) upd] by auto
qed

lemma update_inv_if_up:
  assumes "pg_wf s" and "pg_outcomes s = []"
  shows "\<exists>s'. update_invocation_status_if k a b s = (Inr (inv_status_of s k = Some a), s') \<and>
     pg_outcomes s' = [] \<and> pg_wf s' \<and>
     inv_status_of s' = (if inv_status_of s k = Some a then (inv_status_of s)(k \<mapsto> b) else inv_status_of s)"
proof -
  obtain t s' where upd: "update_invocation_status_if k a b s = (Inr t, s')" and "pg_outcomes s' = []"
    using assms(2) by (auto simp: update_invocation_status_if_def one_row_def update_invocations_where_def db_exec_def)
  moreover have "pg_wf s'" using wf_update_statements(5)[OF assms(1), of k a b] upd by simp
  ultimately show ?thesis using inv_update_if_result[OF assms(1) upd] by auto
qed

lemmas prepare_cases = prepare_def[unfolded Let_def]
lemmas execute_cases = execute_def[unfolded Let_def]

lemma prepare_unclaimed:
  assumes "pg_wf s" and "fn_status_of s (bm_function m) \<noteq> Some FnVerified"
  shows "fn_status_of (snd (prepare ustr fresh runner m s)) = fn_status_of s"
proof (cases "update_function_status_if (bm_function m) FnVerified FnPreparingEnvironment s")
  case (Pair r s1)
  with fn_store.no_claim_elsewhere[OF assms, of FnPreparingEnvironment] have "r \<noteq> Inr True" by simp
  then show ?thesis
    using Pair assms(1) fn_store.update_if_false fn_store.update_if_err
    by (cases r) (auto simp: prepare_def)
qed

lemma execute_unclaimed:
  assumes "pg_wf s" and "inv_status_of s (em_invocation m) \<noteq> Some InvPending"
  shows "inv_status_of (snd (execute ustr fmt t1 t2 runner m s)) = inv_status_of s"
proof (cases "update_invocation_status_if (em_invocation m) InvPending InvExecuting s")
  case (Pair r s1)
  with inv_store.no_claim_elsewhere[OF assms, of InvExecuting] have "r \<noteq> Inr True" by simp
  then show ?thesis
    using Pair assms(1) inv_store.update_if_false inv_store.update_if_err
    by (cases r) (auto simp: execute_def)
qed

text \<open>The status a claimed function or invocation ends in.\<close>

fun prepared_status :: "run_error option \<Rightarrow> fn_status" where
  "prepared_status None = FnReady"
| "prepared_status (Some UserError) = FnFailed"
| "prepared_status (Some (SystemError _)) = FnVerified"

fun executed_status :: "run_error option \<Rightarrow> inv_status" where
  "executed_status None = InvDone"
| "executed_status (Some _) = InvPending"

lemma prepare_claimed:
  assumes "pg_wf s" and "pg_outcomes s = []" and "fn_status_of s (bm_function m) = Some FnVerified"
  obtains s1 where "update_function_status_if (bm_function m) FnVerified FnPreparingEnvironment s = (Inr True, s1)"
    "pg_outcomes s1 = []" "pg_wf s1"
    "fn_status_of s1 = (fn_status_of s)(bm_function m \<mapsto> FnPreparingEnvironment)"
  using update_fn_if_up[OF assms(1,2), of "bm_function m" FnVerified FnPreparingEnvironment] assms(3) by auto

lemma execute_claimed:
  assumes "pg_wf s" and "pg_outcomes s = []" and "inv_status_of s (em_invocation m) = Some InvPending"
  obtains s1 where "update_invocation_status_if (em_invocation m) InvPending InvExecuting s = (Inr True, s1)"
    "pg_outcomes s1 = []" "pg_wf s1"
    "inv_status_of s1 = (inv_status_of s)(em_invocation m \<mapsto> InvExecuting)"
  using update_inv_if_up[OF assms(1,2), of "em_invocation m" InvPending InvExecuting] assms(3) by auto

lemma update_fn_up:
  assumes "pg_outcomes s = []"
  obtains s' where "update_function_status k b s = (Inr (), s')" "pg_outcomes s' = []"
  using assms by (simp add: update_fn_status_up)

lemma update_drive_up:
  assumes "pg_outcomes s = []"
  obtains s' where "update_function_status_and_drive_path k b p s = (Inr (), s')" "pg_outcomes s' = []"
  using assms by (simp add: update_fn_drive_up)

lemma update_inv_up:
  assumes "pg_outcomes s = []"
  obtains s' where "update_invocation_status k b s = (Inr (), s')" "pg_outcomes s' = []"
  using assms by (simp add: update_inv_status_up)

lemma update_log_end_up:
  assumes "pg_outcomes s = []"
  obtains s' where "update_invocation_status_log_end k b p t s = (Inr (), s')" "pg_outcomes s' = []"
  using assms
  by (simp add: update_invocation_status_log_end_def ignore_count_def update_invocations_where_def db_exec_def)

lemma prepare_not_verified:
  assumes "pg_wf s" and "pg_outcomes s = []" and "fn_status_of s (bm_function m) \<noteq> Some FnVerified"
  shows "fst (prepare ustr fresh runner m s) = None"
    and "fn_status_of (snd (prepare ustr fresh runner m s)) = fn_status_of s"
proof -
  show "fst (prepare ustr fresh runner m s) = None"
    using update_fn_if_up[OF assms(1,2), of "bm_function m" FnVerified FnPreparingEnvironment] assms(3)
    by (auto simp: prepare_def)
qed (rule prepare_unclaimed[OF assms(1,3)])

lemma prepare_verified:
  assumes "pg_wf s" and "pg_outcomes s = []" and "fn_status_of s (bm_function m) = Some FnVerified"
    and res: "runner (bm_code_object m) (drive_object_name ustr fresh)
                 (generate_prepare_object_name ustr (bm_function m)) = res"
  shows "fn_status_of (snd (prepare ustr fresh runner m s)) =
           (fn_status_of s)(bm_function m \<mapsto> prepared_status res)"
    and "fst (prepare ustr fresh runner m s) =
           (case res of Some (SystemError e) \<Rightarrow> Some (RunFailed (SystemError e)) | _ \<Rightarrow> None)"
proof -
  obtain s1 where s1: "update_function_status_if (bm_function m) FnVerified FnPreparingEnvironment s = (Inr True, s1)"
    "pg_outcomes s1 = []" "fn_status_of s1 = (fn_status_of s)(bm_function m \<mapsto> FnPreparingEnvironment)"
    using prepare_claimed[OF assms(1-3)] by blast
  obtain s2 s3 s4 where upds:
    "update_function_status (bm_function m) FnFailed s1 = (Inr (), s2)"
    "update_function_status (bm_function m) FnVerified s1 = (Inr (), s3)"
    "update_function_status_and_drive_path (bm_function m) FnReady (drive_object_name ustr fresh) s1 = (Inr (), s4)"
    using update_fn_up[OF s1(2)] update_drive_up[OF s1(2)] by metis
  show "fn_status_of (snd (prepare ustr fresh runner m s)) =
           (fn_status_of s)(bm_function m \<mapsto> prepared_status res)"
    using s1 upds fn_update_ok[OF upds(1)] fn_update_ok[OF upds(2)] fn_update_drive_ok[OF upds(3)] res
    by (cases res rule: prepared_status.cases) (auto simp: prepare_def fun_eq_iff)
  show "fst (prepare ustr fresh runner m s) =
           (case res of Some (SystemError e) \<Rightarrow> Some (RunFailed (SystemError e)) | _ \<Rightarrow> None)"
    using s1(1) upds res by (cases res rule: prepared_status.cases) (auto simp: prepare_def)
qed

text \<open>
  C10: With the database up, \<open>Prepare\<close> claims a function exactly when it is VERIFIED and then
  leaves it READY after a successful build, FAILED after a user error (acknowledged, no
  redelivery) and back in VERIFIED after any other error (returned to the queue middleware);
  a function in any other status is untouched and the message acknowledged.
\<close>

theorem prepare_outcome:
  assumes "pg_wf s" and "pg_outcomes s = []"
    and "runner (bm_code_object m) (drive_object_name ustr fresh)
           (generate_prepare_object_name ustr (bm_function m)) = res"
  shows "(fn_status_of s (bm_function m) = Some FnVerified \<longrightarrow>
            fn_status_of (snd (prepare ustr fresh runner m s)) =
              (fn_status_of s)(bm_function m \<mapsto> prepared_status res) \<and>
            fst (prepare ustr fresh runner m s) =
              (case res of Some (SystemError e) \<Rightarrow> Some (RunFailed (SystemError e)) | _ \<Rightarrow> None)) \<and>
         (fn_status_of s (bm_function m) \<noteq> Some FnVerified \<longrightarrow>
            fn_status_of (snd (prepare ustr fresh runner m s)) = fn_status_of s \<and>
            fst (prepare ustr fresh runner m s) = None)"
  using prepare_verified[OF assms(1,2), of m runner ustr fresh res]
    prepare_not_verified[OF assms(1,2), of m ustr fresh runner] assms(3) by blast

theorem prepare_outcome_witness:
  "fn_status_of (snd (prepare (\<lambda>_. ''id'') 3 (\<lambda>_ _ _. None) \<lparr>bm_function = 7, bm_code_object = ''a''\<rparr>
      (sample_pg FnVerified InvPending))) 7 = Some FnReady"
  using prepare_outcome[OF sample_pg_facts(1,2) refl,
      where m = "\<lparr>bm_function = 7, bm_code_object = ''a''\<rparr>" and runner = "\<lambda>_ _ _. None"]
  by (simp add: sample_pg_facts)

lemma execute_pending:
  assumes "pg_wf s" and "pg_outcomes s = []" and "inv_status_of s (em_invocation m) = Some InvPending"
    and res: "runner (em_code_object m) (em_deps_object m)
                (generate_object_name ustr fmt (em_invocation m) t1) (em_payload m) = res"
  shows "inv_status_of (snd (execute ustr fmt t1 t2 runner m s)) =
           (inv_status_of s)(em_invocation m \<mapsto> executed_status res)"
    and "fst (execute ustr fmt t1 t2 runner m s) = map_option RunFailed res"
proof -
  obtain s1 where s1: "update_invocation_status_if (em_invocation m) InvPending InvExecuting s = (Inr True, s1)"
    "pg_outcomes s1 = []" "inv_status_of s1 = (inv_status_of s)(em_invocation m \<mapsto> InvExecuting)"
    using execute_claimed[OF assms(1-3)] by blast
  obtain s2 s3 where upds:
    "update_invocation_status (em_invocation m) InvPending s1 = (Inr (), s2)"
    "update_invocation_status_log_end (em_invocation m) InvDone
       (generate_object_name ustr fmt (em_invocation m) t1) t2 s1 = (Inr (), s3)"
    using update_inv_up[OF s1(2)] update_log_end_up[OF s1(2)] by metis
  show "inv_status_of (snd (execute ustr fmt t1 t2 runner m s)) =
           (inv_status_of s)(em_invocation m \<mapsto> executed_status res)"
    using s1 upds inv_update_ok[OF upds(1)] inv_update_log_end_ok[OF upds(2)] res
    by (cases res) (auto simp: execute_def fun_eq_iff)
  show "fst (execute ustr fmt t1 t2 runner m s) = map_option RunFailed res"
    using s1(1) upds res by (cases res) (auto simp: execute_def)
qed

lemma execute_not_pending:
  assumes "pg_wf s" and "pg_outcomes s = []" and "inv_status_of s (em_invocation m) \<noteq> Some InvPending"
  shows "fst (execute ustr fmt t1 t2 runner m s) = None"
    and "inv_status_of (snd (execute ustr fmt t1 t2 runner m s)) = inv_status_of s"
proof -
  show "fst (execute ustr fmt t1 t2 runner m s) = None"
    using update_inv_if_up[OF assms(1,2), of "em_invocation m" InvPending InvExecuting] assms(3)
    by (auto simp: execute_def)
qed (rule execute_unclaimed[OF assms(1,3)])

text \<open>
  C11: With the database up, \<open>Execute\<close> claims an invocation exactly when it is PENDING, ends it
  DONE when the runner returns without an error and puts it back to PENDING, returning the
  error, when the runner fails; an invocation in any other status is untouched and acknowledged.
\<close>

theorem execute_outcome:
  assumes "pg_wf s" and "pg_outcomes s = []"
    and "runner (em_code_object m) (em_deps_object m)
           (generate_object_name ustr fmt (em_invocation m) t1) (em_payload m) = res"
  shows "(inv_status_of s (em_invocation m) = Some InvPending \<longrightarrow>
            inv_status_of (snd (execute ustr fmt t1 t2 runner m s)) =
              (inv_status_of s)(em_invocation m \<mapsto> executed_status res) \<and>
            fst (execute ustr fmt t1 t2 runner m s) = map_option RunFailed res) \<and>
         (inv_status_of s (em_invocation m) \<noteq> Some InvPending \<longrightarrow>
            inv_status_of (snd (execute ustr fmt t1 t2 runner m s)) = inv_status_of s \<and>
            fst (execute ustr fmt t1 t2 runner m s) = None)"
  using execute_pending[OF assms(1,2), of m runner ustr fmt t1 res t2]
    execute_not_pending[OF assms(1,2), of m ustr fmt t1 t2 runner] assms(3) by blast

theorem execute_outcome_witness:
  "inv_status_of (snd (execute (\<lambda>_. ''id'') (\<lambda>_. ''t'') 5 6 (\<lambda>_ _ _ _. Some (SystemError ''x''))
      \<lparr>em_invocation = 9, em_code_object = ''a'', em_deps_object = ''d'', em_payload = ''{}''\<rparr>
      (sample_pg FnReady InvPending))) 9 = Some InvPending"
  using execute_outcome[OF sample_pg_facts(1,2) refl,
      where m = "\<lparr>em_invocation = 9, em_code_object = ''a'', em_deps_object = ''d'', em_payload = ''{}''\<rparr>"
        and runner = "\<lambda>_ _ _ _. Some (SystemError ''x'')"]
  by (simp add: sample_pg_facts)

section \<open>Redelivery\<close>

lemma outcomes_updates:
  assumes "pg_outcomes s = []"
  shows "pg_outcomes (snd (update_function_status k st s)) = []"
    and "pg_outcomes (snd (update_function_status_if k st st' s)) = []"
    and "pg_outcomes (snd (update_function_status_and_drive_path k st p s)) = []"
    and "pg_outcomes (snd (update_invocation_status k ist s)) = []"
    and "pg_outcomes (snd (update_invocation_status_if k ist ist' s)) = []"
    and "pg_outcomes (snd (update_invocation_status_log_end k ist p t s)) = []"
  using assms unfolding stmt_update_defs update_functions_where_def update_invocations_where_def db_exec_def
  by (auto split: list.splits)

text \<open>Whatever the statements of a service preserve, the service preserves.\<close>

lemma prepare_preserves:
  assumes "P s"
    and "\<And>k a b s. P s \<Longrightarrow> P (snd (update_function_status_if k a b s))"
    and "\<And>k b s. P s \<Longrightarrow> b \<noteq> FnReady \<Longrightarrow> P (snd (update_function_status k b s))"
    and "\<And>k p s. P s \<Longrightarrow> P (snd (update_function_status_and_drive_path k FnReady p s))"
  shows "P (snd (prepare ustr fresh runner m s))"
proof -
  obtain r s1 where claim:
    "update_function_status_if (bm_function m) FnVerified FnPreparingEnvironment s = (r, s1)" by fastforce
  with assms(1,2) have P1: "P s1" by (metis snd_conv)
  have "snd (case update_function_status_and_drive_path k FnReady p s1 of
      (Inl e, s2) \<Rightarrow> (Some (StoreFailed e), s2) | (Inr _, s2) \<Rightarrow> (None, s2)) =
    snd (update_function_status_and_drive_path k FnReady p s1)" for k p
    by (auto split: prod.splits sum.splits)
  with claim P1 assms(3,4) show ?thesis
    by (auto simp: prepare_def Let_def split: sum.splits bool.splits option.splits run_error.splits)
qed

lemma execute_preserves:
  assumes "P s"
    and "\<And>k a b s. P s \<Longrightarrow> P (snd (update_invocation_status_if k a b s))"
    and "\<And>k b s. P s \<Longrightarrow> P (snd (update_invocation_status k b s))"
    and "\<And>k b p t s. P s \<Longrightarrow> P (snd (update_invocation_status_log_end k b p t s))"
  shows "P (snd (execute ustr fmt t1 t2 runner m s))"
proof -
  obtain r s1 where claim:
    "update_invocation_status_if (em_invocation m) InvPending InvExecuting s = (r, s1)" by fastforce
  with assms(1,2) have P1: "P s1" by (metis snd_conv)
  with claim assms(3,4) show ?thesis
    by (auto simp: execute_def Let_def split: sum.splits bool.splits option.splits)
qed

lemma prepare_wf: "pg_wf s \<Longrightarrow> pg_wf (snd (prepare ustr fresh runner m s))"
  by (rule prepare_preserves) (auto intro: wf_update_statements)

lemma prepare_outcomes: "pg_outcomes s = [] \<Longrightarrow> pg_outcomes (snd (prepare ustr fresh runner m s)) = []"
  by (rule prepare_preserves) (auto intro: outcomes_updates)

lemma execute_wf: "pg_wf s \<Longrightarrow> pg_wf (snd (execute ustr fmt t1 t2 runner m s))"
  by (rule execute_preserves) (auto intro: wf_update_statements)

lemma execute_outcomes: "pg_outcomes s = [] \<Longrightarrow> pg_outcomes (snd (execute ustr fmt t1 t2 runner m s)) = []"
  by (rule execute_preserves) (auto intro: outcomes_updates)

lemma prepare_done_not_verified:
  assumes "pg_wf s" and "pg_outcomes s = []" and "fst (prepare ustr fresh runner m s) = None"
  shows "fn_status_of (snd (prepare ustr fresh runner m s)) (bm_function m) \<noteq> Some FnVerified"
proof (cases "fn_status_of s (bm_function m) = Some FnVerified")
  case True
  define res where "res = runner (bm_code_object m) (drive_object_name ustr fresh)
                 (generate_prepare_object_name ustr (bm_function m))"
  note out = prepare_verified[OF assms(1,2) True, of runner ustr fresh, OF refl, folded res_def]
  show ?thesis using assms(3) out by (cases res rule: prepared_status.cases) auto
next
  case False
  then show ?thesis using prepare_not_verified(2)[OF assms(1,2) False] by simp
qed

text \<open>
  A build message that is delivered again after \<open>Prepare\<close> acknowledged it changes no
  status and is acknowledged again, whatever the runner would do: the build does not run twice.
\<close>

theorem prepare_redelivery:
  assumes "pg_wf s" and "pg_outcomes s = []"
    and "fst (prepare ustr fresh runner m s) = None"
  shows "fst (prepare ustr fresh' runner' m (snd (prepare ustr fresh runner m s))) = None \<and>
         fn_status_of (snd (prepare ustr fresh' runner' m (snd (prepare ustr fresh runner m s)))) =
         fn_status_of (snd (prepare ustr fresh runner m s))"
  using prepare_not_verified[OF prepare_wf[OF assms(1)] prepare_outcomes[OF assms(2)]
      prepare_done_not_verified[OF assms]] by blast

theorem prepare_redelivery_witness:
  "fst (prepare (\<lambda>_. ''id'') 4 (\<lambda>_ _ _. Some UserError) \<lparr>bm_function = 7, bm_code_object = ''a''\<rparr>
     (snd (prepare (\<lambda>_. ''id'') 3 (\<lambda>_ _ _. None) \<lparr>bm_function = 7, bm_code_object = ''a''\<rparr>
        (sample_pg FnVerified InvPending)))) = None"
proof -
  have "fst (prepare (\<lambda>_. ''id'') 3 (\<lambda>_ _ _. None) \<lparr>bm_function = 7, bm_code_object = ''a''\<rparr>
     (sample_pg FnVerified InvPending)) = None"
    using prepare_verified(2)[OF sample_pg_facts(1,2), of FnVerified InvPending
        "\<lparr>bm_function = 7, bm_code_object = ''a''\<rparr>" "\<lambda>_ _ _. None" "\<lambda>_. ''id''" 3 None]
    by (simp add: sample_pg_facts)
  from prepare_redelivery[OF sample_pg_facts(1,2) this] show ?thesis by blast
qed

section \<open>Validation and dead letters\<close>

text \<open>
  An object name that \<open>validateObjectName\<close> accepts stays below any directory it is joined
  to: no accepted name walks out of the directory, whatever its length and bytes.
\<close>

theorem validated_name_confined:
  assumes "validate_object_name name = None" and "is_abs base" and "path_clean base \<noteq> ''/''"
  shows "below (path_clean base) (path_join base name)"
  using assms validate_object_name_ok path_join_below by blast

theorem validated_name_confined_witness:
  "below (path_clean ''/tmp/x'') (path_join ''/tmp/x'' ''a/../b'') \<or>
   below (path_clean ''/tmp/x'') (path_join ''/tmp/x'' ''a/b..c'')"
proof -
  have "validate_object_name ''a/b..c'' = None" by code_simp
  moreover have "is_abs ''/tmp/x''" by (simp add: is_abs_def has_prefix_def)
  moreover have "path_clean ''/tmp/x'' \<noteq> ''/''" by code_simp
  ultimately show ?thesis using validated_name_confined[of "''a/b..c''" "''/tmp/x''"] by blast
qed

definition dead_letter_ids :: "(string \<Rightarrow> execute_message option) \<Rightarrow> string list \<Rightarrow> uuid set" where
  "dead_letter_ids dec ps = {em_invocation m |m p. p \<in> set ps \<and> decode_payload dec p = Some m}"

lemma mark_invocations_failed_status:
  assumes "pg_outcomes s = []"
  shows "inv_status_of (mark_invocations_failed dec ps s) k =
    (if k \<in> dead_letter_ids dec ps then map_option (\<lambda>_. InvFailed) (inv_status_of s k)
     else inv_status_of s k)"
  using assms
proof (induction ps arbitrary: s)
  case Nil
  then show ?case by (simp add: dead_letter_ids_def)
next
  case (Cons p ps)
  show ?case
  proof (cases "decode_payload dec p")
    case None
    with Cons show ?thesis by (auto simp: dead_letter_ids_def)
  next
    case (Some m)
    obtain s' where s': "update_invocation_status (em_invocation m) InvFailed s = (Inr (), s')"
      "pg_outcomes s' = []" using update_inv_up[OF Cons.prems] by blast
    have ids: "dead_letter_ids dec (p # ps) = insert (em_invocation m) (dead_letter_ids dec ps)"
      using Some by (auto simp: dead_letter_ids_def)
    show ?thesis
      using Some s' Cons.IH[OF s'(2)] ids
      by (auto simp: inv_update_ok[OF s'(1)] option.map_comp o_def)
  qed
qed

text \<open>
  Publishing to the execution dead-letter queue marks exactly the invocations its decodable
  messages name as FAILED, and then hands the same messages to the broker.
\<close>

theorem dead_letter_marks_failed:
  assumes "pg_outcomes s = []"
  shows "fst (execute_status_fail_publish dec base topic ps s) = base topic ps \<and>
    inv_status_of (snd (execute_status_fail_publish dec base topic ps s)) k =
      (if k \<in> dead_letter_ids dec ps then map_option (\<lambda>_. InvFailed) (inv_status_of s k)
       else inv_status_of s k)"
  using mark_invocations_failed_status[OF assms] by (simp add: execute_status_fail_publish_def Let_def)

theorem dead_letter_marks_failed_witness:
  "inv_status_of (snd (execute_status_fail_publish
      (\<lambda>_. Some \<lparr>em_invocation = 9, em_code_object = ''a'', em_deps_object = ''d'', em_payload = ''{}''\<rparr>)
      (\<lambda>_ _. None :: nat option) ''execute_dlq'' [''msg''] (sample_pg FnReady InvExecuting))) 9 = Some InvFailed"
proof -
  let ?m = "\<lparr>em_invocation = 9, em_code_object = ''a'', em_deps_object = ''d'', em_payload = ''{}''\<rparr>"
  have "9 \<in> dead_letter_ids (\<lambda>_. Some ?m) [''msg'']"
    by (auto simp: dead_letter_ids_def decode_payload_def maxPayloadBytes_def)
  with dead_letter_marks_failed[OF sample_pg_facts(2)[of FnReady InvExecuting], of "\<lambda>_. Some ?m"
      "\<lambda>_ _. None :: nat option" "''execute_dlq''" "[''msg'']" 9]
  show ?thesis by (simp add: sample_pg_facts)
qed

end
