(* ===== verification/AgentProto.thy ===== *)
theory AgentProto
  imports GoStrings
begin

text \<open>
  \<open>internal/agentproto/proto.go\<close>: the messages a VM's agent and the host exchange, one JSON object
  per line, and the text form \<open>String\<close> that the host writes to the invocation log. The JSON codec
  is the pair of parameters \<open>enc\<close> and \<open>dec\<close>. \<open>Receive\<close> ends in \<open>return m, json.Unmarshal(..., &m)\<close>,
  for which the language leaves open whether \<open>m\<close> is read before or after the call; the model has the
  order the standard compiler produces, the call first.
\<close>

definition MaxMessageSize :: nat where
  "MaxMessageSize = 2 ^ 20"

definition TypeBuild :: string where "TypeBuild = ''build''"
definition TypeExec :: string where "TypeExec = ''exec''"
definition TypeOutput :: string where "TypeOutput = ''output''"
definition TypeDone :: string where "TypeDone = ''done''"
definition TypeError :: string where "TypeError = ''error''"

record message =
  m_type :: string
  m_channel :: string
  m_data :: string
  m_exit_code :: "int option"
  m_error :: string

definition Build :: message where
  "Build = \<lparr>m_type = TypeBuild, m_channel = '''', m_data = '''', m_exit_code = None, m_error = ''''\<rparr>"

definition Exec :: "string \<Rightarrow> message" where
  "Exec payload = \<lparr>m_type = TypeExec, m_channel = '''', m_data = payload, m_exit_code = None, m_error = ''''\<rparr>"

definition Output :: "string \<Rightarrow> string \<Rightarrow> message" where
  "Output channel data = \<lparr>m_type = TypeOutput, m_channel = channel, m_data = data, m_exit_code = None, m_error = ''''\<rparr>"

definition Done :: "int \<Rightarrow> message" where
  "Done exitCode = \<lparr>m_type = TypeDone, m_channel = '''', m_data = '''', m_exit_code = Some exitCode, m_error = ''''\<rparr>"

definition AgentError :: "string \<Rightarrow> message" where
  "AgentError msg = \<lparr>m_type = TypeError, m_channel = '''', m_data = '''', m_exit_code = None, m_error = msg\<rparr>"

lemmas message_defs = Build_def Exec_def Output_def Done_def AgentError_def
  TypeBuild_def TypeExec_def TypeOutput_def TypeDone_def TypeError_def

text \<open>\<open>%d\<close>.\<close>

fun nat_digits :: "nat \<Rightarrow> string" where
  "nat_digits n = (if n < 10 then [char_of (48 + n)] else nat_digits (n div 10) @ [char_of (48 + n mod 10)])"

declare nat_digits.simps [simp del]

definition itoa :: "int \<Rightarrow> string" where
  "itoa i = (if i < 0 then CHR ''-'' # nat_digits (nat (- i)) else nat_digits (nat i))"

definition message_text :: "message \<Rightarrow> string" where
  "message_text m = (case m_exit_code m of
     Some code \<Rightarrow> ''{type:'' @ m_type m @ '' exit_code:'' @ itoa code @ '' error:'' @ m_error m @ ''}''
   | None \<Rightarrow> ''{type:'' @ m_type m @ '' channel:'' @ m_channel m @ '' data:'' @ m_data m @ ''}'')"

section \<open>The connection\<close>

text \<open>
  \<open>Send\<close> writes the encoded message and a newline; \<open>Receive\<close> takes the next line, which a scanner
  with a buffer of 1 MiB delivers only when it is shorter than the buffer. A connection is the
  bytes that are still to be read; its end is the end of the list.
\<close>

definition Send :: "(message \<Rightarrow> string option) \<Rightarrow> message \<Rightarrow> string option" where
  "Send enc m = map_option (\<lambda>data. data @ [CHR 0x0A]) (enc m)"

datatype recv_error = TooLong | Eof | BadJson

fun drop_cr :: "string \<Rightarrow> string" where
  "drop_cr s = (if s \<noteq> [] \<and> last s = CHR 0x0D then butlast s else s)"

definition Receive :: "(string \<Rightarrow> message option) \<Rightarrow> string \<Rightarrow> (recv_error + message) \<times> string" where
  "Receive dec wire =
     (let line = takeWhile (\<lambda>c. c \<noteq> CHR 0x0A) wire; rest = drop (length line + 1) wire in
      if wire = [] then (Inl Eof, [])
      else if length line \<ge> MaxMessageSize then (Inl TooLong, [])
      else (case dec (drop_cr line) of None \<Rightarrow> (Inl BadJson, rest) | Some m \<Rightarrow> (Inr m, rest)))"

fun receive_all :: "(string \<Rightarrow> message option) \<Rightarrow> nat \<Rightarrow> string \<Rightarrow> message list" where
  "receive_all dec 0 wire = []"
| "receive_all dec (Suc n) wire =
     (case Receive dec wire of (Inl _, _) \<Rightarrow> [] | (Inr m, rest) \<Rightarrow> m # receive_all dec n rest)"

text \<open>
  What \<open>encoding/json\<close> guarantees of the pair: an encoded object contains neither a line feed nor a
  carriage return (both are escaped in strings), and decoding it gives the message back when its
  strings are valid UTF-8, which \<open>utf8\<close> says; other bytes are replaced.
\<close>

definition json_codec ::
  "(string \<Rightarrow> bool) \<Rightarrow> (message \<Rightarrow> string option) \<Rightarrow> (string \<Rightarrow> message option) \<Rightarrow> bool" where
  "json_codec utf8 enc dec \<longleftrightarrow>
     (\<forall>m t. enc m = Some t \<longrightarrow> CHR 0x0A \<notin> set t \<and> CHR 0x0D \<notin> set t \<and>
        (list_all utf8 [m_type m, m_channel m, m_data m, m_error m] \<longrightarrow> dec t = Some m))"

definition utf8_message :: "(string \<Rightarrow> bool) \<Rightarrow> message \<Rightarrow> bool" where
  "utf8_message utf8 m \<longleftrightarrow> list_all utf8 [m_type m, m_channel m, m_data m, m_error m]"

lemma takeWhile_line: "CHR 0x0A \<notin> set t \<Longrightarrow> takeWhile (\<lambda>c. c \<noteq> CHR 0x0A) (t @ CHR 0x0A # rest) = t"
  by (induction t) auto

lemma Receive_Send:
  assumes "json_codec utf8 enc dec" and "enc m = Some t" and "utf8_message utf8 m" and "length t < MaxMessageSize"
  shows "Receive dec (t @ CHR 0x0A # rest) = (Inr m, rest)"
proof -
  from assms(1-3) have dec: "dec t = Some m" and nl: "CHR 0x0A \<notin> set t" and cr: "CHR 0x0D \<notin> set t"
    by (auto simp: json_codec_def utf8_message_def)
  have "drop_cr t = t" using cr by (metis drop_cr.simps last_in_set)
  then show ?thesis using dec assms(4) by (simp add: Receive_def Let_def takeWhile_line[OF nl])
qed



end
