(* ===== verification/InvocationLogs.thy ===== *)
theory InvocationLogs
  imports AgentProto
begin

text \<open>
  The log of an invocation: \<open>internal/vm/vm/logs.go\<close> writes each message of the agent as one line of
  an object, \<open>internal/server/invocations/logs.go\<close> parses the object back into log lines. A time
  stamp of a parsed line is the time of parsing and left out.
\<close>

section \<open>logs.go of the VM service\<close>

text \<open>
  What \<open>Receive\<close> returns, one by one; the end of the list is the connection's end. The text written
  up to the terminal message, and that message unless the connection failed first.
\<close>

fun stream_text :: "(recv_error + message) list \<Rightarrow> string \<times> message option" where
  "stream_text [] = ([], None)"
| "stream_text (Inl _ # rs) = ([], None)"
| "stream_text (Inr m # rs) =
     (let line = message_text m @ [CHR 0x0A] in
      if m_type m = TypeDone \<or> m_type m = TypeError then (line, Some m)
      else (case stream_text rs of (text, fin) \<Rightarrow> (line @ text, fin)))"

datatype stream_error = ReceiveFailed | UploadFailed

text \<open>
  \<open>Stream\<close>: the terminal message or an error, and the object that is stored. \<open>put\<close> is the object
  store's answer to the upload; closing the pipe with an error makes the upload fail.
\<close>

definition Stream :: "(string \<Rightarrow> bool) \<Rightarrow> (recv_error + message) list \<Rightarrow> (stream_error + message) \<times> string option" where
  "Stream put received =
     (case stream_text received of
        (text, None) \<Rightarrow> (Inl ReceiveFailed, None)
      | (text, Some m) \<Rightarrow> if put text then (Inr m, Some text) else (Inl UploadFailed, None))"

section \<open>logs.go of the server\<close>

record log_line =
  ll_stream :: string
  ll_message :: string

text \<open>
  \<open>bufio.Scanner\<close> with its default limits: lines end at a line feed, a carriage return before it
  is dropped, and a line that does not fit 64 KiB is an error.
\<close>

definition MaxScanTokenSize :: nat where
  "MaxScanTokenSize = 64 * 1024"

fun scan_lines :: "string list \<Rightarrow> string list \<times> bool" where
  "scan_lines [] = ([], True)"
| "scan_lines [l] = (if l = [] then ([], True) else if length l \<ge> MaxScanTokenSize then ([], False) else ([drop_cr l], True))"
| "scan_lines (l # ls) =
     (if length l \<ge> MaxScanTokenSize then ([], False)
      else (case scan_lines ls of (lines, ok) \<Rightarrow> (drop_cr l # lines, ok)))"

text \<open>The regular expression \<open>channel:([a-zA-Z0-9_-]+)\s+data:(.*)\<close>: its leftmost match.\<close>

definition word_char :: "char \<Rightarrow> bool" where
  "word_char c \<longleftrightarrow> (let n = of_char c :: nat in
     97 \<le> n \<and> n \<le> 122 \<or> 65 \<le> n \<and> n \<le> 90 \<or> 48 \<le> n \<and> n \<le> 57 \<or> c = CHR ''_'' \<or> c = CHR ''-'')"

definition regex_space :: "char \<Rightarrow> bool" where
  "regex_space c \<longleftrightarrow> c \<in> {CHR 0x09, CHR 0x0A, CHR 0x0C, CHR 0x0D, CHR '' ''}"

definition match_here :: "string \<Rightarrow> (string \<times> string) option" where
  "match_here s =
     (if \<not> prefix ''channel:'' s then None
      else
        let r = drop (length ''channel:'') s;
            channel = takeWhile word_char r;
            r2 = dropWhile word_char r;
            space = takeWhile regex_space r2;
            r3 = dropWhile regex_space r2
        in if channel = [] \<or> space = [] \<or> \<not> prefix ''data:'' r3 then None
           else Some (channel, takeWhile (\<lambda>c. c \<noteq> CHR 0x0A) (drop (length ''data:'') r3)))"

fun find_match :: "string \<Rightarrow> (string \<times> string) option" where
  "find_match [] = match_here []"
| "find_match (c # s) = (case match_here (c # s) of Some m \<Rightarrow> Some m | None \<Rightarrow> find_match s)"

definition parse_line :: "string \<Rightarrow> log_line option" where
  "parse_line line =
     (let lineText = str_trim_space line in
      if lineText = '''' then None
      else if lineText = ''}'' then None
      else if str_contains lineText ''type:done''
      then Some \<lparr>ll_stream = ''system'', ll_message = ''Execution finished successfully.''\<rparr>
      else case find_match lineText of
             Some (channel, msg) \<Rightarrow>
               let streamTarget = (if channel = ''stderr'' \<or> channel = ''system'' then channel else ''stdout'') in
               Some \<lparr>ll_stream = streamTarget, ll_message = str_trim_space (str_trim_suffix msg ''}'')\<rparr>
           | None \<Rightarrow> Some \<lparr>ll_stream = ''stdout'', ll_message = lineText\<rparr>)"

text \<open>
  The streams the API documents. A line that reports the end of an invocation is sent with another one.
\<close>

definition LogLineStream_Valid :: "string \<Rightarrow> bool" where
  "LogLineStream_Valid e \<longleftrightarrow> e = ''stderr'' \<or> e = ''stdout''"

lemma parsed_stream:
  assumes "parse_line line = Some l"
  shows "LogLineStream_Valid (ll_stream l) \<or> ll_stream l = ''system''"
    and "str_contains (str_trim_space line) ''type:done'' \<Longrightarrow> \<not> LogLineStream_Valid (ll_stream l)"
  using assms by (auto simp: parse_line_def LogLineStream_Valid_def Let_def split: if_splits option.splits prod.splits)

definition parse_log :: "string \<Rightarrow> log_line list option" where
  "parse_log text =
     (case scan_lines (split_byte (CHR 0x0A) text) of
        (lines, ok) \<Rightarrow> if ok then Some (List.map_filter parse_line lines) else None)"

text \<open>\<open>None\<close> as the object: the object store cannot be reached.\<close>

definition GetLogsByInvocationId :: "(string \<Rightarrow> string option) \<Rightarrow> string \<Rightarrow> log_line list option" where
  "GetLogsByInvocationId getObject logPath =
     (case getObject logPath of None \<Rightarrow> None | Some text \<Rightarrow> parse_log text)"

section \<open>Reading back what was written\<close>

lemma message_text_trim: "str_trim_space (message_text m) = message_text m"
  by (rule str_trim_space_plain) (simp_all add: message_text_def plain_char_def split: option.splits)

lemma message_text_cr [simp]: "drop_cr (message_text m) = message_text m"
  by (simp add: message_text_def split: option.splits)

definition known_channel :: "string \<Rightarrow> bool" where
  "known_channel ch \<longleftrightarrow> ch \<in> {''stdout'', ''stderr'', ''system''}"

lemma takeWhile_no_newline: "CHR 0x0A \<notin> set d \<Longrightarrow> takeWhile (\<lambda>c. c \<noteq> CHR 0x0A) d = d"
  by (induction d) auto

lemma find_match_skip: "CHR ''c'' \<notin> set pre \<Longrightarrow> find_match (pre @ s) = find_match s"
proof (induction pre)
  case (Cons a pre)
  then have "match_here ((a # pre) @ s) = None" by (simp add: match_here_def)
  with Cons show ?case by simp
qed simp

lemma match_here_output:
  assumes "ch \<noteq> []" and "list_all word_char ch" and "CHR 0x0A \<notin> set d"
  shows "match_here (''channel:'' @ ch @ '' data:'' @ d) = Some (ch, d)"
proof -
  have blank: "\<not> word_char (CHR '' '')" "regex_space (CHR '' '')" "\<not> regex_space (CHR ''d'')"
    by (simp_all add: word_char_def regex_space_def)
  have "takeWhile word_char (ch @ '' data:'' @ x) = ch" "dropWhile word_char (ch @ '' data:'' @ x) = '' data:'' @ x" for x
    using assms(2) blank(1) by (induction ch) simp_all
  then show ?thesis
    using assms(1) blank takeWhile_no_newline[OF assms(3)] by (simp add: match_here_def Let_def)
qed

lemma known_channel_word: "known_channel ch \<Longrightarrow> ch \<noteq> [] \<and> list_all word_char ch"
  by (auto simp: known_channel_def word_char_def)

text \<open>The beginning of the text form of an output, up to its data.\<close>

definition output_prefix :: "string \<Rightarrow> string" where
  "output_prefix ch = ''{type:output channel:'' @ ch @ '' data:''"

lemma message_text_output: "message_text (Output ch d) = output_prefix ch @ d @ ''}''"
  by (simp add: message_text_def Output_def TypeOutput_def output_prefix_def)

lemma find_match_output:
  assumes "known_channel ch" and "CHR 0x0A \<notin> set d"
  shows "find_match (output_prefix ch @ d) = Some (ch, d)"
proof -
  have "output_prefix ch @ d = ''{type:output '' @ (''channel:'' @ ch @ '' data:'' @ d)"
    by (simp add: output_prefix_def)
  moreover have "find_match (''{type:output '' @ s) = find_match s" for s
    by (rule find_match_skip) simp
  moreover have "find_match (''channel:'' @ ch @ '' data:'' @ d) = Some (ch, d)"
    using match_here_output[of ch d] known_channel_word[OF assms(1)] assms(2) by simp
  ultimately show ?thesis by (simp only:)
qed

lemma parse_prefixed_line:
  assumes "known_channel ch" and "CHR 0x0A \<notin> set d"
    and "\<not> str_contains (output_prefix ch @ d) ''type:done''"
    and "str_trim_space (output_prefix ch @ d) = output_prefix ch @ d"
  shows "parse_line (output_prefix ch @ d) =
    Some \<lparr>ll_stream = ch, ll_message = str_trim_space (str_trim_suffix d ''}'')\<rparr>"
proof -
  have "output_prefix ch @ d \<noteq> []" "output_prefix ch @ d \<noteq> ''}''" by (simp_all add: output_prefix_def)
  then show ?thesis
    using assms(1,3,4) find_match_output[OF assms(1,2)] by (auto simp: parse_line_def known_channel_def Let_def)
qed

text \<open>A line that ends in a printable character is not trimmed behind the prefix.\<close>

lemma space_encoding_no_colon: "w \<in> set space_encodings \<Longrightarrow> CHR '':'' \<notin> set w"
  by (auto simp: space_encodings_def)

lemma prefixed_trim:
  assumes "\<not> ends_blank d"
  shows "str_trim_space (output_prefix ch @ d) = output_prefix ch @ d"
proof (rule str_trim_space_idle)
  show "\<not> starts_blank (output_prefix ch @ d)"
    by (rule plain_not_starts_blank) (simp_all add: output_prefix_def plain_char_def)
  show "\<not> ends_blank (output_prefix ch @ d)"
  proof
    assume "ends_blank (output_prefix ch @ d)"
    then obtain w where w: "w \<in> set space_encodings" "suffix w (output_prefix ch @ d)"
      by (auto simp: ends_blank_def)
    then have "\<not> suffix w d" using assms by (auto simp: ends_blank_def)
    with w(2) obtain x where x: "w = x @ d" "suffix x (output_prefix ch)"
      unfolding suffix_append by blast
    with \<open>\<not> suffix w d\<close> have "x \<noteq> []" by auto
    with x(2) have "last x = last (output_prefix ch)" by (auto simp: suffix_def)
    then have "last x = CHR '':''" by (simp add: output_prefix_def)
    then have "CHR '':'' \<in> set w" using x(1) \<open>x \<noteq> []\<close> last_in_set[of x] by (metis UnCI set_append)
    then show False using space_encoding_no_colon w(1) by blast
  qed
qed

lemma done_contains: "str_contains (message_text (Done c)) ''type:done''"
  by (simp add: str_contains_iff message_text_def Done_def TypeDone_def sublist_def prefix_def)
     (metis append_Cons append_Nil)

lemma parse_done_line:
  "parse_line (message_text (Done c)) =
     Some \<lparr>ll_stream = ''system'', ll_message = ''Execution finished successfully.''\<rparr>"
proof -
  have "message_text (Done c) \<noteq> ''''" "message_text (Done c) \<noteq> ''}''"
    by (simp_all add: message_text_def Done_def)
  then show ?thesis using done_contains by (simp add: parse_line_def message_text_trim Let_def)
qed

text \<open>
  The agent sends the lines of a program's output with their line feed, its own notices without:
  the closing brace of a streamed line stands on a line of its own.
\<close>

definition streamed :: "message \<Rightarrow> bool" where
  "streamed m \<longleftrightarrow> m_data m \<noteq> [] \<and> last (m_data m) = CHR 0x0A"

definition body_of :: "message \<Rightarrow> string" where
  "body_of m = (if streamed m then butlast (m_data m) else m_data m @ ''}'')"

definition readable_output :: "message \<Rightarrow> bool" where
  "readable_output m \<longleftrightarrow> known_channel (m_channel m) \<and> m = Output (m_channel m) (m_data m) \<and>
     CHR 0x0A \<notin> set (body_of m) \<and> \<not> ends_blank (body_of m) \<and>
     \<not> str_contains (output_prefix (m_channel m) @ body_of m) ''type:done'' \<and>
     length (output_prefix (m_channel m) @ body_of m) < MaxScanTokenSize"

definition line_of :: "message \<Rightarrow> log_line" where
  "line_of m = \<lparr>ll_stream = m_channel m, ll_message = str_trim_space (str_trim_suffix (body_of m) ''}'')\<rparr>"

definition finished_line :: log_line where
  "finished_line = \<lparr>ll_stream = ''system'', ll_message = ''Execution finished successfully.''\<rparr>"

lemma readable_parse:
  "readable_output m \<Longrightarrow> parse_line (output_prefix (m_channel m) @ body_of m) = Some (line_of m)"
  unfolding readable_output_def line_of_def by (intro parse_prefixed_line prefixed_trim) simp_all

lemma readable_cr:
  assumes "readable_output m"
  shows "drop_cr (output_prefix (m_channel m) @ body_of m) = output_prefix (m_channel m) @ body_of m"
proof (cases "body_of m" rule: rev_cases)
  case Nil
  then show ?thesis by (simp add: output_prefix_def)
next
  case (snoc xs c)
  have "[CHR 0x0D] \<in> set space_encodings" by (simp add: space_encodings_def)
  moreover have "\<not> ends_blank (body_of m)" using assms by (simp add: readable_output_def)
  ultimately have "c \<noteq> CHR 0x0D" unfolding snoc ends_blank_def suffix_def by blast
  then show ?thesis by (simp add: snoc)
qed

lemma readable_text:
  assumes "readable_output m"
  shows "message_text m =
    output_prefix (m_channel m) @ body_of m @ (if streamed m then CHR 0x0A # ''}'' else [])"
proof -
  have m: "m = Output (m_channel m) (m_data m)" using assms by (simp add: readable_output_def)
  have whole: "message_text m = output_prefix (m_channel m) @ m_data m @ ''}''"
    by (subst m) (rule message_text_output)
  show ?thesis
  proof (cases "streamed m")
    case True
    then have "m_data m = butlast (m_data m) @ [CHR 0x0A]" by (metis streamed_def append_butlast_last_id)
    then have "m_data m @ ''}'' = butlast (m_data m) @ CHR 0x0A # ''}''" by (metis append.assoc append_Cons append_Nil)
    then show ?thesis using True whole by (simp add: body_of_def)
  qed (simp add: whole body_of_def)
qed

lemma nat_digits_set: "c \<in> set (nat_digits n) \<Longrightarrow> plain_char c"
proof (induction n rule: nat_digits.induct)
  case (1 n)
  have digit: "plain_char (char_of (48 + k :: nat))" if "k < 10" for k
    using that by (simp add: plain_char_def)
  show ?case
  proof (cases "n < 10")
    case True
    with 1 digit show ?thesis by (simp add: nat_digits.simps[of n])
  next
    case False
    then have "c \<in> set (nat_digits (n div 10)) \<or> c = char_of (48 + n mod 10)"
      using "1.prems" by (auto simp: nat_digits.simps[of n])
    then show ?thesis using "1.IH"[OF False] digit[of "n mod 10"] by auto
  qed
qed

lemma itoa_no_newline: "CHR 0x0A \<notin> set (itoa i)"
proof -
  have "\<not> plain_char (CHR 0x0A)" by (simp add: plain_char_def)
  then show ?thesis using nat_digits_set by (auto simp: itoa_def)
qed

lemma readable_no_newline:
  "readable_output m \<Longrightarrow> CHR 0x0A \<notin> set (output_prefix (m_channel m) @ body_of m)"
  by (auto simp: readable_output_def known_channel_def output_prefix_def)

lemma done_no_newline: "CHR 0x0A \<notin> set (message_text (Done c))"
  using itoa_no_newline by (simp add: message_text_def Done_def TypeDone_def)

lemma message_text_nonempty [simp]: "message_text m \<noteq> []"
  by (simp add: message_text_def split: option.splits)

lemma scan_lines_Cons: "ls \<noteq> [] \<Longrightarrow> scan_lines (l # ls) =
     (if length l \<ge> MaxScanTokenSize then ([], False) else (drop_cr l # fst (scan_lines ls), snd (scan_lines ls)))"
  by (cases ls) (simp_all add: split_beta)

lemma parse_log_Cons:
  assumes "CHR 0x0A \<notin> set l" "length l < MaxScanTokenSize" "drop_cr l = l" "parse_line l = Some x"
    and "parse_log rest = Some xs"
  shows "parse_log (l @ CHR 0x0A # rest) = Some (x # xs)"
  using assms
  by (simp add: parse_log_def split_byte_append scan_lines_Cons split_beta List.map_filter_simps
      del: drop_cr.simps scan_lines.simps split: if_splits)

lemma parse_log_brace: "parse_log rest = Some xs \<Longrightarrow> parse_log (''}'' @ CHR 0x0A # rest) = Some xs"
proof -
  assume rest: "parse_log rest = Some xs"
  have "parse_line ''}'' = None" by (simp add: parse_line_def str_trim_space_plain plain_char_def)
  moreover have "split_byte (CHR 0x0A) (''}'' @ CHR 0x0A # rest) = ''}'' # split_byte (CHR 0x0A) rest"
    by (rule split_byte_append) simp
  ultimately show ?thesis
    using rest
    by (simp add: parse_log_def scan_lines_Cons split_beta List.map_filter_simps MaxScanTokenSize_def split: if_splits)
qed

lemma parse_log_output:
  assumes "readable_output m" and "parse_log rest = Some xs"
  shows "parse_log (message_text m @ CHR 0x0A # rest) = Some (line_of m # xs)"
proof -
  have len: "length (output_prefix (m_channel m) @ body_of m) < MaxScanTokenSize"
    using assms(1) by (simp add: readable_output_def)
  note one = parse_log_Cons[OF readable_no_newline[OF assms(1)] len readable_cr[OF assms(1)] readable_parse[OF assms(1)]]
  show ?thesis
    using one[OF assms(2)] one[OF parse_log_brace[OF assms(2)]]
    by (simp add: readable_text[OF assms(1)] split: if_splits)
qed

lemma parse_log_Nil: "parse_log [] = Some []"
  by (simp add: parse_log_def List.map_filter_simps)

lemma stream_text_run:
  assumes "list_all readable_output outs"
  shows "stream_text (map Inr (outs @ [Done c]) @ rest) =
    (concat (map (\<lambda>m. message_text m @ [CHR 0x0A]) (outs @ [Done c])), Some (Done c))"
  using assms
proof (induction outs)
  case Nil
  then show ?case by (simp add: Done_def Let_def)
next
  case (Cons m outs)
  then have "m_type m = TypeOutput" by (auto simp: readable_output_def Output_def) (metis message.select_convs(1))
  then show ?case using Cons by (simp add: Let_def TypeOutput_def TypeDone_def TypeError_def)
qed

lemma parse_log_run:
  assumes "list_all readable_output outs" and "length (message_text (Done c)) < MaxScanTokenSize"
  shows "parse_log (concat (map (\<lambda>m. message_text m @ [CHR 0x0A]) (outs @ [Done c]))) =
     Some (map line_of outs @ [finished_line])"
  using assms(1)
proof (induction outs)
  case Nil
  show ?case
    using parse_log_Cons[OF done_no_newline assms(2) message_text_cr parse_done_line parse_log_Nil]
    by (simp add: finished_line_def)
next
  case (Cons m outs)
  then have m: "readable_output m" by simp
  from parse_log_output[OF this] Cons show ?case by simp
qed



text \<open>
  One line of 64 KiB makes the whole log unreadable: \<open>parse_log\<close> fails although the agent
  forwards lines of up to 65535 bytes, to which the stored line adds its prefix.
\<close>

theorem long_line_hides_log:
  assumes "\<exists>l\<in>set (split_byte (CHR 0x0A) text). 65536 \<le> length l"
  shows "parse_log text = None"
proof -
  have "\<exists>l\<in>set ls. 65536 \<le> length l \<Longrightarrow> \<not> snd (scan_lines ls)" for ls
    by (induction ls rule: scan_lines.induct) (auto simp: MaxScanTokenSize_def split_beta)
  from this[OF assms] show ?thesis by (simp add: parse_log_def split_beta)
qed

theorem long_line_hides_log_witness:
  "parse_log (message_text (Output ''stdout'' (replicate 65535 CHR ''x'' @ [CHR 0x0A])) @ [CHR 0x0A]) = None"
proof (rule long_line_hides_log)
  let ?l = "output_prefix ''stdout'' @ replicate 65535 CHR ''x''"
  have "CHR 0x0A \<notin> set ?l" by (simp add: output_prefix_def)
  then have "?l \<in> set (split_byte (CHR 0x0A) (?l @ CHR 0x0A # r))" for r
    using split_byte_append[of "CHR 0x0A" ?l r] by simp
  moreover have "message_text (Output ''stdout'' (replicate 65535 CHR ''x'' @ [CHR 0x0A])) @ [CHR 0x0A] =
      ?l @ CHR 0x0A # ''}'' @ [CHR 0x0A]"
    by (simp only: message_text_output append_assoc append_Cons append_Nil)
  moreover have "65536 \<le> length ?l" by (simp add: output_prefix_def)
  ultimately show "\<exists>l\<in>set (split_byte (CHR 0x0A) (message_text (Output ''stdout''
      (replicate 65535 CHR ''x'' @ [CHR 0x0A])) @ [CHR 0x0A])). 65536 \<le> length l" by metis
qed

text \<open>
  A line of output that ends in a closing brace is shown without it: a program that prints a
  JSON object has its log truncated by one character.
\<close>

theorem closing_brace_lost:
  assumes "known_channel ch" and "CHR 0x0A \<notin> set l"
    and "\<not> str_contains (output_prefix ch @ l @ ''}'') ''type:done''"
    and "length (output_prefix ch @ l @ ''}'') < 65536"
  shows "parse_log (message_text (Output ch (l @ ''}'' @ [CHR 0x0A])) @ [CHR 0x0A]) =
     Some [\<lparr>ll_stream = ch, ll_message = str_trim_space l\<rparr>]"
proof -
  let ?m = "Output ch (l @ ''}'' @ [CHR 0x0A])"
  have body: "body_of ?m = l @ ''}''" by (simp add: body_of_def streamed_def Output_def butlast_append)
  have "\<not> ends_blank (l @ ''}'')" by (rule plain_not_ends_blank) (simp_all add: plain_char_def)
  then have "readable_output ?m"
    using assms unfolding readable_output_def body by (simp add: Output_def MaxScanTokenSize_def)
  from parse_log_output[OF this parse_log_Nil] show ?thesis
    using body unfolding line_of_def by (simp add: Output_def)
qed

theorem closing_brace_lost_witness:
  "parse_log (message_text (Output ''stdout'' (''{1'' @ ''}'' @ [CHR 0x0A])) @ [CHR 0x0A]) =
     Some [\<lparr>ll_stream = ''stdout'', ll_message = str_trim_space ''{1''\<rparr>]"
  by (rule closing_brace_lost) (simp_all add: known_channel_def output_prefix_def str_contains_def)

text \<open>
  The reason an agent gives for a failure does not reach the reader of the log: the text form
  of an error message has no error text, and the line is shown as output.
\<close>

theorem agent_error_not_logged:
  "parse_line (message_text (AgentError reason)) =
     Some \<lparr>ll_stream = ''stdout'', ll_message = ''{type:error channel: data:}''\<rparr>"
proof -
  have "message_text (AgentError reason) = ''{type:error channel: data:}''"
    by (simp add: message_text_def AgentError_def TypeError_def)
  moreover have "parse_line ''{type:error channel: data:}'' =
      Some \<lparr>ll_stream = ''stdout'', ll_message = ''{type:error channel: data:}''\<rparr>"
    by code_simp
  ultimately show ?thesis by simp
qed

text \<open>
  A connection that breaks before the terminal message leaves no log object, whatever output
  was received before.
\<close>

theorem broken_connection_leaves_no_log:
  assumes "list_all (\<lambda>m. m_type m \<noteq> TypeDone \<and> m_type m \<noteq> TypeError) outs"
  shows "Stream put (map Inr outs @ [Inl e]) = (Inl ReceiveFailed, None)"
proof -
  have "snd (stream_text (map Inr outs @ [Inl e])) = None"
    using assms by (induction outs) (auto simp: Let_def split_beta)
  then show ?thesis by (auto simp: Stream_def split: prod.splits)
qed

theorem broken_connection_leaves_no_log_witness:
  "Stream (\<lambda>_. True) (map Inr [Output ''stdout'' ''hi''] @ [Inl Eof]) = (Inl ReceiveFailed, None)"
  by (rule broken_connection_leaves_no_log) (simp add: message_defs)

end
