(* ===== verification/Sha256.thy ===== *)
theory Sha256
  imports GoStrings "HOL-Library.Word"
begin

text \<open>
  The parts of Go's standard library that request signing and key storage compute with:
  \<open>crypto/sha256\<close> (FIPS 180-4), \<open>crypto/hmac\<close> (RFC 2104) and \<open>encoding/hex\<close>. Bytes are
  characters, as in every other theory of the development.
\<close>

unbundle bit_operations_syntax

section \<open>SHA-256\<close>

definition sha_k :: "32 word list" where
  "sha_k = [
     1116352408, 1899447441, 3049323471, 3921009573, 961987163, 1508970993, 2453635748, 2870763221,
     3624381080, 310598401, 607225278, 1426881987, 1925078388, 2162078206, 2614888103, 3248222580,
     3835390401, 4022224774, 264347078, 604807628, 770255983, 1249150122, 1555081692, 1996064986,
     2554220882, 2821834349, 2952996808, 3210313671, 3336571891, 3584528711, 113926993, 338241895,
     666307205, 773529912, 1294757372, 1396182291, 1695183700, 1986661051, 2177026350, 2456956037,
     2730485921, 2820302411, 3259730800, 3345764771, 3516065817, 3600352804, 4094571909, 275423344,
     430227734, 506948616, 659060556, 883997877, 958139571, 1322822218, 1537002063, 1747873779,
     1955562222, 2024104815, 2227730452, 2361852424, 2428436474, 2756734187, 3204031479, 3329325298]"

definition sha_init :: "32 word list" where
  "sha_init = [1779033703, 3144134277, 1013904242, 2773480762, 1359893119, 2600822924, 528734635, 1541459225]"

definition rotr :: "nat \<Rightarrow> 32 word \<Rightarrow> 32 word" where
  "rotr n x = drop_bit n x OR push_bit (32 - n) x"

definition be_word :: "string \<Rightarrow> 32 word" where
  "be_word bs = foldl (\<lambda>w c. push_bit 8 w OR of_char c) 0 bs"

definition be_bytes :: "nat \<Rightarrow> nat \<Rightarrow> string" where
  "be_bytes k x = map (\<lambda>i. char_of (x div 256 ^ (k - 1 - i))) [0..<k]"

text \<open>Padding: a one bit, zeros, and the length in bits as eight bytes.\<close>

definition sha_pad :: "string \<Rightarrow> string" where
  "sha_pad m = m @ char_of (128 :: nat) # replicate ((119 - length m mod 64) mod 64) (char_of (0 :: nat))
                 @ be_bytes 8 (8 * length m)"

function chunks :: "nat \<Rightarrow> string \<Rightarrow> string list" where
  "chunks k xs = (if k = 0 \<or> xs = [] then [] else take k xs # chunks k (drop k xs))"
  by auto
termination by (relation "measure (\<lambda>(k, xs). length xs)") auto

declare chunks.simps [simp del]

fun schedule :: "nat \<Rightarrow> 32 word list \<Rightarrow> 32 word list" where
  "schedule 0 w = w"
| "schedule (Suc n) w =
     (let i = length w; a = w ! (i - 15); b = w ! (i - 2);
          s0 = rotr 7 a XOR rotr 18 a XOR drop_bit 3 a;
          s1 = rotr 17 b XOR rotr 19 b XOR drop_bit 10 b
      in schedule n (w @ [w ! (i - 16) + s0 + w ! (i - 7) + s1]))"

fun sha_round :: "32 word list \<Rightarrow> 32 word \<times> 32 word \<Rightarrow> 32 word list" where
  "sha_round [a, b, c, d, e, f, g, h] (k, w) =
     (let s1 = rotr 6 e XOR rotr 11 e XOR rotr 25 e;
          ch = (e AND f) XOR (NOT e AND g);
          t1 = h + s1 + ch + k + w;
          s0 = rotr 2 a XOR rotr 13 a XOR rotr 22 a;
          maj = (a AND b) XOR (a AND c) XOR (b AND c)
      in [t1 + s0 + maj, a, b, c, d + t1, e, f, g])"
| "sha_round st _ = st"

definition sha_block :: "32 word list \<Rightarrow> string \<Rightarrow> 32 word list" where
  "sha_block st block =
     map2 (+) st (foldl sha_round st (zip sha_k (schedule 48 (map be_word (chunks 4 block)))))"

definition sha256 :: "string \<Rightarrow> string" where
  "sha256 m = concat (map (\<lambda>w. be_bytes 4 (unat w)) (foldl sha_block sha_init (chunks 64 (sha_pad m))))"

lemma sha_round_length [simp]: "length (sha_round st kw) = length st"
  by (cases "(st, kw)" rule: sha_round.cases) (simp_all add: Let_def)

lemma foldl_sha_round_length [simp]: "length (foldl sha_round st kws) = length st"
  by (induction kws arbitrary: st) simp_all

lemma sha_block_length [simp]: "length (sha_block st b) = length st"
  by (simp add: sha_block_def)

lemma foldl_sha_block_length [simp]: "length (foldl sha_block st bs) = length st"
  by (induction bs arbitrary: st) simp_all

lemma be_bytes_length [simp]: "length (be_bytes k x) = k"
  by (simp add: be_bytes_def)

lemma length_concat_uniform: "(\<And>x. length (f x) = k) \<Longrightarrow> length (concat (map f xs)) = k * length xs"
  by (induction xs) simp_all

lemma sha256_length [simp]: "length (sha256 m) = 32"
  by (simp add: sha256_def length_concat_uniform sha_init_def)

section \<open>HMAC\<close>

definition xor_bytes :: "string \<Rightarrow> string \<Rightarrow> string" where
  "xor_bytes = map2 (\<lambda>a b. char_of ((of_char a :: nat) XOR of_char b))"

definition hmac_key :: "string \<Rightarrow> string" where
  "hmac_key key = (let k = if 64 < length key then sha256 key else key
                   in k @ replicate (64 - length k) (char_of (0 :: nat)))"

definition hmac_sha256 :: "string \<Rightarrow> string \<Rightarrow> string" where
  "hmac_sha256 key m =
     sha256 (xor_bytes (hmac_key key) (replicate 64 (char_of (0x5c :: nat))) @
       sha256 (xor_bytes (hmac_key key) (replicate 64 (char_of (0x36 :: nat))) @ m))"

lemma hmac_length [simp]: "length (hmac_sha256 key m) = 32"
  by (simp add: hmac_sha256_def)

section \<open>Hexadecimal\<close>

definition hex_digits :: string where
  "hex_digits = ''0123456789abcdef''"

definition hex_encode :: "string \<Rightarrow> string" where
  "hex_encode bs = concat (map (\<lambda>c. let n = of_char c :: nat in [hex_digits ! (n div 16), hex_digits ! (n mod 16)]) bs)"

lemma hex_encode_length [simp]: "length (hex_encode bs) = 2 * length bs"
  by (simp add: hex_encode_def length_concat_uniform Let_def)

lemma hex_digits_set: "i < 16 \<Longrightarrow> hex_digits ! i \<in> set hex_digits"
  by (rule nth_mem) (simp add: hex_digits_def)

lemma hex_encode_set: "set (hex_encode bs) \<subseteq> set hex_digits"
proof -
  have "of_char c div 16 < (16::nat)" for c
    using nat_of_char_less_256[of c] by (simp add: less_mult_imp_div_less)
  then show ?thesis by (auto simp: hex_encode_def Let_def hex_digits_set)
qed

lemma hex_digits_plain: "c \<in> set hex_digits \<Longrightarrow> plain_char c \<and> c \<noteq> CHR '','' \<and> c \<noteq> CHR ''_'' \<and> c \<noteq> CHR '' ''"
  by (auto simp: hex_digits_def plain_char_def)

lemma hex_encode_clean:
  "c \<in> set (hex_encode bs) \<Longrightarrow> plain_char c \<and> c \<noteq> CHR '','' \<and> c \<noteq> CHR ''_'' \<and> c \<noteq> CHR '' ''"
  using hex_encode_set hex_digits_plain by blast

text \<open>Different bytes have different encodings.\<close>

lemma hex_digits_inj: "i < 16 \<Longrightarrow> j < 16 \<Longrightarrow> hex_digits ! i = hex_digits ! j \<Longrightarrow> i = j"
  by (rule nth_eq_iff_index_eq[THEN iffD1, of hex_digits]) (simp_all add: hex_digits_def)

lemma hex_encode_inj: "hex_encode as = hex_encode bs \<Longrightarrow> as = bs"
proof (induction as arbitrary: bs)
  case Nil
  then show ?case by (cases bs) (simp_all add: hex_encode_def Let_def)
next
  case (Cons a as)
  have div16: "of_char c div 16 < (16::nat)" for c
    using nat_of_char_less_256[of c] by (simp add: less_mult_imp_div_less)
  from Cons.prems obtain b bs' where bs: "bs = b # bs'"
    by (cases bs) (simp_all add: hex_encode_def Let_def)
  from Cons.prems bs have "hex_digits ! (of_char a div 16) = hex_digits ! (of_char b div 16)"
    and "hex_digits ! (of_char a mod 16) = hex_digits ! (of_char b mod 16)"
    and rest: "hex_encode as = hex_encode bs'"
    by (simp_all add: hex_encode_def Let_def)
  then have "(of_char a :: nat) div 16 = of_char b div 16" and "(of_char a :: nat) mod 16 = of_char b mod 16"
    by (blast intro: hex_digits_inj div16 mod_less_divisor zero_less_numeral)+
  then have "(of_char a :: nat) = of_char b" by (metis mult_div_mod_eq)
  then show ?case using bs Cons.IH[OF rest] by simp
qed

end
