(* ===== verification/Signing.thy ===== *)
theory Signing
  imports Sha256 Stores
begin

text \<open>
  Request authentication: \<open>internal/signing/signing.go\<close>, the editor the CLI signs its requests with
  (\<open>internal/cli/client/client.go\<close>) and the middleware that checks them
  (\<open>internal/server/middleware/auth.go\<close>). \<open>time.Format\<close> and \<open>time.Parse\<close> are parameters; times
  are nanoseconds. The middleware is the list of calls it makes on the gin context; what gin
  does on \<open>Abort\<close> followed by \<open>Next\<close> is a hypothesis on the parameter \<open>gin\<close>.
\<close>

section \<open>signing.go\<close>

definition hashBytes :: "string \<Rightarrow> string" where
  "hashBytes bytes = hex_encode (sha256 bytes)"

definition canonical :: "string \<Rightarrow> string \<Rightarrow> string \<Rightarrow> string \<Rightarrow> string" where
  "canonical meth path body timestamp = meth @ ''_'' @ path @ ''_'' @ hashBytes body @ ''_'' @ timestamp"

definition Sign :: "string \<Rightarrow> string \<Rightarrow> string \<Rightarrow> string \<Rightarrow> string \<Rightarrow> string" where
  "Sign meth path body timestamp secretKey =
     hex_encode (hmac_sha256 secretKey (sha256 (canonical meth path body timestamp)))"

lemma Sign_length [simp]: "length (Sign m p b t k) = 64"
  by (simp add: Sign_def)

lemma hashBytes_length [simp]: "length (hashBytes b) = 64"
  by (simp add: hashBytes_def)

lemma Sign_clean: "c \<in> set (Sign m p b t k) \<Longrightarrow> plain_char c \<and> c \<noteq> CHR '','' \<and> c \<noteq> CHR '' ''"
  using hex_encode_clean by (auto simp: Sign_def)

lemma split_at_first_sep:
  "c \<notin> set u \<Longrightarrow> c \<notin> set u' \<Longrightarrow> u @ c # v = u' @ c # v' \<Longrightarrow> u = u' \<and> v = v'"
proof (induction u arbitrary: u')
  case Nil
  then show ?case by (cases u') auto
next
  case (Cons a u)
  then show ?case by (cases u') auto
qed

lemma split_at_last_sep:
  assumes "c \<notin> set v" and "c \<notin> set v'" and "u @ c # v = u' @ c # v'"
  shows "u = u' \<and> v = v'"
proof -
  from assms(3) have "rev v @ c # rev u = rev v' @ c # rev u'"
    by (metis append_Cons append_assoc append_Nil rev.simps(2) rev_append)
  then show ?thesis using split_at_first_sep[of c "rev v" "rev v'" "rev u" "rev u'"] assms(1,2) by simp
qed

text \<open>
  The canonical text that is signed determines the request: two requests whose methods and
  timestamps have no underscore and whose canonical texts agree have the same method, path,
  timestamp and body digest, whatever underscores the paths contain.
\<close>

theorem canonical_unambiguous:
  assumes "CHR ''_'' \<notin> set m" and "CHR ''_'' \<notin> set m'" and "CHR ''_'' \<notin> set t" and "CHR ''_'' \<notin> set t'"
    and "canonical m p b t = canonical m' p' b' t'"
  shows "m = m' \<and> p = p' \<and> t = t' \<and> sha256 b = sha256 b'"
proof -
  have "m @ CHR ''_'' # (p @ ''_'' @ hashBytes b @ ''_'' @ t) =
        m' @ CHR ''_'' # (p' @ ''_'' @ hashBytes b' @ ''_'' @ t')"
    using assms(5) by (simp add: canonical_def)
  then have m: "m = m'" and rest: "p @ ''_'' @ hashBytes b @ ''_'' @ t = p' @ ''_'' @ hashBytes b' @ ''_'' @ t'"
    using split_at_first_sep[OF assms(1,2)] by blast+
  have "(p @ ''_'' @ hashBytes b) @ CHR ''_'' # t = (p' @ ''_'' @ hashBytes b') @ CHR ''_'' # t'"
    using rest by simp
  then have t: "t = t'" and rest2: "p @ ''_'' @ hashBytes b = p' @ ''_'' @ hashBytes b'"
    using split_at_last_sep[OF assms(3,4)] by blast+
  from rest2 have "p @ ''_'' = p' @ ''_''" and "hashBytes b = hashBytes b'"
    using append_eq_append_conv[of "hashBytes b" "hashBytes b'" "p @ ''_''" "p' @ ''_''"] by simp_all
  then show ?thesis using m t by (simp add: hashBytes_def hex_encode_inj)
qed

theorem canonical_unambiguous_witness:
  "CHR ''_'' \<notin> set ''GET'' \<and> sha256 ''b'' = sha256 ''b''"
  using canonical_unambiguous[of "''GET''" "''GET''" "''t''" "''t''" "''/a_b''" "''b''" "''/a_b''" "''b''"] by simp

section \<open>client.go\<close>

definition auth_header :: "string \<Rightarrow> string \<Rightarrow> string" where
  "auth_header authID sig = ''HMAC-SHA256 Credential='' @ authID @ '', Signature='' @ sig"

record request =
  rq_full_path :: string
  rq_method :: string
  rq_path :: string
  rq_authorization :: string
  rq_date :: string
  rq_body :: "string option"

text \<open>
  The editor sets the two headers of the request it is given; a body it cannot read is an error,
  and the missing body of a GET is the empty one.
\<close>

definition signingEditor :: "(int \<Rightarrow> string) \<Rightarrow> string \<Rightarrow> string \<Rightarrow> int \<Rightarrow> request \<Rightarrow> request option" where
  "signingEditor fmt authID secretKey now req =
     (case rq_body req of
        None \<Rightarrow> None
      | Some body \<Rightarrow>
          let timestamp = fmt now;
              sig = Sign (rq_method req) (rq_path req) body timestamp secretKey
          in Some (req\<lparr>rq_authorization := auth_header authID sig, rq_date := timestamp\<rparr>))"

section \<open>auth.go\<close>

definition isPublic :: "string \<Rightarrow> bool" where
  "isPublic path \<longleftrightarrow> path = ''/health'' \<or> has_prefix path ''/execute/''"

fun header_params :: "string list \<Rightarrow> (string \<rightharpoonup> string) \<Rightarrow> (string \<rightharpoonup> string) option" where
  "header_params [] params = Some params"
| "header_params (part # parts) params =
     (case str_cut part ''='' of
        (k, v, ok) \<Rightarrow> if ok then header_params parts (params(str_trim_space k \<mapsto> str_trim_space v)) else None)"

definition map_get :: "(string \<rightharpoonup> string) \<Rightarrow> string \<Rightarrow> string" where
  "map_get m k = (case m k of None \<Rightarrow> '''' | Some v \<Rightarrow> v)"

definition parseAuthHeader :: "string \<Rightarrow> (string \<times> string) option" where
  "parseAuthHeader header =
     (let scheme = ''HMAC-SHA256 '' in
      if \<not> has_prefix header scheme then None
      else case header_params (str_split (drop (length scheme) header) '', '') (\<lambda>_. None) of
             None \<Rightarrow> None
           | Some params \<Rightarrow>
               let credential = map_get params ''Credential''; signature = map_get params ''Signature'' in
               if credential = '''' \<or> signature = '''' then None else Some (credential, signature))"

text \<open>\<open>time.Duration\<close>: \<open>Sub\<close> saturates at the bounds of an int64, and so does \<open>Abs\<close>.\<close>

definition time_sub :: "int \<Rightarrow> int \<Rightarrow> int" where
  "time_sub t u = max (- (2 ^ 63)) (min (2 ^ 63 - 1) (t - u))"

definition duration_abs :: "int \<Rightarrow> int" where
  "duration_abs d = (if 0 \<le> d then d else if d = - (2 ^ 63) then 2 ^ 63 - 1 else - d)"

definition max_skew :: int where
  "max_skew = 15 * 60 * 10 ^ 9"

datatype key_error = KeyNotFound | KeyStoreFailed

datatype auth_call = AbortJSON nat | AbortStatus nat | SetUser uuid | CallNext

definition credentials_of :: "request \<Rightarrow> string \<times> string \<times> bool" where
  "credentials_of r = (case parseAuthHeader (rq_authorization r) of
     None \<Rightarrow> ('''', '''', False) | Some (c, s) \<Rightarrow> (c, s, True))"

definition stale :: "(string \<Rightarrow> int option) \<Rightarrow> int \<Rightarrow> request \<Rightarrow> bool" where
  "stale parse now r = (case parse (rq_date r) of
     None \<Rightarrow> True | Some t \<Rightarrow> max_skew < duration_abs (time_sub now t))"

definition RequireAuth ::
  "(string \<Rightarrow> int option) \<Rightarrow> (string \<Rightarrow> key_error + key_row) \<Rightarrow> int \<Rightarrow> request \<Rightarrow> auth_call list" where
  "RequireAuth parse store now r =
     (if isPublic (rq_full_path r) then [CallNext]
      else case credentials_of r of
        (credential, signature, ok) \<Rightarrow>
          (if ok then [] else [AbortJSON 401]) @
          (if stale parse now r then [AbortJSON 401] else []) @
          (case store credential of
             Inl KeyNotFound \<Rightarrow> [AbortJSON 401, AbortStatus 500]
           | Inl KeyStoreFailed \<Rightarrow> [AbortStatus 500]
           | Inr authKey \<Rightarrow>
               (case rq_body r of
                  None \<Rightarrow> [AbortStatus 500]
                | Some body \<Rightarrow>
                    let expected = Sign (rq_method r) (rq_path r) body (rq_date r) (k_secret authKey) in
                    (if expected = signature then [] else [AbortJSON 401]) @
                    [SetUser (k_user authKey), CallNext])))"

fun is_abort :: "auth_call \<Rightarrow> bool" where
  "is_abort (AbortJSON _) = True"
| "is_abort (AbortStatus _) = True"
| "is_abort _ = False"

text \<open>
  gin's documented contract: after \<open>Abort\<close> no pending handler runs, so the handlers behind the
  middleware run only at a \<open>Next\<close> with no abort before it.
\<close>

definition abort_stops :: "(auth_call list \<Rightarrow> bool) \<Rightarrow> bool" where
  "abort_stops gin \<longleftrightarrow>
     (\<forall>calls. gin calls \<longrightarrow> (\<exists>pre post. calls = pre @ CallNext # post \<and> \<not> list_ex is_abort pre))"

section \<open>The header is read back\<close>

lemma str_index_at:
  assumes "sep = c # sep'" and "c \<notin> set u"
  shows "str_index (u @ sep @ v) sep = Some (length u)"
  using assms by (induction u) auto

lemma str_cut_at: "c \<notin> set u \<Longrightarrow> str_cut (u @ c # v) [c] = (u, v, True)"
  using str_index_at[of "[c]" c "[]" u v] by (simp add: str_cut_def)

lemma str_split_at:
  assumes "sep = c # sep'" and "c \<notin> set u"
  shows "str_split (u @ sep @ v) sep = u # str_split v sep"
  using str_index_at[OF assms, of v] assms by (subst str_split.simps) simp

lemma str_split_idle:
  assumes "sep = c # sep'" and "c \<notin> set u"
  shows "str_split u sep = [u]"
proof -
  have "str_index u sep = None" using assms by (induction u) auto
  then show ?thesis using assms by (subst str_split.simps) simp
qed

definition token :: "string \<Rightarrow> bool" where
  "token s \<longleftrightarrow> s \<noteq> [] \<and> list_all (\<lambda>c. plain_char c \<and> c \<noteq> CHR '','') s"

lemma token_trim: "token s \<Longrightarrow> str_trim_space s = s"
  using str_trim_space_plain[of s] hd_in_set[of s] last_in_set[of s] by (simp add: token_def list_all_iff)

lemma token_no_comma: "token s \<Longrightarrow> CHR '','' \<notin> set s"
  by (auto simp: token_def list_all_iff)

lemma Sign_token: "token (Sign m p b t k)"
  using Sign_clean Sign_length[of m p b t k]
  by (auto simp: token_def list_all_iff simp del: Sign_length)

lemma auth_header_roundtrip_any:
  assumes "token authID" and "token sig"
  shows "parseAuthHeader (auth_header authID sig) = Some (authID, sig)"
proof -
  define a b where "a = ''Credential='' @ authID" and "b = ''Signature='' @ sig"
  have "CHR '','' \<notin> set a" and "CHR '','' \<notin> set b"
    using token_no_comma assms by (simp_all add: a_def b_def)
  then have split: "str_split (a @ '', '' @ b) '', '' = [a, b]"
    using str_split_at[of "'', ''" "CHR '',''" "'' ''" a b] str_split_idle[of "'', ''" "CHR '',''" "'' ''" b] by simp
  have cut: "str_cut a ''='' = (''Credential'', authID, True)" "str_cut b ''='' = (''Signature'', sig, True)"
    using str_cut_at[of "CHR ''=''" "''Credential''" authID] str_cut_at[of "CHR ''=''" "''Signature''" sig]
    by (simp_all add: a_def b_def)
  have trim: "str_trim_space ''Credential'' = ''Credential''" "str_trim_space ''Signature'' = ''Signature''"
    by (rule token_trim, code_simp)+
  have params: "header_params [a, b] (\<lambda>_. None) = Some ((\<lambda>_. None)(''Credential'' \<mapsto> authID, ''Signature'' \<mapsto> sig))"
    by (simp only: header_params.simps cut trim token_trim[OF assms(1)] token_trim[OF assms(2)]
        prod.case if_True)
  have "auth_header authID sig = ''HMAC-SHA256 '' @ (a @ '', '' @ b)" by (simp add: auth_header_def a_def b_def)
  moreover have "has_prefix (''HMAC-SHA256 '' @ x) ''HMAC-SHA256 ''"
    and "drop (length ''HMAC-SHA256 '') (''HMAC-SHA256 '' @ x) = x" for x
    by (simp_all add: has_prefix_def)
  ultimately show ?thesis
    using assms by (simp only: parseAuthHeader_def Let_def split params option.case) (simp add: map_get_def token_def)
qed

text \<open>
  What the client writes into the Authorization header is what the server reads out of it, for
  every credential and signature of printable characters without a comma.
\<close>

theorem auth_header_roundtrip:
  assumes "token authID" and "token sig"
  shows "parseAuthHeader (auth_header authID sig) = Some (authID, sig)"
  using assms by (rule auth_header_roundtrip_any)

theorem auth_header_roundtrip_witness:
  "parseAuthHeader (auth_header ''key-1'' ''0a=b'') = Some (''key-1'', ''0a=b'')"
  by (rule auth_header_roundtrip) code_simp+

section \<open>What the middleware lets through\<close>

lemma stale_iff:
  "stale parse now r \<longleftrightarrow> (case parse (rq_date r) of None \<Rightarrow> True | Some t \<Rightarrow> max_skew < \<bar>now - t\<bar>)"
  by (simp add: stale_def time_sub_def duration_abs_def max_skew_def max_def min_def split: option.splits)

lemma next_only_after_abort:
  "RequireAuth parse store now r = pre @ CallNext # post \<Longrightarrow> \<not> list_ex is_abort pre \<Longrightarrow>
   isPublic (rq_full_path r) \<or> \<not> list_ex is_abort (RequireAuth parse store now r)"
  by (auto simp: RequireAuth_def Let_def append_eq_append_conv2 Cons_eq_append_conv append_eq_Cons_conv
      split: prod.splits if_splits sum.splits key_error.splits option.splits)

lemma accepted_trace:
  assumes "\<not> isPublic (rq_full_path r)" and "\<not> list_ex is_abort (RequireAuth parse store now r)"
  obtains credential t k body where
    "parseAuthHeader (rq_authorization r) =
       Some (credential, Sign (rq_method r) (rq_path r) body (rq_date r) (k_secret k))"
    "parse (rq_date r) = Some t" "\<bar>now - t\<bar> \<le> max_skew" "store credential = Inr k" "rq_body r = Some body"
    "RequireAuth parse store now r = [SetUser (k_user k), CallNext]"
  using assms
  by (auto simp: RequireAuth_def credentials_of_def stale_iff Let_def
      split: prod.splits if_splits sum.splits key_error.splits option.splits)

text \<open>
  The handlers behind the middleware run for a route that is not public only when the header
  names a key of the store, the date is within 15 minutes of the server's clock, and the
  signature is the one that key's secret gives the method, path, body and date of the request;
  then the user of the request is the user of the key.
\<close>

theorem handlers_run_authenticated:
  assumes "abort_stops gin" and "\<not> isPublic (rq_full_path r)" and "gin (RequireAuth parse store now r)"
  shows "\<exists>credential t k body.
     parseAuthHeader (rq_authorization r) =
       Some (credential, Sign (rq_method r) (rq_path r) body (rq_date r) (k_secret k)) \<and>
     parse (rq_date r) = Some t \<and> \<bar>now - t\<bar> \<le> max_skew \<and> store credential = Inr k \<and> rq_body r = Some body \<and>
     RequireAuth parse store now r = [SetUser (k_user k), CallNext]"
proof -
  from assms(1,3) obtain pre post
    where "RequireAuth parse store now r = pre @ CallNext # post" "\<not> list_ex is_abort pre"
    unfolding abort_stops_def by blast
  then have "\<not> list_ex is_abort (RequireAuth parse store now r)"
    using next_only_after_abort assms(2) by blast
  then show ?thesis using accepted_trace[OF assms(2)] by metis
qed

lemma signed_accepted:
  assumes "signingEditor fmt authID (k_secret k) sent req = Some r"
    and "token authID" and "store authID = Inr k"
    and "parse (fmt sent) = Some t" and "\<bar>now - t\<bar> \<le> max_skew" and "\<not> isPublic (rq_full_path req)"
  shows "RequireAuth parse store now r = [SetUser (k_user k), CallNext]"
proof -
  from assms(1) obtain body where body: "rq_body req = Some body"
    and r: "r = req\<lparr>rq_authorization := auth_header authID
             (Sign (rq_method req) (rq_path req) body (fmt sent) (k_secret k)), rq_date := fmt sent\<rparr>"
    by (auto simp: signingEditor_def Let_def split: option.splits)
  have "credentials_of r = (authID, Sign (rq_method req) (rq_path req) body (fmt sent) (k_secret k), True)"
    using auth_header_roundtrip_any[OF assms(2) Sign_token] by (simp add: credentials_of_def r)
  moreover have "\<not> stale parse now r" using assms(4,5) by (simp add: stale_iff r)
  ultimately show ?thesis using assms(3,6) body by (simp add: RequireAuth_def r Let_def)
qed

text \<open>
  A request the CLI signed with a key the server stores is accepted under the key's user,
  when the two clocks are at most 15 minutes apart and the path arrives as it was sent.
\<close>

theorem signed_request_accepted:
  assumes "signingEditor fmt authID (k_secret k) sent req = Some r"
    and "token authID" and "store authID = Inr k"
    and "parse (fmt sent) = Some t" and "\<bar>now - t\<bar> \<le> max_skew" and "\<not> isPublic (rq_full_path req)"
  shows "RequireAuth parse store now r = [SetUser (k_user k), CallNext]"
  using signed_accepted[of fmt authID k sent req r store parse t now] assms by blast

text \<open>
  The checks of the middleware do not return: a request whose date is outside the window takes
  the same further steps as one whose date is the server's own, the key lookup and, with a good
  signature, \<open>Set\<close> and \<open>Next\<close> included; only the abort recorded before them differs.
\<close>

theorem stale_request_not_stopped:
  assumes "\<not> isPublic (rq_full_path r)" and "credentials_of r = (credential, signature, True)"
    and "stale parse now r" and "\<not> stale parse now' r"
  shows "RequireAuth parse store now r = AbortJSON 401 # RequireAuth parse store now' r"
  using assms by (simp add: RequireAuth_def)

section \<open>Witnesses\<close>

definition sample_request :: request where
  "sample_request = \<lparr>rq_full_path = ''/functions'', rq_method = ''GET'', rq_path = ''/functions'',
     rq_authorization = '''', rq_date = '''', rq_body = Some ''''\<rparr>"

definition sample_key :: key_row where
  "sample_key = \<lparr>k_auth_id = ''key-1'', k_user = 1, k_secret = ''s''\<rparr>"

definition sample_signed :: request where
  "sample_signed = the (signingEditor (\<lambda>_. ''2026-01-01'') ''key-1'' ''s'' 0 sample_request)"

lemma sample_signed_some: "signingEditor (\<lambda>_. ''2026-01-01'') ''key-1'' ''s'' 0 sample_request = Some sample_signed"
  by (simp add: sample_signed_def signingEditor_def sample_request_def Let_def)

lemma sample_private: "\<not> isPublic (rq_full_path sample_request)" "\<not> isPublic (rq_full_path sample_signed)"
  by (simp_all add: sample_signed_def signingEditor_def sample_request_def Let_def isPublic_def has_prefix_def)

lemma sample_token: "token ''key-1''"
  by code_simp

fun sample_gin :: "auth_call list \<Rightarrow> bool" where
  "sample_gin [] = False"
| "sample_gin (c # cs) = (\<not> is_abort c \<and> (c = CallNext \<or> sample_gin cs))"

lemma sample_gin_stops: "abort_stops sample_gin"
proof -
  have "sample_gin calls \<Longrightarrow> \<exists>pre post. calls = pre @ CallNext # post \<and> \<not> list_ex is_abort pre" for calls
  proof (induction calls)
    case (Cons c cs)
    show ?case
    proof (cases "c = CallNext")
      case True
      then show ?thesis by (intro exI[of _ "[]"] exI[of _ cs]) simp
    next
      case False
      then obtain pre post where "cs = pre @ CallNext # post" "\<not> list_ex is_abort pre"
        using Cons by auto
      then show ?thesis using Cons.prems by (intro exI[of _ "c # pre"] exI[of _ post]) simp
    qed
  qed simp
  then show ?thesis by (simp add: abort_stops_def)
qed

theorem signed_request_accepted_witness:
  "RequireAuth (\<lambda>_. Some 0) (\<lambda>_. Inr sample_key) 60 sample_signed = [SetUser 1, CallNext]"
  using signed_request_accepted[of "\<lambda>_. ''2026-01-01''" "''key-1''" sample_key 0 sample_request sample_signed
      "\<lambda>_. Inr sample_key" "\<lambda>_. Some 0" 0 60] sample_signed_some sample_private sample_token
  by (simp add: sample_key_def max_skew_def)

lemma sample_accepted:
  "RequireAuth (\<lambda>_. Some 0) (\<lambda>_. Inr sample_key) 60 sample_signed = [SetUser 1, CallNext]"
proof -
  have "credentials_of sample_signed = (''key-1'', Sign ''GET'' ''/functions'' '''' ''2026-01-01'' ''s'', True)"
    using auth_header_roundtrip_any[OF sample_token Sign_token]
    by (simp add: credentials_of_def sample_signed_def signingEditor_def sample_request_def Let_def)
  then show ?thesis using sample_private
    by (simp add: RequireAuth_def stale_iff max_skew_def sample_key_def Let_def)
       (simp add: sample_signed_def signingEditor_def sample_request_def Let_def)
qed

theorem handlers_run_authenticated_witness:
  "\<exists>credential t k body.
     parseAuthHeader (rq_authorization sample_signed) =
       Some (credential, Sign (rq_method sample_signed) (rq_path sample_signed) body (rq_date sample_signed) (k_secret k)) \<and>
     (\<lambda>_. Some 0) (rq_date sample_signed) = Some t \<and> \<bar>60 - t\<bar> \<le> max_skew \<and> Inr sample_key = (Inr k :: key_error + key_row) \<and>
     rq_body sample_signed = Some body \<and>
     RequireAuth (\<lambda>_. Some 0) (\<lambda>_. Inr sample_key) 60 sample_signed = [SetUser (k_user k), CallNext]"
  by (rule handlers_run_authenticated[OF sample_gin_stops sample_private(2)]) (simp add: sample_accepted)

theorem stale_request_not_stopped_witness:
  "RequireAuth (\<lambda>_. Some 0) (\<lambda>_. Inr sample_key) (max_skew + 1) sample_signed =
     AbortJSON 401 # RequireAuth (\<lambda>_. Some 0) (\<lambda>_. Inr sample_key) 0 sample_signed"
proof (rule stale_request_not_stopped[OF sample_private(2)])
  show "credentials_of sample_signed = (''key-1'', Sign ''GET'' ''/functions'' '''' ''2026-01-01'' ''s'', True)"
    using auth_header_roundtrip_any[OF sample_token Sign_token]
    by (simp add: credentials_of_def sample_signed_def signingEditor_def sample_request_def Let_def)
qed (simp_all add: stale_iff max_skew_def)

end
