(* ===== verification/Handlers.thy ===== *)
theory Handlers
  imports Events VmService InvocationLogs Signing "HOL-Library.Multiset"
begin

text \<open>
  The HTTP handlers of the server (\<open>internal/server/handler\<close>), the error values of \<open>apperr\<close> and the
  message \<open>vmexecutepublisher\<close> sends for an execution. A handler returns a reply or an error, or
  panics; both end as a response of status 500 (\<open>ApiServer\<close> has the layer that writes it). The
  authenticated user is the value the middleware set in the context, if any.
\<close>

section \<open>Replies\<close>

datatype handler_error =
    NoUser | StoreError store_error | PayloadInvalid | PayloadTooLarge | BadUuid | NoDrivePath
  | PublishFailed | PartFailed | NoFilePart | ObjectUploadFailed | LogsUnavailable
  | AppError nat string

datatype 'a reply = Reply nat 'a | Error handler_error | Panic

text \<open>
  What \<open>registerRoutes\<close> installs for a response that cannot be written: an \<open>apperr.Error\<close> carries its
  status, any other error is answered with 500. The errors handlers return do not come here: they go to
  \<open>HandlerErrorFunc\<close>, which \<open>registerRoutes\<close> leaves at its default, 500 for every error.
\<close>

fun error_response :: "handler_error \<Rightarrow> nat \<times> string" where
  "error_response (AppError status msg) = (status, msg)"
| "error_response _ = (500, ''internal server error'')"

definition ErrNotFound :: handler_error where "ErrNotFound = AppError 404 ''not found''"
definition ErrUnauthorized :: handler_error where "ErrUnauthorized = AppError 401 ''unauthorized''"

fun response_status :: "'a reply \<Rightarrow> nat" where
  "response_status (Reply status _) = status"
| "response_status (Error e) = 500"
| "response_status Panic = 500"

definition GetHealth :: "string reply" where
  "GetHealth = Reply 200 ''ok''"

section \<open>upload.go\<close>

text \<open>A multipart body: the form and file names of its parts, \<open>None\<close> where \<open>NextPart\<close> fails.\<close>

record part =
  pt_form :: string
  pt_file :: string

fun ParseUploadedFile :: "part option list \<Rightarrow> handler_error + string" where
  "ParseUploadedFile [] = Inl NoFilePart"
| "ParseUploadedFile (None # ps) = Inl PartFailed"
| "ParseUploadedFile (Some p # ps) =
     (if pt_form p = ''function''
      then Inr (if pt_file p = '''' then ''unknown.tar.gz'' else pt_file p)
      else ParseUploadedFile ps)"

definition UploadFile ::
  "(uuid \<Rightarrow> string) \<Rightarrow> uuid \<Rightarrow> (string \<Rightarrow> string \<Rightarrow> bool) \<Rightarrow> string \<Rightarrow> string \<Rightarrow> handler_error + string" where
  "UploadFile ustr fresh putObject filename bucketName =
     (let objectName = ustr fresh @ ''-'' @ filename in
      if putObject bucketName objectName then Inr objectName else Inl ObjectUploadFailed)"

record uploaded =
  up_reply :: "uuid reply"
  up_object :: "string option"
  up_bus :: "event bus"
  up_db :: pg

definition UploadLambda ::
  "(uuid \<Rightarrow> string) \<Rightarrow> uuid \<Rightarrow> uuid \<Rightarrow> timestamp \<Rightarrow> (string \<Rightarrow> string \<Rightarrow> bool) \<Rightarrow> string \<Rightarrow>
   uuid option \<Rightarrow> part option list \<Rightarrow> event bus \<Rightarrow> pg \<Rightarrow> uploaded" where
  "UploadLambda ustr freshObject freshFunction now putObject bucketName user body bus s =
     (case user of
        None \<Rightarrow> \<lparr>up_reply = Error NoUser, up_object = None, up_bus = bus, up_db = s\<rparr>
      | Some userUUID \<Rightarrow>
          (case ParseUploadedFile body of
             Inl e \<Rightarrow> \<lparr>up_reply = Error e, up_object = None, up_bus = bus, up_db = s\<rparr>
           | Inr filename \<Rightarrow>
               (case UploadFile ustr freshObject putObject filename bucketName of
                  Inl e \<Rightarrow> \<lparr>up_reply = Error e, up_object = None, up_bus = bus, up_db = s\<rparr>
                | Inr objectName \<Rightarrow>
                    (case create_function freshFunction userUUID FnQuarantined objectName s of
                       (Inl e, s') \<Rightarrow> \<lparr>up_reply = Error (StoreError e), up_object = Some objectName, up_bus = bus, up_db = s'\<rparr>
                     | (Inr f, s') \<Rightarrow>
                         \<lparr>up_reply = Reply 200 (f_id f), up_object = Some objectName,
                          up_bus = Publish \<lparr>ev_function = f_id f, ev_user = f_user f, ev_bucket = bucketName,
                                            ev_path = f_archive_path f, ev_time = now\<rparr> bus,
                          up_db = s'\<rparr>))))"

section \<open>execute.go\<close>

definition MaxPayloadSize :: nat where
  "MaxPayloadSize = 1024 * 1024"

text \<open>\<open>json.Marshal\<close> of the body, \<open>None\<close> when it fails.\<close>

definition validatePayload :: "string option \<Rightarrow> handler_error + string" where
  "validatePayload body =
     (case body of
        None \<Rightarrow> Inl PayloadInvalid
      | Some payloadBytes \<Rightarrow>
          if length payloadBytes > MaxPayloadSize then Inl PayloadTooLarge else Inr payloadBytes)"

definition ExecuteLambda ::
  "(string \<Rightarrow> uuid option) \<Rightarrow> uuid \<Rightarrow> timestamp \<Rightarrow> (execute_message \<Rightarrow> bool) \<Rightarrow>
   string option \<Rightarrow> string \<Rightarrow> pg \<Rightarrow> unit reply \<times> execute_message option \<times> pg" where
  "ExecuteLambda parseUuid fresh now publish body function_id s =
     (case validatePayload body of
        Inl e \<Rightarrow> (Error e, None, s)
      | Inr payload \<Rightarrow>
          (case parseUuid function_id of
             None \<Rightarrow> (Error BadUuid, None, s)
           | Some functionId \<Rightarrow>
               (case get_function_by_id functionId s of
                  (Inl e, s1) \<Rightarrow> (Error (StoreError e), None, s1)
                | (Inr f, s1) \<Rightarrow>
                    (case create_invocation fresh (f_id f) now s1 of
                       (Inl e, s2) \<Rightarrow> (Error (StoreError e), None, s2)
                     | (Inr created, s2) \<Rightarrow>
                         (case f_drive_path f of
                            None \<Rightarrow> (Error NoDrivePath, None, s2)
                          | Some drive \<Rightarrow>
                              let m = \<lparr>em_invocation = i_id created, em_code_object = f_archive_path f,
                                       em_deps_object = drive, em_payload = payload\<rparr>
                              in if publish m then (Reply 200 (), Some m, s2)
                                 else (Error PublishFailed, None, s2))))))"

section \<open>getfunctions.go and getfunctionstatus.go\<close>

record function_entity =
  fe_id :: string
  fe_status :: string
  fe_last_execution :: "timestamp option"

definition createGetUserFunctionsResponse :: "(uuid \<Rightarrow> string) \<Rightarrow> func_with_latest list \<Rightarrow> function_entity list" where
  "createGetUserFunctionsResponse ustr fs =
     map (\<lambda>f. \<lparr>fe_id = ustr (l_id f), fe_status = fn_status_text (l_status f), fe_last_execution = l_inv_time f\<rparr>) fs"

definition GetUserFunctions :: "(uuid \<Rightarrow> string) \<Rightarrow> uuid option \<Rightarrow> pg \<Rightarrow> function_entity list reply \<times> pg" where
  "GetUserFunctions ustr user s =
     (case user of
        None \<Rightarrow> (Error NoUser, s)
      | Some userUUID \<Rightarrow>
          (case get_functions_by_user_with_latest userUUID s of
             (Inl e, s') \<Rightarrow> (Error (StoreError e), s')
           | (Inr fs, s') \<Rightarrow> (Reply 200 (createGetUserFunctionsResponse ustr fs), s')))"

definition GetFunctionStatus :: "uuid \<Rightarrow> pg \<Rightarrow> string reply \<times> pg" where
  "GetFunctionStatus functionId s =
     (case get_function_status_by_id functionId s of
        (Inl RowNotFound, s') \<Rightarrow> (Reply 404 ''function not found'', s')
      | (Inl _, s') \<Rightarrow> (Reply 400 ''bad request'', s')
      | (Inr st, s') \<Rightarrow> (Reply 200 st, s'))"

section \<open>getfunctioninvocations.go and invocationdetails.go\<close>

record invocation_response =
  ir_id :: uuid
  ir_status :: string
  ir_time :: timestamp
  ir_end_time :: "timestamp option"

definition createInvocationResponse :: "invoc list \<Rightarrow> invocation_response list" where
  "createInvocationResponse is =
     map (\<lambda>i. \<lparr>ir_id = i_id i, ir_status = inv_status_text (i_status i), ir_time = i_time i, ir_end_time = i_end_time i\<rparr>) is"

definition GetFunctionInvocations :: "uuid option \<Rightarrow> uuid \<Rightarrow> pg \<Rightarrow> invocation_response list reply \<times> pg" where
  "GetFunctionInvocations user functionId s =
     (case user of
        None \<Rightarrow> (Error NoUser, s)
      | Some userUUID \<Rightarrow>
          (case get_invocations_for_user_and_function userUUID functionId s of
             (Inl e, s') \<Rightarrow> (Error (StoreError e), s')
           | (Inr is, s') \<Rightarrow> (Reply 200 (createInvocationResponse is), s')))"

record details_response = invocation_response +
  dr_logs :: "log_line list"

definition extractLogs :: "(string \<Rightarrow> string option) \<Rightarrow> invoc option \<Rightarrow> log_line list option" where
  "extractLogs getObject found =
     (case Option.bind found i_log_path of
        None \<Rightarrow> Some []
      | Some path \<Rightarrow> GetLogsByInvocationId getObject path)"

text \<open>
  \<open>*foundInvocation.InvocationTime\<close> dereferences nil when no row was found: the store returns a
  zero struct without an error.
\<close>

definition GetInvocationDetails ::
  "(string \<Rightarrow> string option) \<Rightarrow> uuid option \<Rightarrow> uuid \<Rightarrow> pg \<Rightarrow> details_response reply \<times> pg" where
  "GetInvocationDetails getObject user invocationId s =
     (case user of
        None \<Rightarrow> (Error NoUser, s)
      | Some userUUID \<Rightarrow>
          (case get_invocation_details_for_user userUUID invocationId s of
             (Inl e, s') \<Rightarrow> (Error (StoreError e), s')
           | (Inr found, s') \<Rightarrow>
               (case extractLogs getObject found of
                  None \<Rightarrow> (Error LogsUnavailable, s')
                | Some logs \<Rightarrow>
                    (case found of
                       None \<Rightarrow> (Panic, s')
                     | Some i \<Rightarrow>
                         (Reply 200 \<lparr>ir_id = i_id i, ir_status = inv_status_text (i_status i),
                            ir_time = i_time i, ir_end_time = i_end_time i, dr_logs = logs\<rparr>, s')))))"

section \<open>Uploads\<close>

lemma create_function_ok:
  assumes "create_function fresh u st p s = (Inr f, s')"
  shows "f = \<lparr>f_id = fresh, f_user = u, f_status = st, f_archive_path = p, f_drive_path = None\<rparr> \<and>
    pg_functions s' = pg_functions s @ [f] \<and> (\<forall>r\<in>set (pg_functions s). f_id r \<noteq> fresh)"
  using assms by (auto simp: create_function_def db_exec_def Let_def split: list.splits if_splits)

lemma create_function_err:
  "create_function fresh u st p s = (Inl e, s') \<Longrightarrow> pg_functions s' = pg_functions s"
  by (auto simp: create_function_def db_exec_def Let_def split: list.splits if_splits)

lemma status_in_fresh:
  assumes "\<forall>r\<in>set rows. key r \<noteq> k" and "key row = k"
  shows "status_in key st (rows @ [row]) = (status_in key st rows)(k \<mapsto> st row)"
proof -
  have "key row \<notin> key ` set rows" using assms by auto
  from status_in_append_new(2)[OF this, of st] show ?thesis using assms(2) by simp
qed

lemma upload_cases:
  "let r = UploadLambda ustr freshObject freshFunction now putObject bucket user body bus s
   in case up_reply r of
      Reply st k \<Rightarrow> st = 200 \<and> k = freshFunction \<and>
        fn_status_of (up_db r) = (fn_status_of s)(k \<mapsto> FnQuarantined) \<and>
        (\<exists>u path. user = Some u \<and> up_object r = Some path \<and> putObject bucket path \<and>
           up_bus r = Publish \<lparr>ev_function = k, ev_user = u, ev_bucket = bucket, ev_path = path, ev_time = now\<rparr> bus)
    | _ \<Rightarrow> pg_functions (up_db r) = pg_functions s \<and> up_bus r = bus"
  by (auto simp: UploadLambda_def UploadFile_def Let_def fn_status_of_def
      split: option.splits sum.splits prod.splits if_splits
      dest!: create_function_ok create_function_err)
     (simp_all add: status_in_fresh)

text \<open>
  An upload is all or nothing for the function table and the event bus: a successful reply names
  a new function in status QUARANTINED whose archive path is the object just stored and whose
  quarantine event was published, and an error leaves functions and bus as they were.
\<close>

theorem upload_outcome:
  "let r = UploadLambda ustr freshObject freshFunction now putObject bucket user body bus s
   in case up_reply r of
      Reply st k \<Rightarrow> st = 200 \<and> k = freshFunction \<and>
        fn_status_of (up_db r) = (fn_status_of s)(k \<mapsto> FnQuarantined) \<and>
        (\<exists>u path. user = Some u \<and> up_object r = Some path \<and> putObject bucket path \<and>
           up_bus r = Publish \<lparr>ev_function = k, ev_user = u, ev_bucket = bucket, ev_path = path, ev_time = now\<rparr> bus)
    | _ \<Rightarrow> pg_functions (up_db r) = pg_functions s \<and> up_bus r = bus"
  by (rule upload_cases)

section \<open>Executions\<close>

lemma create_invocation_ok:
  assumes "create_invocation fresh k now s = (Inr i, s')"
  shows "i = \<lparr>i_id = fresh, i_function = k, i_status = InvPending, i_time = now, i_end_time = None, i_log_path = None\<rparr> \<and>
    pg_invocations s' = pg_invocations s @ [i] \<and> (\<forall>r\<in>set (pg_invocations s). i_id r \<noteq> fresh)"
  using assms by (auto simp: create_invocation_def db_exec_def Let_def split: list.splits if_splits)

lemma get_function_by_id_ok:
  assumes "get_function_by_id k s = (Inr f, s')"
  shows "find_function s k = Some f \<and> pg_functions s' = pg_functions s \<and>
    pg_invocations s' = pg_invocations s \<and> pg_users s' = pg_users s"
  using assms by (auto simp: get_function_by_id_def db_exec_def find_function_def
      split: list.splits if_splits option.splits)

lemma created_pending:
  "create_invocation fresh k now s = (Inr i, s') \<Longrightarrow> inv_status_of s' = (inv_status_of s)(fresh \<mapsto> InvPending)"
  by (auto dest!: create_invocation_ok simp: inv_status_of_def status_in_fresh)

lemma request_sends_pending:
  assumes "pg_wf s" and "ExecuteLambda parseUuid fresh now publish body fid s = (r, Some m, s')"
  shows "r = Reply 200 () \<and> em_invocation m = fresh \<and>
     inv_status_of s' = (inv_status_of s)(fresh \<mapsto> InvPending) \<and> pg_wf s' \<and>
     (\<exists>k f. parseUuid fid = Some k \<and> find_function s k = Some f \<and>
        em_code_object m = f_archive_path f \<and> f_drive_path f = Some (em_deps_object m)) \<and>
     body = Some (em_payload m) \<and> length (em_payload m) \<le> 1048576"
proof -
  from assms(2) obtain k f s1 i drive where
    body: "body = Some (em_payload m)" "length (em_payload m) \<le> 1048576" and
    k: "parseUuid fid = Some k" and f: "get_function_by_id k s = (Inr f, s1)" and
    i: "create_invocation fresh (f_id f) now s1 = (Inr i, s')" and
    drive: "f_drive_path f = Some drive" and
    m: "m = \<lparr>em_invocation = i_id i, em_code_object = f_archive_path f, em_deps_object = drive, em_payload = em_payload m\<rparr>"
    and r: "r = Reply 200 ()"
    by (auto simp: ExecuteLambda_def validatePayload_def MaxPayloadSize_def Let_def
        split: option.splits sum.splits prod.splits if_splits)
  note f' = get_function_by_id_ok[OF f]
  have "inv_status_of s1 = inv_status_of s" using f' by (simp add: inv_status_of_def)
  moreover have "pg_wf s'" using wf_create_invocation[of s1 fresh "f_id f" now] pg_wf_cong[of s1 s] f' assms(1) i by simp
  moreover have "i_id i = fresh" using create_invocation_ok[OF i] by simp
  ultimately show ?thesis
    using created_pending[OF i] f' body k drive r m by (metis execute_message.select_convs(1,2,3))
qed

text \<open>
  A message for the VM service is sent only with a 200 reply and after its invocation was
  stored as PENDING; it carries the archive and the drive of the function that was asked for and
  the payload as it came, and the integrity of the tables is kept.
\<close>

theorem execute_request_outcome:
  assumes "pg_wf s" and "ExecuteLambda parseUuid fresh now publish body fid s = (r, Some m, s')"
  shows "r = Reply 200 () \<and> em_invocation m = fresh \<and>
     inv_status_of s' = (inv_status_of s)(fresh \<mapsto> InvPending) \<and> pg_wf s' \<and>
     (\<exists>k f. parseUuid fid = Some k \<and> find_function s k = Some f \<and>
        em_code_object m = f_archive_path f \<and> f_drive_path f = Some (em_deps_object m)) \<and>
     body = Some (em_payload m) \<and> length (em_payload m) \<le> 1048576"
  using assms by (rule request_sends_pending)

lemma execute_message_witness:
  "ExecuteLambda (\<lambda>_. Some 7) 11 50 (\<lambda>_. True) (Some ''{}'') ''7''
     ((sample_pg FnReady InvDone)\<lparr>pg_functions :=
        [\<lparr>f_id = 7, f_user = 1, f_status = FnReady, f_archive_path = ''a'', f_drive_path = Some ''d''\<rparr>]\<rparr>) =
   (Reply 200 (), Some \<lparr>em_invocation = 11, em_code_object = ''a'', em_deps_object = ''d'', em_payload = ''{}''\<rparr>,
    (sample_pg FnReady InvDone)\<lparr>pg_functions :=
        [\<lparr>f_id = 7, f_user = 1, f_status = FnReady, f_archive_path = ''a'', f_drive_path = Some ''d''\<rparr>],
      pg_invocations := pg_invocations (sample_pg FnReady InvDone) @
        [\<lparr>i_id = 11, i_function = 7, i_status = InvPending, i_time = 50, i_end_time = None, i_log_path = None\<rparr>]\<rparr>)"
  by (simp add: ExecuteLambda_def validatePayload_def MaxPayloadSize_def get_function_by_id_def find_function_def
      create_invocation_def db_exec_def sample_pg_def Let_def)

theorem execute_request_outcome_witness:
  "inv_status_of (snd (snd (ExecuteLambda (\<lambda>_. Some 7) 11 50 (\<lambda>_. True) (Some ''{}'') ''7''
     ((sample_pg FnReady InvDone)\<lparr>pg_functions :=
        [\<lparr>f_id = 7, f_user = 1, f_status = FnReady, f_archive_path = ''a'', f_drive_path = Some ''d''\<rparr>]\<rparr>)))) 11 =
   Some InvPending"
proof -
  have "pg_wf ((sample_pg FnReady InvDone)\<lparr>pg_functions :=
        [\<lparr>f_id = 7, f_user = 1, f_status = FnReady, f_archive_path = ''a'', f_drive_path = Some ''d''\<rparr>]\<rparr>)"
    by (simp add: sample_pg_def pg_wf_def)
  from execute_request_outcome[OF this execute_message_witness] execute_message_witness
  show ?thesis by (simp del: fun_upd_apply) simp
qed

text \<open>
  Asking for a function whose environment is not prepared yet is answered with an error, but
  leaves an invocation that is PENDING forever: it is stored and no message for it is sent.
\<close>

theorem unprepared_function_leaves_pending:
  assumes "pg_wf s" and "pg_outcomes s = []" and "find_function s k = Some f" and "f_drive_path f = None"
    and "inv_status_of s fresh = None" and "length payload \<le> 1048576"
  shows "\<exists>s'. ExecuteLambda (\<lambda>_. Some k) fresh now publish (Some payload) fid s = (Error NoDrivePath, None, s') \<and>
     inv_status_of s' = (inv_status_of s)(fresh \<mapsto> InvPending)"
proof -
  have f: "f \<in> set (pg_functions s)" "f_id f = k"
    using assms(3) by (auto simp: find_function_def find_Some_iff)
  have fresh: "\<forall>r\<in>set (pg_invocations s). i_id r \<noteq> fresh"
    using assms(5) by (auto simp: inv_status_of_def status_in_def find_None_iff)
  let ?i = "\<lparr>i_id = fresh, i_function = k, i_status = InvPending, i_time = now, i_end_time = None, i_log_path = None\<rparr>"
  have created: "create_invocation fresh k now s = (Inr ?i, s\<lparr>pg_invocations := pg_invocations s @ [?i]\<rparr>)"
    using f fresh assms(2) by (auto simp: create_invocation_def db_exec_def Let_def)
  then have "ExecuteLambda (\<lambda>_. Some k) fresh now publish (Some payload) fid s =
      (Error NoDrivePath, None, s\<lparr>pg_invocations := pg_invocations s @ [?i]\<rparr>)"
    using assms(2-4,6) f(2)
    by (simp add: ExecuteLambda_def validatePayload_def MaxPayloadSize_def get_function_by_id_def db_exec_def)
  then show ?thesis using created_pending[OF created] by blast
qed

theorem unprepared_function_leaves_pending_witness:
  "\<exists>s'. ExecuteLambda (\<lambda>_. Some 7) 11 0 (\<lambda>_. True) (Some ''{}'') ''7'' (sample_pg FnVerified InvDone) =
     (Error NoDrivePath, None, s') \<and>
     inv_status_of s' = (inv_status_of (sample_pg FnVerified InvDone))(11 \<mapsto> InvPending)"
  by (rule unprepared_function_leaves_pending[OF sample_pg_facts(1,2), where f =
        "\<lparr>f_id = 7, f_user = 1, f_status = FnVerified, f_archive_path = ''a.tar.gz'', f_drive_path = None\<rparr>"])
     (simp_all add: sample_pg_def find_function_def inv_status_of_def status_in_def)

section \<open>What a user can read\<close>

lemma mset_insert_by_end_time: "mset (insert_by_end_time i is) = add_mset i (mset is)"
  by (induction "is") auto

lemma mset_order_by_end_time: "mset (order_by_end_time is) = mset is"
  unfolding order_by_end_time_def by (induction "is") (simp_all add: mset_insert_by_end_time)

lemma set_order_by_end_time: "set (order_by_end_time is) = set is"
  by (metis mset_order_by_end_time set_mset_mset)

lemma end_time_before_total: "\<not> end_time_before a b \<Longrightarrow> end_time_before b a"
  by (cases a; cases b) auto

lemma end_time_before_trans: "end_time_before a b \<Longrightarrow> end_time_before b c \<Longrightarrow> end_time_before a c"
  by (cases a; cases b; cases c) auto

lemma insert_by_end_time_sorted:
  "sorted_wrt (\<lambda>i j. end_time_before (i_end_time i) (i_end_time j)) is \<Longrightarrow>
   sorted_wrt (\<lambda>i j. end_time_before (i_end_time i) (i_end_time j)) (insert_by_end_time i is)"
proof (induction "is")
  case (Cons j js)
  have "set (insert_by_end_time i js) = insert i (set js)"
    by (metis mset_insert_by_end_time set_mset_add_mset_insert set_mset_mset)
  moreover from Cons have sorted: "sorted_wrt (\<lambda>i j. end_time_before (i_end_time i) (i_end_time j)) (insert_by_end_time i js)"
    and first: "\<forall>x\<in>set js. end_time_before (i_end_time j) (i_end_time x)" by simp_all
  ultimately show ?case
  proof (cases "end_time_before (i_end_time i) (i_end_time j)")
    case True
    then have "\<forall>x\<in>set js. end_time_before (i_end_time i) (i_end_time x)"
      using first end_time_before_trans by blast
    with True Cons.prems show ?thesis by simp
  next
    case False
    then show ?thesis
      using sorted first end_time_before_total
        \<open>set (insert_by_end_time i js) = insert i (set js)\<close> by simp
  qed
qed simp

lemma order_by_end_time_sorted:
  "sorted_wrt (\<lambda>i j. end_time_before (i_end_time i) (i_end_time j)) (order_by_end_time is)"
  unfolding order_by_end_time_def by (induction "is") (simp_all add: insert_by_end_time_sorted)

lemma db_query_ok:
  assumes "db_exec (\<lambda>s. (Inr (q s), s)) s = (Inr x, s')"
  obtains out where "x = q (s\<lparr>pg_outcomes := out\<rparr>)"
proof (cases "pg_outcomes s")
  case Nil
  then have "s\<lparr>pg_outcomes := []\<rparr> = s" by simp
  moreover have "x = q s" using assms Nil by (auto simp: db_exec_def)
  ultimately show ?thesis using that[of "[]"] by metis
next
  case (Cons ok rest)
  then have "x = q (s\<lparr>pg_outcomes := rest\<rparr>)" using assms by (cases ok) (auto simp: db_exec_def)
  then show ?thesis by (rule that)
qed

lemma owned_by_outcomes [simp]: "owned_by (s\<lparr>pg_outcomes := x\<rparr>) = owned_by s"
  by (simp add: owned_by_def fun_eq_iff)

lemma get_invocations_ok:
  assumes "get_invocations_for_user_and_function u k s = (Inr is, s')"
  shows "is = map (\<lambda>i. i\<lparr>i_log_path := None\<rparr>)
    (order_by_end_time (filter (\<lambda>i. owned_by s u i \<and> i_function i = k) (pg_invocations s)))"
  using assms unfolding get_invocations_for_user_and_function_def by (rule db_query_ok) simp

text \<open>
  The invocations listed for a function are exactly those of that function when it belongs to the
  user, and none otherwise; they come oldest first, the unfinished ones last.
\<close>

theorem invocations_listed:
  assumes "GetFunctionInvocations (Some u) k s = (Reply st rs, s')"
  shows "mset (map ir_id rs) = mset (map i_id (filter (\<lambda>i. owned_by s u i \<and> i_function i = k) (pg_invocations s))) \<and>
     sorted_wrt (\<lambda>a b. end_time_before (ir_end_time a) (ir_end_time b)) rs"
proof -
  let ?is = "order_by_end_time (filter (\<lambda>i. owned_by s u i \<and> i_function i = k) (pg_invocations s))"
  have rs: "rs = createInvocationResponse (map (\<lambda>i. i\<lparr>i_log_path := None\<rparr>) ?is)"
    using assms
    by (auto simp: GetFunctionInvocations_def dest!: get_invocations_ok split: sum.splits prod.splits)
  then have "map ir_id rs = map i_id ?is" by (simp add: createInvocationResponse_def o_def)
  moreover have "sorted_wrt (\<lambda>a b. end_time_before (ir_end_time a) (ir_end_time b)) rs"
    using order_by_end_time_sorted unfolding rs createInvocationResponse_def by (simp add: sorted_wrt_map)
  moreover have "mset (map i_id ?is) = mset (map i_id (filter (\<lambda>i. owned_by s u i \<and> i_function i = k) (pg_invocations s)))"
    by (simp add: mset_order_by_end_time)
  ultimately show ?thesis by simp
qed

theorem invocations_listed_witness:
  "mset (map ir_id [\<lparr>ir_id = 9, ir_status = ''DONE'', ir_time = 100, ir_end_time = None\<rparr>]) = {#9#}"
proof -
  have "GetFunctionInvocations (Some 1) 7 (sample_pg FnReady InvDone) =
      (Reply 200 [\<lparr>ir_id = 9, ir_status = ''DONE'', ir_time = 100, ir_end_time = None\<rparr>], sample_pg FnReady InvDone)"
    by (simp add: GetFunctionInvocations_def get_invocations_for_user_and_function_def db_exec_def sample_pg_def
        owned_by_def order_by_end_time_def createInvocationResponse_def)
  from invocations_listed[OF this] show ?thesis by (simp add: sample_pg_def owned_by_def)
qed

text \<open>
  The function list shows a user the functions of that user and no others, each with its status.
\<close>

theorem functions_listed:
  assumes "GetUserFunctions ustr (Some u) s = (Reply st es, s')"
  shows "map (\<lambda>e. (fe_id e, fe_status e)) es =
     map (\<lambda>f. (ustr (f_id f), fn_status_text (f_status f))) (filter (\<lambda>f. f_user f = u) (pg_functions s))"
  using assms
  by (auto simp: GetUserFunctions_def get_functions_by_user_with_latest_def createGetUserFunctionsResponse_def
      with_latest_def db_exec_def Let_def split: list.splits if_splits)

theorem functions_listed_witness:
  "map (\<lambda>e. (fe_id e, fe_status e)) [\<lparr>fe_id = ''7'', fe_status = ''READY'', fe_last_execution = None\<rparr>] =
     [(''7'', ''READY'')]"
proof -
  have "GetUserFunctions (\<lambda>_. ''7'') (Some 1) (sample_pg FnReady InvDone) =
      (Reply 200 [\<lparr>fe_id = ''7'', fe_status = ''READY'', fe_last_execution = None\<rparr>], sample_pg FnReady InvDone)"
    by (simp add: GetUserFunctions_def get_functions_by_user_with_latest_def createGetUserFunctionsResponse_def
        with_latest_def db_exec_def Let_def sample_pg_def)
  from functions_listed[OF this] show ?thesis by (simp add: sample_pg_def)
qed

text \<open>
  The details of an invocation are shown only to the owner of its function; for every other user,
  as for an id that does not exist, the handler panics instead of answering 404.
\<close>

theorem details_only_for_owner:
  assumes "pg_outcomes s = []"
  shows "case fst (GetInvocationDetails getObject (Some u) k s) of
      Reply st d \<Rightarrow> \<exists>i\<in>set (pg_invocations s). owned_by s u i \<and> i_id i = k \<and> ir_id d = k \<and> ir_time d = i_time i
    | Error e \<Rightarrow> e = LogsUnavailable
    | Panic \<Rightarrow> \<not> (\<exists>i\<in>set (pg_invocations s). owned_by s u i \<and> i_id i = k)"
proof (cases "order_by_end_time (filter (\<lambda>i. owned_by s u i \<and> i_id i = k) (pg_invocations s))")
  case Nil
  then have "filter (\<lambda>i. owned_by s u i \<and> i_id i = k) (pg_invocations s) = []"
    by (metis mset_order_by_end_time mset_zero_iff)
  with Nil assms show ?thesis
    by (auto simp: GetInvocationDetails_def get_invocation_details_for_user_def db_exec_up extractLogs_def
        filter_empty_conv)
next
  case (Cons i rest)
  then have "i \<in> set (order_by_end_time (filter (\<lambda>i. owned_by s u i \<and> i_id i = k) (pg_invocations s)))" by simp
  then have "i \<in> set (pg_invocations s)" "owned_by s u i" "i_id i = k" by (simp_all add: set_order_by_end_time)
  with Cons assms show ?thesis
    by (auto simp: GetInvocationDetails_def get_invocation_details_for_user_def db_exec_up split: option.splits)
qed

theorem details_only_for_owner_witness:
  "fst (GetInvocationDetails (\<lambda>_. None) (Some 2) 9 (sample_pg FnReady InvDone)) = Panic"
proof -
  have no: "\<not> (\<exists>i\<in>set (pg_invocations (sample_pg FnReady InvDone)). owned_by (sample_pg FnReady InvDone) 2 i \<and> i_id i = 9)"
    by (simp add: sample_pg_def owned_by_def)
  have "fst (GetInvocationDetails (\<lambda>_. None) (Some 2) 9 (sample_pg FnReady InvDone)) \<noteq> Error LogsUnavailable"
    by (simp add: GetInvocationDetails_def get_invocation_details_for_user_def db_exec_def sample_pg_def owned_by_def
        order_by_end_time_def extractLogs_def)
  then show ?thesis
    using details_only_for_owner[OF sample_pg_facts(2)[of FnReady InvDone],
        where getObject = "\<lambda>_. None" and u = 2 and k = 9] no
    by (auto split: reply.splits)
qed

section \<open>Status codes\<close>



text \<open>
  What the handlers can answer, whatever they are given: none of them but the status handler answers
  400 or 404; an unknown function or invocation, a bad identifier and a bad payload are all answered
  with 500.
\<close>

theorem handler_status_codes:
  "response_status (up_reply (UploadLambda ustr fo ff now put bucket user body bus s)) \<in> {200, 500} \<and>
   response_status (fst (ExecuteLambda parseUuid fresh now publish payload fid s)) \<in> {200, 500} \<and>
   response_status (fst (GetUserFunctions ustr user s)) \<in> {200, 500} \<and>
   response_status (fst (GetFunctionStatus k s)) \<in> {200, 400, 404} \<and>
   response_status (fst (GetFunctionInvocations user k s)) \<in> {200, 500} \<and>
   response_status (fst (GetInvocationDetails getObject user k s)) \<in> {200, 500}"
proof (intro conjI)
  have "ParseUploadedFile ps = Inl e \<Longrightarrow> response_status (Error e) = 500" for ps e
    by (induction ps rule: ParseUploadedFile.induct) (auto split: if_splits)
  then show "response_status (up_reply (UploadLambda ustr fo ff now put bucket user body bus s)) \<in> {200, 500}"
    by (auto simp: UploadLambda_def UploadFile_def Let_def split: option.splits sum.splits prod.splits if_splits)
  show "response_status (fst (ExecuteLambda parseUuid fresh now publish payload fid s)) \<in> {200, 500}"
    by (auto simp: ExecuteLambda_def validatePayload_def Let_def split: option.splits sum.splits prod.splits if_splits)
qed (auto simp: GetUserFunctions_def GetFunctionStatus_def GetFunctionInvocations_def GetInvocationDetails_def
      split: option.splits sum.splits prod.splits store_error.splits)

end
