(* ===== verification/Base64.thy ===== *)
theory Base64
  imports GoStrings
begin

text \<open>
  \<open>encoding/base64\<close> (\<open>StdEncoding\<close>): the form in which encrypted secrets are stored and in which
  the VM agent passes a payload to the Python interpreter.
\<close>

definition b64_alphabet :: string where
  "b64_alphabet = ''ABCDEFGHIJKLMNOPQRSTUVWXYZabcdefghijklmnopqrstuvwxyz0123456789+/''"

definition b64_char :: "nat \<Rightarrow> char" where
  "b64_char n = b64_alphabet ! (n mod 64)"

definition b64_value :: "char \<Rightarrow> nat option" where
  "b64_value c = (let n = length (takeWhile (\<lambda>d. d \<noteq> c) b64_alphabet) in if n < 64 then Some n else None)"

abbreviation byte :: "char \<Rightarrow> nat" where "byte c \<equiv> of_char c"

fun b64_encode :: "string \<Rightarrow> string" where
  "b64_encode [] = []"
| "b64_encode [a] = [b64_char (byte a div 4), b64_char (byte a * 16), CHR ''='', CHR ''='']"
| "b64_encode [a, b] =
     [b64_char (byte a div 4), b64_char (byte a * 16 + byte b div 16), b64_char (byte b * 4), CHR ''='']"
| "b64_encode (a # b # c # rest) =
     b64_char (byte a div 4) # b64_char (byte a * 16 + byte b div 16) #
     b64_char (byte b * 4 + byte c div 64) # b64_char (byte c) # b64_encode rest"

text \<open>
  \<open>StdEncoding.DecodeString\<close> drops carriage returns and line feeds, and requires the padding; the
  unused low bits of the last digit are ignored.
\<close>

fun b64_quads :: "string \<Rightarrow> string option" where
  "b64_quads [] = Some []"
| "b64_quads [a, b, c, d] =
     (case (b64_value a, b64_value b) of
        (Some x, Some y) \<Rightarrow>
          if c = CHR ''='' \<and> d = CHR ''='' then Some [char_of (x * 4 + y div 16)]
          else (case b64_value c of
                  None \<Rightarrow> None
                | Some z \<Rightarrow>
                    if d = CHR ''='' then Some [char_of (x * 4 + y div 16), char_of (y * 16 + z div 4)]
                    else map_option (\<lambda>w. [char_of (x * 4 + y div 16), char_of (y * 16 + z div 4), char_of (z * 64 + w)])
                           (b64_value d))
      | _ \<Rightarrow> None)"
| "b64_quads (a # b # c # d # e # rest) =
     (case (b64_value a, b64_value b, b64_value c, b64_value d) of
        (Some x, Some y, Some z, Some w) \<Rightarrow>
          map_option (\<lambda>bs. char_of (x * 4 + y div 16) # char_of (y * 16 + z div 4) # char_of (z * 64 + w) # bs)
            (b64_quads (e # rest))
      | _ \<Rightarrow> None)"
| "b64_quads _ = None"

definition b64_decode :: "string \<Rightarrow> string option" where
  "b64_decode s = b64_quads (filter (\<lambda>c. c \<noteq> CHR 0x0A \<and> c \<noteq> CHR 0x0D) s)"


lemma b64_alphabet_length: "length b64_alphabet = 64" and b64_alphabet_distinct: "distinct b64_alphabet"
  by (simp_all add: b64_alphabet_def)

lemma takeWhile_nth_distinct: "distinct xs \<Longrightarrow> i < length xs \<Longrightarrow> length (takeWhile (\<lambda>d. d \<noteq> xs ! i) xs) = i"
proof (induction xs arbitrary: i)
  case (Cons x xs)
  then show ?case by (cases i) auto
qed simp

lemma b64_value_char [simp]: "b64_value (b64_char n) = Some (n mod 64)"
  using takeWhile_nth_distinct[OF b64_alphabet_distinct, of "n mod 64"]
  by (simp add: b64_value_def b64_char_def b64_alphabet_length Let_def)

lemma b64_char_in: "b64_char n \<in> set b64_alphabet"
  by (simp add: b64_char_def b64_alphabet_length)

lemma b64_char_not [simp]: "b64_char n \<noteq> CHR ''=''" "b64_char n \<noteq> CHR 0x0A" "b64_char n \<noteq> CHR 0x0D"
  using b64_char_in[of n] by (auto simp: b64_alphabet_def)

lemma digit_high: "k < m \<Longrightarrow> (a * m + k) mod (m * n) div m = a mod (n :: nat)"
  by (simp add: mod_mult2_eq div_mult_self3)

lemma digit_low: "q < m \<Longrightarrow> r < p \<Longrightarrow> ((a * m + q) mod (m * n) * p + r) mod (m * p) = q * p + (r :: nat)"
proof -
  assume q: "q < m" and r: "r < p"
  have "(a * m + q) mod (m * n) = m * (a mod n) + q" using q by (simp add: mod_mult2_eq)
  then have "(a * m + q) mod (m * n) * p + r = (a mod n) * (m * p) + (q * p + r)" by (simp add: algebra_simps)
  moreover have "q * p + r < m * p"
  proof -
    have "q * p + r < Suc q * p" using r by simp
    also have "\<dots> \<le> m * p" using q by (intro mult_le_mono1) simp
    finally show ?thesis .
  qed
  ultimately show ?thesis by (metis mod_mult_self3 mod_less)
qed

lemma b64_first: "char_of (byte a div 4 mod 64 * 4 + (byte a * 16 + k) mod 64 div 16) = a" if "k < 16"
proof -
  have "byte a div 4 < 64" using nat_of_char_less_256[of a] by (simp add: less_mult_imp_div_less)
  then show ?thesis using digit_high[of k 16 "byte a" 4] that by simp
qed

lemma b64_second: "char_of ((byte a * 16 + byte b div 16) mod 64 * 16 + (byte b * 4 + k) mod 64 div 4) = b" if "k < 4"
proof -
  have "byte b div 16 < 16" using nat_of_char_less_256[of b] by (simp add: less_mult_imp_div_less)
  then have "((byte a * 16 + byte b div 16) mod 64 * 16 + (byte b * 4 + k) mod 64 div 4) mod 256 = byte b"
    using digit_low[of "byte b div 16" 16 "byte b mod 16" 16 "byte a" 4] digit_high[of k 4 "byte b" 16] that
    by simp
  then show ?thesis by (metis char_of_mod_256 char_of_char)
qed

lemma b64_third: "char_of ((byte b * 4 + byte c div 64) mod 64 * 64 + byte c mod 64) = c"
proof -
  have "byte c div 64 < 4" using nat_of_char_less_256[of c] by (simp add: less_mult_imp_div_less)
  then have "((byte b * 4 + byte c div 64) mod 64 * 64 + byte c mod 64) mod 256 = byte c"
    using digit_low[of "byte c div 64" 4 "byte c mod 64" 64 "byte b" 16] by simp
  then show ?thesis by (metis char_of_mod_256 char_of_char)
qed

lemma byte_div: "byte b div 16 < 16" "byte c div 64 < 4"
  using nat_of_char_less_256[of b] nat_of_char_less_256[of c] by (simp_all add: less_mult_imp_div_less)

lemma b64_quads_encode: "b64_quads (b64_encode bs) = Some bs"
proof (induction bs rule: b64_encode.induct)
  case (2 a)
  then show ?case using b64_first[of 0 a] by simp
next
  case (3 a b)
  then show ?case using b64_first[of "byte b div 16" a] b64_second[of 0 a b] byte_div by simp
next
  case (4 a b c rest)
  have eqs: "char_of (byte a div 4 mod 64 * 4 + (byte a * 16 + byte b div 16) mod 64 div 16) = a"
    "char_of ((byte a * 16 + byte b div 16) mod 64 * 16 + (byte b * 4 + byte c div 64) mod 64 div 4) = b"
    "char_of ((byte b * 4 + byte c div 64) mod 64 * 64 + byte c mod 64) = c"
    using b64_first[of "byte b div 16" a] b64_second[of "byte c div 64" a b] b64_third byte_div by simp_all
  show ?case
  proof (cases "b64_encode rest")
    case Nil
    then have "rest = []" by (cases rest rule: b64_encode.cases) simp_all
    then show ?thesis using eqs by simp
  next
    case (Cons e es)
    then show ?thesis using eqs 4 by (simp only: b64_encode.simps b64_quads.simps b64_value_char option.case prod.case) simp
  qed
qed simp

lemma b64_encode_no_newline: "filter (\<lambda>c. c \<noteq> CHR 0x0A \<and> c \<noteq> CHR 0x0D) (b64_encode bs) = b64_encode bs"
  by (induction bs rule: b64_encode.induct) simp_all

lemma b64_decode_encode: "b64_decode (b64_encode bs) = Some bs"
  unfolding b64_decode_def b64_encode_no_newline by (rule b64_quads_encode)

interpretation b64: codec "\<lambda>bs. Some (b64_encode bs)" b64_decode
  by unfold_locales (auto simp: b64_decode_encode)

lemma b64_encode_inj: "b64_encode x = b64_encode y \<longleftrightarrow> x = y"
  using b64.encode_inj[of x "b64_encode x" y] by auto

end
