(* ===== verification/AuthKeys.thy ===== *)
theory AuthKeys
  imports Signing Base64
begin

text \<open>
  \<open>internal/server/authkey\<close>: the encrypted secrets of the API keys. Galois/counter mode, base64
  and hexadecimal are modelled; the AES block function is the parameter \<open>aes\<close> (key and block to
  block), of which the mode relies on nothing. \<open>rand.Reader\<close> supplies the key and nonce bytes,
  \<open>None\<close> when reading them fails.
\<close>

section \<open>Galois/counter mode\<close>

definition gf_step :: "128 word \<Rightarrow> 128 word \<times> 128 word \<Rightarrow> nat \<Rightarrow> 128 word \<times> 128 word" where
  "gf_step x zv i = (case zv of (z, v) \<Rightarrow>
     (if bit x (127 - i) then z XOR v else z,
      if bit v 0 then drop_bit 1 v XOR push_bit 120 0xe1 else drop_bit 1 v))"

definition gf_mul :: "128 word \<Rightarrow> 128 word \<Rightarrow> 128 word" where
  "gf_mul x y = fst (foldl (gf_step x) (0, y) [0..<128])"

definition block_word :: "string \<Rightarrow> 128 word" where
  "block_word bs = foldl (\<lambda>w c. push_bit 8 w OR of_char c) 0 (bs @ replicate (16 - length bs) (char_of (0::nat)))"

definition ghash :: "128 word \<Rightarrow> string list \<Rightarrow> 128 word" where
  "ghash h blocks = foldl (\<lambda>acc b. gf_mul (acc XOR block_word b) h) 0 blocks"

definition gcm_nonce_size :: nat where "gcm_nonce_size = 12"
definition gcm_tag_size :: nat where "gcm_tag_size = 16"

definition counter_block :: "string \<Rightarrow> nat \<Rightarrow> string" where
  "counter_block nonce n = nonce @ be_bytes 4 (n mod 2 ^ 32)"

definition whole_block :: "string \<Rightarrow> string" where
  "whole_block bs = take 16 (bs @ replicate 16 (char_of (0::nat)))"

definition keystream :: "(string \<Rightarrow> string) \<Rightarrow> string \<Rightarrow> nat \<Rightarrow> string" where
  "keystream E nonce n =
     take n (concat (map (\<lambda>i. whole_block (E (counter_block nonce (i + 2)))) [0..<n div 16 + 1]))"

definition gcm_tag :: "(string \<Rightarrow> string) \<Rightarrow> string \<Rightarrow> string \<Rightarrow> string" where
  "gcm_tag E nonce ct =
     be_bytes 16 (unat (ghash (block_word (E (replicate 16 (char_of (0::nat)))))
                         (chunks 16 ct @ [be_bytes 8 0 @ be_bytes 8 (8 * length ct)])
                       XOR block_word (E (counter_block nonce 1))))"

definition gcm_seal :: "(string \<Rightarrow> string) \<Rightarrow> string \<Rightarrow> string \<Rightarrow> string" where
  "gcm_seal E nonce pt = (let ct = xor_bytes pt (keystream E nonce (length pt)) in ct @ gcm_tag E nonce ct)"

definition gcm_open :: "(string \<Rightarrow> string) \<Rightarrow> string \<Rightarrow> string \<Rightarrow> string option" where
  "gcm_open E nonce sealed =
     (if length sealed < gcm_tag_size then None
      else let ct = take (length sealed - gcm_tag_size) sealed;
               tag = drop (length sealed - gcm_tag_size) sealed
           in if tag = gcm_tag E nonce ct then Some (xor_bytes ct (keystream E nonce (length ct))) else None)"

lemma keystream_length [simp]: "length (keystream E nonce n) = n"
proof -
  have "n \<le> 16 * (n div 16 + 1)" by presburger
  moreover have "length (whole_block bs) = 16" for bs by (simp add: whole_block_def)
  ultimately show ?thesis
    using length_concat_uniform[of "\<lambda>i. whole_block (E (counter_block nonce (i + 2)))" 16 "[0..<n div 16 + 1]"]
    by (simp add: keystream_def)
qed

lemma xor_bytes_length [simp]: "length (xor_bytes a b) = min (length a) (length b)"
  by (simp add: xor_bytes_def)

lemma char_xor_twice: "char_of (((of_char a :: nat) XOR of_char b) mod 256 XOR of_char b) = a"
proof -
  have "(of_char a :: nat) XOR of_char b = take_bit 8 (of_char a) XOR take_bit 8 (of_char b)"
    by (simp add: take_bit_eq_mod)
  also have "\<dots> = take_bit 8 (of_char a XOR of_char b)" by (simp add: take_bit_xor)
  finally have "((of_char a :: nat) XOR of_char b) mod 256 = of_char a XOR of_char b"
    by (simp add: take_bit_eq_mod)
  then show ?thesis by (simp add: xor.assoc)
qed

lemma xor_bytes_twice: "length a = length b \<Longrightarrow> xor_bytes (xor_bytes a b) b = a"
  by (induction a b rule: list_induct2) (simp_all add: xor_bytes_def char_xor_twice)

lemma gcm_open_seal: "gcm_open E nonce (gcm_seal E nonce pt) = Some pt"
  by (simp add: gcm_open_def gcm_seal_def Let_def gcm_tag_def gcm_tag_size_def xor_bytes_twice)

section \<open>crypto.go\<close>

definition encrypt :: "(string \<Rightarrow> string \<Rightarrow> string) \<Rightarrow> string option \<Rightarrow> string \<Rightarrow> string \<Rightarrow> string option" where
  "encrypt aes nonce kek plaintext =
     (case nonce of
        None \<Rightarrow> None
      | Some n \<Rightarrow> let key = sha256 kek; sealed = n @ gcm_seal (aes key) n plaintext in Some (b64_encode sealed))"

definition decrypt :: "(string \<Rightarrow> string \<Rightarrow> string) \<Rightarrow> string \<Rightarrow> string \<Rightarrow> string option" where
  "decrypt aes kek encoded =
     (let key = sha256 kek in
      case b64_decode encoded of
        None \<Rightarrow> None
      | Some data \<Rightarrow>
          if length data < gcm_nonce_size then None
          else gcm_open (aes key) (take gcm_nonce_size data) (drop gcm_nonce_size data))"

lemma decrypt_encrypt:
  assumes "encrypt aes nonce kek plaintext = Some c" and "map_option length nonce = Some gcm_nonce_size"
  shows "decrypt aes kek c = Some plaintext"
  using assms by (auto simp: encrypt_def decrypt_def Let_def b64_decode_encode gcm_open_seal)

text \<open>With a nonce of the right length, \<open>encrypt\<close> and \<open>decrypt\<close> under one key are an encoding.\<close>

interpretation sealed: codec
  "\<lambda>p. if map_option length nonce = Some gcm_nonce_size then encrypt aes nonce kek p else None" "decrypt aes kek"
  for aes nonce kek
  by unfold_locales (auto intro: decrypt_encrypt split: if_splits)

section \<open>store.go\<close>

definition GetAuthKey :: "(string \<Rightarrow> string \<Rightarrow> string) \<Rightarrow> string \<Rightarrow> string \<Rightarrow> pg \<Rightarrow> (key_error + key_row) \<times> pg" where
  "GetAuthKey aes kek authId s =
     (case db_exec (\<lambda>s. (Inr (find (\<lambda>k. k_auth_id k = authId) (pg_keys s)), s)) s of
        (Inl _, s') \<Rightarrow> (Inl KeyStoreFailed, s')
      | (Inr None, s') \<Rightarrow> (Inl KeyNotFound, s')
      | (Inr (Some r), s') \<Rightarrow>
          (case decrypt aes kek (k_secret r) of
             None \<Rightarrow> (Inl KeyStoreFailed, s')
           | Some secret \<Rightarrow> (Inr (r\<lparr>k_secret := secret\<rparr>), s')))"

definition CreateAuthKey ::
  "(string \<Rightarrow> string \<Rightarrow> string) \<Rightarrow> string \<Rightarrow> string option \<Rightarrow> string option \<Rightarrow> string \<Rightarrow> uuid \<Rightarrow> pg \<Rightarrow>
   key_row option \<times> pg" where
  "CreateAuthKey aes kek raw nonce authID userId s =
     (case raw of
        None \<Rightarrow> (None, s)
      | Some bytes \<Rightarrow>
          let plaintext = hex_encode bytes in
          case encrypt aes nonce kek plaintext of
            None \<Rightarrow> (None, s)
          | Some encrypted \<Rightarrow>
              (case db_exec (\<lambda>s.
                   if (\<exists>r\<in>set (pg_keys s). k_auth_id r = authID) \<or> (\<forall>u\<in>set (pg_users s). u_id u \<noteq> userId)
                   then (Inl ConstraintViolation, s)
                   else (Inr (), s\<lparr>pg_keys := pg_keys s @ [\<lparr>k_auth_id = authID, k_user = userId, k_secret = encrypted\<rparr>]\<rparr>)) s of
                 (Inl _, s') \<Rightarrow> (None, s')
               | (Inr _, s') \<Rightarrow> (Some \<lparr>k_auth_id = authID, k_user = userId, k_secret = plaintext\<rparr>, s')))"

lemma create_key_stored:
  assumes "CreateAuthKey aes kek raw nonce authID userId s = (Some k, s')"
  obtains bytes c s0 where "raw = Some bytes" "encrypt aes nonce kek (hex_encode bytes) = Some c"
    "k = \<lparr>k_auth_id = authID, k_user = userId, k_secret = hex_encode bytes\<rparr>"
    "\<forall>r\<in>set (pg_keys s). k_auth_id r \<noteq> authID"
    "pg_keys s' = pg_keys s @ [\<lparr>k_auth_id = authID, k_user = userId, k_secret = c\<rparr>]"
  using assms
  by (auto simp: CreateAuthKey_def Let_def db_exec_def split: option.splits list.splits sum.splits prod.splits if_splits)

lemma find_appended: "\<forall>r\<in>set xs. \<not> P r \<Longrightarrow> P x \<Longrightarrow> find P (xs @ [x]) = Some x"
  by (induction xs) auto

lemma created_key_found:
  assumes "CreateAuthKey aes kek raw nonce authID userId s = (Some k, s')"
    and "map_option length nonce = Some gcm_nonce_size" and "map_option length raw = Some 32"
    and "pg_outcomes s' = []"
  shows "GetAuthKey aes kek authID s' = (Inr k, s') \<and> k_user k = userId \<and> k_auth_id k = authID \<and>
         length (k_secret k) = 64 \<and> set (k_secret k) \<subseteq> set hex_digits"
proof -
  obtain bytes c where raw: "raw = Some bytes" and enc: "encrypt aes nonce kek (hex_encode bytes) = Some c"
    and k: "k = \<lparr>k_auth_id = authID, k_user = userId, k_secret = hex_encode bytes\<rparr>"
    and fresh: "\<forall>r\<in>set (pg_keys s). k_auth_id r \<noteq> authID"
    and stored: "pg_keys s' = pg_keys s @ [\<lparr>k_auth_id = authID, k_user = userId, k_secret = c\<rparr>]"
    using create_key_stored[OF assms(1)] by metis
  have "find (\<lambda>k. k_auth_id k = authID) (pg_keys s') = Some \<lparr>k_auth_id = authID, k_user = userId, k_secret = c\<rparr>"
    using fresh unfolding stored by (intro find_appended) simp_all
  then have "GetAuthKey aes kek authID s' = (Inr k, s')"
    using decrypt_encrypt[OF enc assms(2)] assms(4) by (simp add: GetAuthKey_def db_exec_up k)
  then show ?thesis using assms(3) raw hex_encode_set[of bytes] by (simp add: k)
qed

text \<open>
  The key an administrator is shown is the key the server checks with: once \<open>CreateAuthKey\<close> has
  returned, looking its id up gives the same user and the same secret, which is 64 hexadecimal
  digits, although only its encryption is stored.
\<close>

theorem created_key_is_found:
  assumes "CreateAuthKey aes kek raw nonce authID userId s = (Some k, s')"
    and "map_option length nonce = Some gcm_nonce_size" and "map_option length raw = Some 32"
    and "pg_outcomes s' = []"
  shows "GetAuthKey aes kek authID s' = (Inr k, s') \<and> k_user k = userId \<and> k_auth_id k = authID \<and>
         length (k_secret k) = 64 \<and> set (k_secret k) \<subseteq> set hex_digits"
  by (rule created_key_found[OF assms])

theorem created_key_is_found_witness:
  "\<exists>k s'. CreateAuthKey (\<lambda>_ b. b) ''kek'' (Some (replicate 32 CHR ''x'')) (Some (replicate 12 CHR ''n'')) ''key-1'' 1
           (sample_pg FnReady InvDone) = (Some k, s') \<and>
         GetAuthKey (\<lambda>_ b. b) ''kek'' ''key-1'' s' = (Inr k, s') \<and> k_user k = 1"
proof -
  obtain k s' where *: "CreateAuthKey (\<lambda>_ b. b) ''kek'' (Some (replicate 32 CHR ''x'')) (Some (replicate 12 CHR ''n''))
      ''key-1'' 1 (sample_pg FnReady InvDone) = (Some k, s')" "pg_outcomes s' = []"
    by (simp add: CreateAuthKey_def encrypt_def db_exec_def sample_pg_def Let_def)
  show ?thesis
    using created_key_is_found[OF *(1) _ _ *(2)] *(1) by (simp add: gcm_nonce_size_def)
qed

end
