(* ===== verification/VmDrives.thy ===== *)
theory VmDrives
  imports GoPath
begin

text \<open>
  \<open>internal/vm/vm/drive.go\<close>: the block devices a VM is given. Every step a function of this file
  takes on the host is an operation; \<open>ok\<close> says whether it succeeds, and the result of a function
  is its return value with the operations it attempted, in order. The names \<open>os.CreateTemp\<close> and
  \<open>os.MkdirTemp\<close> choose are arguments.
\<close>

section \<open>Operations on the host\<close>

datatype host_op =
    CreateTemp string | CloseTemp string | MkdirTemp string
  | RemoveFile string | RemoveAllDir string
  | FGetObject string string string | FPutObject string string string
  | Truncate string int | Chmod string nat
  | MkfsExt4 string | Untar string string | WidenPermissions string | MkSquashfs string string
  | RemoveStaleJail string | CreateLog string | CloseLog string
  | NewMachine nat | BootMachine | DialAgent | SendAgent | StreamLog string | CloseConn
  | StopVMM | WaitVMM | CancelMachine

type_synonym 'a attempt = "'a option \<times> host_op list"

text \<open>One fallible step: on failure the operations \<open>undo\<close> follow and the function returns an error.\<close>

definition step :: "('o \<Rightarrow> bool) \<Rightarrow> 'o \<Rightarrow> 'o list \<Rightarrow> 'a option \<times> 'o list \<Rightarrow> 'a option \<times> 'o list" where
  "step ok op undo rest = (if ok op then (fst rest, op # snd rest) else (None, op # undo))"

text \<open>A deferred operation runs when the function returns.\<close>

definition deferred :: "'o \<Rightarrow> 'a option \<times> 'o list \<Rightarrow> 'a option \<times> 'o list" where
  "deferred op rest = (fst rest, snd rest @ [op])"

text \<open>For evaluating a sequence of steps from the inside out.\<close>

lemma step_fails: "\<not> ok op \<Longrightarrow> step ok op undo rest = (None, op # undo)"
  by (simp add: step_def)

lemma step_succeeds: "ok op \<Longrightarrow> step ok op undo (r, tr) = (r, op # tr)"
  by (simp add: step_def)

lemma deferred_pair: "deferred op (r, tr) = (r, tr @ [op])"
  by (simp add: deferred_def)

lemmas step_eval = step_fails step_succeeds deferred_pair

section \<open>Drives\<close>

record drive =
  dr_path :: string
  dr_root :: bool
  dr_read_only :: bool

record drive_mount =
  dm_config :: drive
  dm_save :: "host_op option"
  dm_cleanup :: "host_op option"

definition jailerBase :: string where "jailerBase = ''/srv/jailer''"
definition imageDir :: string where "imageDir = ''/srv/firecracker''"
definition driveDir :: string where "driveDir = jailerBase @ ''/drives''"
definition driveSizeMB :: int where "driveSizeMB = 512"

definition RootDrive :: drive_mount where
  "RootDrive = \<lparr>dm_config = \<lparr>dr_path = path_join imageDir ''rootfs.squashfs'', dr_root = True, dr_read_only = True\<rparr>,
     dm_save = None, dm_cleanup = None\<rparr>"

definition MinioDrive :: "(host_op \<Rightarrow> bool) \<Rightarrow> string \<Rightarrow> string \<Rightarrow> string \<Rightarrow> drive_mount attempt" where
  "MinioDrive ok bucket objectName file =
     step ok (CreateTemp file) [] (
     step ok (CloseTemp file) [] (
     step ok (FGetObject bucket objectName file) [RemoveFile file] (
     step ok (Chmod file 160) [RemoveFile file]
       (Some \<lparr>dm_config = \<lparr>dr_path = file, dr_root = False, dr_read_only = True\<rparr>,
              dm_save = None, dm_cleanup = Some (RemoveFile file)\<rparr>, []))))"

text \<open>The modes are \<open>0o240\<close> = 160 and \<open>0o660\<close> = 432.\<close>

definition createBlankExt4 :: "(host_op \<Rightarrow> bool) \<Rightarrow> int \<Rightarrow> string \<Rightarrow> string attempt" where
  "createBlankExt4 ok sizeMB path =
     step ok (CreateTemp path) [] (
     step ok (CloseTemp path) [RemoveFile path] (
     step ok (Truncate path (sizeMB * 1024 * 1024)) [RemoveFile path] (
     step ok (MkfsExt4 path) [RemoveFile path] (
     step ok (Chmod path 432) [RemoveFile path] (Some path, [])))))"

definition MinioUploadDrive :: "(host_op \<Rightarrow> bool) \<Rightarrow> string \<Rightarrow> string \<Rightarrow> string \<Rightarrow> drive_mount attempt" where
  "MinioUploadDrive ok bucket objectName file =
     (case createBlankExt4 ok driveSizeMB file of
        (None, tr) \<Rightarrow> (None, tr)
      | (Some path, tr) \<Rightarrow>
          (Some \<lparr>dm_config = \<lparr>dr_path = path, dr_root = False, dr_read_only = False\<rparr>,
                 dm_save = Some (FPutObject bucket objectName path), dm_cleanup = Some (RemoveFile path)\<rparr>, tr))"

definition EphemeralDrive :: "(host_op \<Rightarrow> bool) \<Rightarrow> string \<Rightarrow> drive_mount attempt" where
  "EphemeralDrive ok file =
     (case createBlankExt4 ok driveSizeMB file of
        (None, tr) \<Rightarrow> (None, tr)
      | (Some path, tr) \<Rightarrow>
          (Some \<lparr>dm_config = \<lparr>dr_path = path, dr_root = False, dr_read_only = False\<rparr>,
                 dm_save = None, dm_cleanup = Some (RemoveFile path)\<rparr>, tr))"

definition ArchiveDrive ::
  "(host_op \<Rightarrow> bool) \<Rightarrow> string \<Rightarrow> string \<Rightarrow> string \<Rightarrow> string \<Rightarrow> string \<Rightarrow> drive_mount attempt" where
  "ArchiveDrive ok bucket objectName tgz extractDir squashfs =
     step ok (CreateTemp tgz) [] (deferred (RemoveFile tgz) (
     step ok (CloseTemp tgz) [] (
     step ok (FGetObject bucket objectName tgz) [] (
     step ok (MkdirTemp extractDir) [] (deferred (RemoveAllDir extractDir) (
     step ok (Untar tgz extractDir) [] (
     step ok (WidenPermissions extractDir) [] (
     step ok (CreateTemp squashfs) [] (
     step ok (CloseTemp squashfs) [RemoveFile squashfs] (
     step ok (MkSquashfs extractDir squashfs) [RemoveFile squashfs] (
     step ok (Chmod squashfs 160) [RemoveFile squashfs]
       (Some \<lparr>dm_config = \<lparr>dr_path = squashfs, dr_root = False, dr_read_only = True\<rparr>,
              dm_save = None, dm_cleanup = Some (RemoveFile squashfs)\<rparr>, []))))))))))))"

section \<open>What is left on the host\<close>

fun effect :: "(host_op \<Rightarrow> bool) \<Rightarrow> host_op \<Rightarrow> string set \<Rightarrow> string set" where
  "effect ok (CreateTemp p) F = (if ok (CreateTemp p) then insert p F else F)"
| "effect ok (MkdirTemp p) F = (if ok (MkdirTemp p) then insert p F else F)"
| "effect ok (CreateLog p) F = (if ok (CreateLog p) then insert p F else F)"
| "effect ok (RemoveFile p) F = (if ok (RemoveFile p) then F - {p} else F)"
| "effect ok (RemoveAllDir p) F = (if ok (RemoveAllDir p) then F - {p} else F)"
| "effect ok _ F = F"

definition leftover :: "(host_op \<Rightarrow> bool) \<Rightarrow> host_op list \<Rightarrow> string set \<Rightarrow> string set" where
  "leftover ok tr F = fold (effect ok) tr F"

lemma leftover_simps [simp]:
  "leftover ok [] F = F" "leftover ok (op # tr) F = leftover ok tr (effect ok op F)"
  "leftover ok (tr @ tr') F = leftover ok tr' (leftover ok tr F)"
  by (simp_all add: leftover_def)

definition removals_work :: "(host_op \<Rightarrow> bool) \<Rightarrow> bool" where
  "removals_work ok \<longleftrightarrow> (\<forall>p. ok (RemoveFile p) \<and> ok (RemoveAllDir p))"

text \<open>
  The contract of a drive constructor, which the runners rely on: on success exactly the drive's
  file is new on the host and the cleanup removes it; on an error nothing is left behind.
\<close>

locale drive_provider =
  fixes ok :: "host_op \<Rightarrow> bool" and create :: "drive_mount attempt" and fresh :: "string set"
  assumes created: "removals_work ok \<Longrightarrow> create = (Some d, tr) \<Longrightarrow> F \<inter> fresh = {} \<Longrightarrow>
      leftover ok tr F = insert (dr_path (dm_config d)) F \<and> dr_path (dm_config d) \<in> fresh \<and>
      dm_cleanup d = Some (RemoveFile (dr_path (dm_config d)))"
    and failed: "removals_work ok \<Longrightarrow> create = (None, tr) \<Longrightarrow> F \<inter> fresh = {} \<Longrightarrow> leftover ok tr F = F"
begin

lemma created_then_cleaned:
  assumes "removals_work ok" "create = (Some d, tr)" "F \<inter> fresh = {}"
  shows "leftover ok (tr @ [the (dm_cleanup d)]) F = F"
  using created[OF assms] assms(1,3) by (auto simp: removals_work_def)

end

lemma step_result: "step ok op undo rest = (if ok op then (fst rest, op # snd rest) else (None, op # undo))"
  by (simp add: step_def)

lemma blank_ext4:
  assumes "removals_work ok" and "p \<notin> F"
  shows "createBlankExt4 ok n p = (Some q, tr) \<Longrightarrow> q = p \<and> leftover ok tr F = insert p F"
    and "createBlankExt4 ok n p = (None, tr) \<Longrightarrow> leftover ok tr F = F"
  using assms by (auto simp: createBlankExt4_def step_def removals_work_def split: if_splits)

lemma upload_drive_cases:
  "MinioUploadDrive ok bucket obj p = (Some d, tr) \<longleftrightarrow>
     (\<exists>q. createBlankExt4 ok driveSizeMB p = (Some q, tr) \<and>
        d = \<lparr>dm_config = \<lparr>dr_path = q, dr_root = False, dr_read_only = False\<rparr>,
             dm_save = Some (FPutObject bucket obj q), dm_cleanup = Some (RemoveFile q)\<rparr>)"
  "MinioUploadDrive ok bucket obj p = (None, tr) \<longleftrightarrow> createBlankExt4 ok driveSizeMB p = (None, tr)"
  by (auto simp: MinioUploadDrive_def split: prod.splits option.splits)

lemma ephemeral_cases:
  "EphemeralDrive ok p = (Some d, tr) \<longleftrightarrow>
     (\<exists>q. createBlankExt4 ok driveSizeMB p = (Some q, tr) \<and>
        d = \<lparr>dm_config = \<lparr>dr_path = q, dr_root = False, dr_read_only = False\<rparr>,
             dm_save = None, dm_cleanup = Some (RemoveFile q)\<rparr>)"
  "EphemeralDrive ok p = (None, tr) \<longleftrightarrow> createBlankExt4 ok driveSizeMB p = (None, tr)"
  by (auto simp: EphemeralDrive_def split: prod.splits option.splits)

interpretation upload_drive: drive_provider ok "MinioUploadDrive ok bucket obj p" "{p}"
  for ok bucket obj p
proof
  fix d tr F assume r: "removals_work ok" "F \<inter> {p} = {}"
  then have F: "p \<notin> F" by simp
  show "MinioUploadDrive ok bucket obj p = (None, tr) \<Longrightarrow> leftover ok tr F = F"
    using blank_ext4(2)[OF r(1) F] by (simp add: upload_drive_cases)
  assume "MinioUploadDrive ok bucket obj p = (Some d, tr)"
  then show "leftover ok tr F = insert (dr_path (dm_config d)) F \<and> dr_path (dm_config d) \<in> {p} \<and>
      dm_cleanup d = Some (RemoveFile (dr_path (dm_config d)))"
    using blank_ext4(1)[OF r(1) F, of driveSizeMB _ tr] unfolding upload_drive_cases by fastforce
qed

interpretation ephemeral_drive: drive_provider ok "EphemeralDrive ok p" "{p}"
  for ok p
proof
  fix d tr F assume r: "removals_work ok" "F \<inter> {p} = {}"
  then have F: "p \<notin> F" by simp
  show "EphemeralDrive ok p = (None, tr) \<Longrightarrow> leftover ok tr F = F"
    using blank_ext4(2)[OF r(1) F] by (simp add: ephemeral_cases)
  assume "EphemeralDrive ok p = (Some d, tr)"
  then show "leftover ok tr F = insert (dr_path (dm_config d)) F \<and> dr_path (dm_config d) \<in> {p} \<and>
      dm_cleanup d = Some (RemoveFile (dr_path (dm_config d)))"
    using blank_ext4(1)[OF r(1) F, of driveSizeMB _ tr] unfolding ephemeral_cases by fastforce
qed

text \<open>
  \<open>MinioDrive\<close> keeps the contract only when closing the fresh file succeeds: its other error paths
  remove the file, this one does not.
\<close>

lemma minio_drive_created:
  assumes "removals_work ok" "p \<notin> F" "MinioDrive ok bucket obj p = (Some d, tr)"
  shows "leftover ok tr F = insert p F \<and> dr_path (dm_config d) = p \<and> dm_cleanup d = Some (RemoveFile p)"
  using assms by (auto simp: MinioDrive_def step_def split: if_splits)

lemma minio_drive_failed:
  assumes "removals_work ok" "p \<notin> F" "MinioDrive ok bucket obj p = (None, tr)"
  shows "leftover ok tr F = (if ok (CreateTemp p) \<and> \<not> ok (CloseTemp p) then insert p F else F)"
  using assms by (auto simp: MinioDrive_def step_def removals_work_def split: if_splits)

lemma archive_drive_created:
  assumes "removals_work ok" "{tgz, dir, p} \<inter> F = {}" "distinct [tgz, dir, p]"
    and "ArchiveDrive ok bucket obj tgz dir p = (Some d, tr)"
  shows "leftover ok tr F = insert p F \<and> dr_path (dm_config d) = p \<and> dm_cleanup d = Some (RemoveFile p)"
  using assms by (auto simp: ArchiveDrive_def step_def deferred_def removals_work_def split: if_splits)

lemma archive_drive_failed:
  assumes "removals_work ok" "{tgz, dir, p} \<inter> F = {}" "distinct [tgz, dir, p]"
    and "ArchiveDrive ok bucket obj tgz dir p = (None, tr)"
  shows "leftover ok tr F = F"
  using assms by (auto simp: ArchiveDrive_def step_def deferred_def removals_work_def split: if_splits)

end
