(* ===== verification/VmRunner.thy ===== *)
theory VmRunner
  imports VmDrives InvocationLogs VmService "HOL-Library.Word"
begin

text \<open>
  \<open>internal/vm/vm\<close>: resource limits (\<open>resource.go\<close>), context ids (\<open>cid.go\<close>), the life of a
  microVM (\<open>vm.go\<close>) and the two runners that boot one for a build (\<open>prepare.go\<close>) or an
  execution (\<open>exec.go\<close>). The Firecracker SDK's calls are operations whose success \<open>ok\<close> decides.
  What a runner did is the list of the operations it attempted, deferred ones included; the
  teardown a cancelled context starts in the background is not part of it.
\<close>

section \<open>resource.go\<close>

record requirements =
  rr_cpu :: int
  rr_memory :: int
  rr_time :: int

record policy =
  pl_default_time :: int
  pl_time_limit :: int

definition minute :: int where "minute = 60 * 10 ^ 9"

definition CpuCountDefault :: int where "CpuCountDefault = 1"
definition MemoryMbDefault :: int where "MemoryMbDefault = 512"
definition CpuCountHardLimit :: int where "CpuCountHardLimit = 6"
definition MemoryMbHardLimit :: int where "MemoryMbHardLimit = 10 * 1024"

definition Defaults :: "policy \<Rightarrow> requirements" where
  "Defaults p = \<lparr>rr_cpu = CpuCountDefault, rr_memory = MemoryMbDefault, rr_time = pl_default_time p\<rparr>"

definition ApplyHardLimits :: "policy \<Rightarrow> requirements \<Rightarrow> requirements" where
  "ApplyHardLimits p r =
     (let r1 = (if rr_cpu r > CpuCountHardLimit then r\<lparr>rr_cpu := CpuCountHardLimit\<rparr> else r);
          r2 = (if rr_memory r1 > MemoryMbHardLimit then r1\<lparr>rr_memory := MemoryMbHardLimit\<rparr> else r1)
      in if rr_time r2 > pl_time_limit p then r2\<lparr>rr_time := pl_time_limit p\<rparr> else r2)"

definition ExecutePolicy :: policy where
  "ExecutePolicy = \<lparr>pl_default_time = 5 * minute, pl_time_limit = 15 * minute\<rparr>"

definition PreparePolicy :: policy where
  "PreparePolicy = \<lparr>pl_default_time = 30 * minute, pl_time_limit = 60 * minute\<rparr>"

text \<open>
  Clamping bounds every field by the policy's maximum, changes nothing that is within the bounds
  and is idempotent; the defaults of both policies are within their bounds.
\<close>

theorem hard_limits_clamp:
  "ApplyHardLimits p r = \<lparr>rr_cpu = min (rr_cpu r) 6, rr_memory = min (rr_memory r) 10240,
     rr_time = min (rr_time r) (pl_time_limit p)\<rparr> \<and>
   ApplyHardLimits p (ApplyHardLimits p r) = ApplyHardLimits p r \<and>
   ApplyHardLimits ExecutePolicy (Defaults ExecutePolicy) = Defaults ExecutePolicy \<and>
   ApplyHardLimits PreparePolicy (Defaults PreparePolicy) = Defaults PreparePolicy"
  by (cases r) (simp add: ApplyHardLimits_def CpuCountHardLimit_def MemoryMbHardLimit_def Let_def min_def
      Defaults_def ExecutePolicy_def PreparePolicy_def CpuCountDefault_def MemoryMbDefault_def minute_def)

section \<open>cid.go\<close>

definition initialCid :: "32 word" where "initialCid = 3"

definition allocateCid :: "32 word \<Rightarrow> 32 word \<times> 32 word" where
  "allocateCid nextCid = (let n = nextCid + 1 in (n - 1, n))"

fun allocate_many :: "nat \<Rightarrow> 32 word \<Rightarrow> 32 word list" where
  "allocate_many 0 next = []"
| "allocate_many (Suc n) next = (case allocateCid next of (cid, next') \<Rightarrow> cid # allocate_many n next')"

lemma allocate_many_eq: "allocate_many n next = map (\<lambda>i. next + of_nat i) [0..<n]"
proof (induction n arbitrary: "next")
  case (Suc n)
  have "map (\<lambda>i. next + of_nat i) [0..<Suc n] = next # map (\<lambda>i. next + of_nat (Suc i)) [0..<n]"
    by (simp add: map_upt_Suc del: upt_Suc of_nat_Suc)
  then show ?case using Suc by (simp add: allocateCid_def Let_def algebra_simps)
qed simp

text \<open>
  The first 2^32 - 3 context ids handed out are pairwise different and none of the reserved 0, 1
  and 2; the counter wraps around only after that.
\<close>

theorem cids_distinct:
  assumes "n \<le> 2 ^ 32 - 3"
  shows "distinct (allocate_many n initialCid) \<and> list_all (\<lambda>c. 3 \<le> c) (allocate_many n initialCid)"
proof -
  have val: "unat (initialCid + of_nat i) = 3 + i" if "i < n" for i
  proof -
    have "3 + i < 2 ^ 32" using that assms by simp
    then have "unat (of_nat (3 + i) :: 32 word) = 3 + i"
      by (simp only: unat_of_nat) (simp add: take_bit_nat_eq_self)
    then show ?thesis by (simp add: initialCid_def)
  qed
  have "inj_on (\<lambda>i. initialCid + of_nat i) {0..<n}"
    by (rule inj_onI) (metis val atLeastLessThan_iff add_left_cancel)
  moreover have "3 \<le> initialCid + of_nat i" if "i < n" for i
    using val[OF that] by (simp add: word_le_nat_alt)
  ultimately show ?thesis by (auto simp: allocate_many_eq distinct_map list_all_iff)
qed

theorem cids_distinct_witness: "distinct (allocate_many 100 initialCid)"
  using cids_distinct[of 100] by simp

section \<open>vm.go\<close>

record vm =
  vm_id :: string
  vm_cid :: "32 word"
  vm_log :: string
  vm_vsock :: string
  vm_jail :: string
  vm_configs :: "(string \<times> drive) list"
  vm_drives :: "drive_mount list"

definition drive_configs :: "drive_mount list \<Rightarrow> (string \<times> drive) list" where
  "drive_configs drives = map (\<lambda>(i, d). (''drive'' @ nat_digits i, dm_config d)) (enumerate 0 drives)"

definition vm_log_path :: "string \<Rightarrow> string" where
  "vm_log_path vmId = ''/tmp/vm-'' @ vmId @ ''.log''"

definition StartMachine ::
  "(host_op \<Rightarrow> bool) \<Rightarrow> string \<Rightarrow> 32 word \<Rightarrow> drive_mount list \<Rightarrow> vm attempt" where
  "StartMachine ok vmId nextCid drives =
     (let jailerDir = path_join (path_join jailerBase ''firecracker'') vmId;
          logPath = vm_log_path vmId;
          cid = fst (allocateCid nextCid)
      in step ok (RemoveStaleJail jailerDir) [] (
         step ok (CreateLog logPath) [] (
         step ok (NewMachine (unat cid)) [CancelMachine, CloseLog logPath] (
         step ok BootMachine [CancelMachine, CloseLog logPath]
           (Some \<lparr>vm_id = vmId, vm_cid = cid, vm_log = logPath,
                  vm_vsock = path_join (path_join jailerDir ''root'') ''vsock.sock'', vm_jail = jailerDir,
                  vm_configs = drive_configs drives, vm_drives = drives\<rparr>, [])))))"

text \<open>
  One pass of the connect loop: the dial fails, or the greeting cannot be written or is not
  acknowledged, and then closing the connection works or not.
\<close>

datatype dial = DialFailed | GreetingFailed bool | NotAcknowledged bool | Acknowledged

definition connectRetries :: nat where "connectRetries = 20"

fun connect_loop :: "dial list \<Rightarrow> bool \<times> nat" where
  "connect_loop [] = (False, 0)"
| "connect_loop (d # ds) =
     (let again = (case connect_loop ds of (c, n) \<Rightarrow> (c, Suc n)) in
      case d of
        DialFailed \<Rightarrow> again
      | GreetingFailed closed \<Rightarrow> if closed then again else (False, 1)
      | NotAcknowledged closed \<Rightarrow> if closed then again else (False, 1)
      | Acknowledged \<Rightarrow> (True, 1))"

text \<open>Whether a connection was made, and the number of dials.\<close>

definition Connect :: "(nat \<Rightarrow> dial) \<Rightarrow> bool \<times> nat" where
  "Connect answer = connect_loop (map answer [0..<connectRetries])"

text \<open>\<open>Stop\<close> under its \<open>sync.Once\<close>: the flag says whether it ran before.\<close>

definition Stop :: "(host_op \<Rightarrow> bool) \<Rightarrow> vm \<Rightarrow> bool \<Rightarrow> bool \<times> host_op list" where
  "Stop ok m stopped =
     (if stopped then (True, [])
      else (ok StopVMM, [StopVMM, WaitVMM, CancelMachine, CloseLog (vm_log m), RemoveAllDir (vm_jail m)]))"

definition cleanup_ops :: "drive_mount list \<Rightarrow> host_op list" where
  "cleanup_ops drives = concat (map (\<lambda>d. case dm_cleanup d of None \<Rightarrow> [] | Some op \<Rightarrow> [op]) drives)"

definition CleanUpDrives :: "vm \<Rightarrow> host_op list" where
  "CleanUpDrives m = cleanup_ops (vm_drives m)"

lemma connect_loop_dials: "snd (connect_loop ds) \<le> length ds"
  by (induction ds) (auto simp: Let_def split_beta split: dial.splits)

text \<open>The failures after which the loop tries again.\<close>

definition retried :: "dial \<Rightarrow> bool" where
  "retried d \<longleftrightarrow> d \<in> {DialFailed, GreetingFailed True, NotAcknowledged True}"

lemma connect_loop_iff:
  "fst (connect_loop ds) \<longleftrightarrow> (\<exists>i<length ds. ds ! i = Acknowledged \<and> (\<forall>j<i. retried (ds ! j)))"
proof (induction ds)
  case (Cons d ds)
  have "(\<exists>i<length (d # ds). (d # ds) ! i = Acknowledged \<and> (\<forall>j<i. retried ((d # ds) ! j))) \<longleftrightarrow>
      d = Acknowledged \<or> retried d \<and> (\<exists>i<length ds. ds ! i = Acknowledged \<and> (\<forall>j<i. retried (ds ! j)))"
    by (auto simp: Ex_less_Suc2 All_less_Suc2)
  then show ?case using Cons.IH by (cases d) (auto simp: Let_def split_beta retried_def)
qed simp

text \<open>
  C32: The connect loop dials at most 20 times, and connects exactly when one of the 20 attempts is
  acknowledged with every attempt before it failing in a way that is retried.
\<close>

theorem connect_bounded:
  "snd (Connect answer) \<le> 20 \<and>
   (fst (Connect answer) \<longleftrightarrow>
      (\<exists>i<20. answer i = Acknowledged \<and> list_all (\<lambda>j. retried (answer j)) [0..<i]))"
proof
  show "snd (Connect answer) \<le> 20"
    using connect_loop_dials[of "map answer [0..<connectRetries]"] by (simp add: Connect_def connectRetries_def)
  show "fst (Connect answer) \<longleftrightarrow> (\<exists>i<20. answer i = Acknowledged \<and> list_all (\<lambda>j. retried (answer j)) [0..<i])"
    by (auto simp: Connect_def connectRetries_def connect_loop_iff list_all_length simp del: upt_conv_Cons)
qed

section \<open>The runners\<close>

text \<open>The names of the temporary files one run creates.\<close>

record temp_names =
  tn_tgz :: string
  tn_extract :: string
  tn_squashfs :: string
  tn_second :: string
  tn_third :: string

text \<open>
  What the environment does: how the dials end, whether the context expired so that the
  background teardown ran first, what the agent sends, and whether the log upload succeeds.
\<close>

record env =
  en_vm_id :: string
  en_next_cid :: "32 word"
  en_dial :: "nat \<Rightarrow> dial"
  en_expired :: bool
  en_received :: "(recv_error + message) list"
  en_put :: "string \<Rightarrow> bool"

datatype runner_error =
    CodeDriveFailed | DepsDriveFailed | TmpDriveFailed | StartFailed | ConnectFailed | SendFailed
  | StreamFailed stream_error | SaveFailed | UserFailed

text \<open>
  From the start of the machine on: \<open>CleanUpDrives\<close> and the connection's \<open>Close\<close> are deferred, and
  before the machine runs its failure makes the pending cleanups run instead; \<open>after\<close> is what
  follows the terminal message and the stop of the machine.
\<close>

definition run_machine ::
  "(host_op \<Rightarrow> bool) \<Rightarrow> env \<Rightarrow> drive_mount list \<Rightarrow> drive_mount list \<Rightarrow> string \<Rightarrow>
   (message \<Rightarrow> runner_error option \<times> host_op list) \<Rightarrow> runner_error option \<times> host_op list" where
  "run_machine ok env drives pending logs after =
     (case StartMachine ok (en_vm_id env) (en_next_cid env) drives of
        (None, tr) \<Rightarrow> (Some StartFailed, tr @ cleanup_ops pending)
      | (Some m, tr) \<Rightarrow>
          (case Connect (en_dial env) of
             (False, n) \<Rightarrow> (Some ConnectFailed, tr @ replicate n DialAgent @ CleanUpDrives m)
           | (True, n) \<Rightarrow>
               let tr1 = tr @ replicate n DialAgent @ [SendAgent]; close = CloseConn # CleanUpDrives m in
               if \<not> ok SendAgent then (Some SendFailed, tr1 @ close)
               else (case fst (Stream (en_put env) (en_received env)) of
                       Inl e \<Rightarrow> (Some (StreamFailed e), tr1 @ [StreamLog logs] @ close)
                     | Inr fin \<Rightarrow>
                         (case after fin of (err, ops) \<Rightarrow>
                            (err, tr1 @ [StreamLog logs] @ snd (Stop ok m (en_expired env)) @ ops @ close)))))"

definition Execute ::
  "(host_op \<Rightarrow> bool) \<Rightarrow> env \<Rightarrow> temp_names \<Rightarrow> string \<Rightarrow> string \<Rightarrow> string \<Rightarrow> string \<Rightarrow> string \<Rightarrow>
   runner_error option \<times> host_op list" where
  "Execute ok env tn codeBucket drivesBucket code deps logs =
     (case ArchiveDrive ok codeBucket code (tn_tgz tn) (tn_extract tn) (tn_squashfs tn) of
        (None, tr) \<Rightarrow> (Some CodeDriveFailed, tr)
      | (Some codeDrive, tr1) \<Rightarrow>
          (case MinioDrive ok drivesBucket deps (tn_second tn) of
             (None, tr2) \<Rightarrow> (Some DepsDriveFailed, tr1 @ tr2 @ cleanup_ops [codeDrive])
           | (Some depsDrive, tr2) \<Rightarrow>
               (case EphemeralDrive ok (tn_third tn) of
                  (None, tr3) \<Rightarrow> (Some TmpDriveFailed, tr1 @ tr2 @ tr3 @ cleanup_ops [codeDrive, depsDrive])
                | (Some tmpDrive, tr3) \<Rightarrow>
                    (case run_machine ok env [RootDrive, codeDrive, depsDrive, tmpDrive]
                            [codeDrive, depsDrive, tmpDrive] logs (\<lambda>_. (None, [])) of
                       (err, tr4) \<Rightarrow> (err, tr1 @ tr2 @ tr3 @ tr4)))))"

definition is_successful :: "message \<Rightarrow> bool" where
  "is_successful m \<longleftrightarrow> m_type m = TypeDone \<and> m_exit_code m = Some 0"

definition save_if_successful :: "(host_op \<Rightarrow> bool) \<Rightarrow> drive_mount \<Rightarrow> message \<Rightarrow> runner_error option \<times> host_op list" where
  "save_if_successful ok depsDrive m =
     (if is_successful m
      then (case dm_save depsDrive of
              None \<Rightarrow> (None, [])
            | Some op \<Rightarrow> (if ok op then None else Some SaveFailed, [op]))
      else (Some UserFailed, []))"

definition PrepareEnvironment ::
  "(host_op \<Rightarrow> bool) \<Rightarrow> env \<Rightarrow> temp_names \<Rightarrow> string \<Rightarrow> string \<Rightarrow> string \<Rightarrow> string \<Rightarrow> string \<Rightarrow>
   runner_error option \<times> host_op list" where
  "PrepareEnvironment ok env tn codeBucket drivesBucket code deps logs =
     (case ArchiveDrive ok codeBucket code (tn_tgz tn) (tn_extract tn) (tn_squashfs tn) of
        (None, tr) \<Rightarrow> (Some CodeDriveFailed, tr)
      | (Some archiveDrive, tr1) \<Rightarrow>
          (case MinioUploadDrive ok drivesBucket deps (tn_second tn) of
             (None, tr2) \<Rightarrow> (Some DepsDriveFailed, tr1 @ tr2 @ cleanup_ops [archiveDrive])
           | (Some depsDrive, tr2) \<Rightarrow>
               (case run_machine ok env [RootDrive, archiveDrive, depsDrive] [archiveDrive, depsDrive] logs
                       (save_if_successful ok depsDrive) of
                  (err, tr3) \<Rightarrow> (err, tr1 @ tr2 @ tr3))))"

text \<open>The error types the services tell apart.\<close>

definition run_error_of :: "runner_error option \<Rightarrow> run_error option" where
  "run_error_of e = map_option (\<lambda>e. if e = UserFailed then UserError else SystemError ''runner'') e"

section \<open>No temporary file survives a run\<close>

definition neutral :: "host_op \<Rightarrow> bool" where
  "neutral op \<longleftrightarrow> (case op of CreateTemp _ \<Rightarrow> False | CreateLog _ \<Rightarrow> False | MkdirTemp _ \<Rightarrow> False | RemoveFile _ \<Rightarrow> False
     | RemoveAllDir _ \<Rightarrow> False | _ \<Rightarrow> True)"

lemma neutral_leftover: "list_all neutral tr \<Longrightarrow> leftover ok tr F = F"
proof (induction tr arbitrary: F)
  case (Cons op tr)
  then have "effect ok op F = F" by (cases op) (simp_all add: neutral_def)
  with Cons show ?case by simp
qed simp

lemma start_machine_log: "leftover ok (snd (StartMachine ok i n drives)) F \<subseteq> insert (vm_log_path i) F"
  by (auto simp: StartMachine_def step_def Let_def)

lemma start_machine_drives: "StartMachine ok i n drives = (Some m, tr) \<Longrightarrow> vm_drives m = drives"
  by (auto simp: StartMachine_def step_def Let_def split: if_splits)

lemma stop_leftover: "leftover ok (snd (Stop ok m b)) F \<subseteq> F"
  by (auto simp: Stop_def)

lemma leftover_mono: "F \<subseteq> G \<Longrightarrow> leftover ok tr F \<subseteq> leftover ok tr G"
proof (induction tr arbitrary: F G)
  case (Cons op tr)
  have "effect ok op F \<subseteq> effect ok op G" using Cons.prems by (cases op) auto
  with Cons.IH show ?case by simp
qed simp

text \<open>Every run of the machine ends with the cleanup of its drives, whatever went wrong before.\<close>

lemma run_machine_ends:
  assumes "cleanup_ops pending = cleanup_ops drives"
    and "\<And>m. list_all neutral (snd (after m))"
  shows "leftover ok (snd (run_machine ok env drives pending logs after)) F
    \<subseteq> leftover ok (cleanup_ops drives) (insert (vm_log_path (en_vm_id env)) F)"
proof (cases "StartMachine ok (en_vm_id env) (en_next_cid env) drives")
  case (Pair r tr)
  let ?F = "insert (vm_log_path (en_vm_id env)) F"
  have tr: "leftover ok tr F \<subseteq> ?F"
    using start_machine_log[of ok "en_vm_id env" "en_next_cid env" drives F] Pair by simp
  note mono = leftover_mono[OF tr, of ok "cleanup_ops drives"]
  have dials: "leftover ok (replicate n DialAgent) G = G" for n G
    by (rule neutral_leftover) (simp add: list_all_iff neutral_def)
  show ?thesis
  proof (cases r)
    case None
    then show ?thesis using Pair assms(1) mono by (simp add: run_machine_def)
  next
    case (Some m)
    have clean: "CleanUpDrives m = cleanup_ops drives"
      using start_machine_drives Pair Some by (simp add: CleanUpDrives_def)
    have after: "leftover ok (snd (after x)) G = G" for x G using neutral_leftover[OF assms(2)] .
    have stop: "leftover ok (snd (Stop ok m (en_expired env))) (leftover ok tr F) \<subseteq> ?F"
      using stop_leftover tr by blast
    obtain c n where conn: "Connect (en_dial env) = (c, n)" by fastforce
    show ?thesis
    proof (cases "c \<and> ok SendAgent")
      case False
      then show ?thesis
        using Pair Some conn mono dials clean by (cases c) (auto simp: run_machine_def Let_def)
    next
      case True
      then show ?thesis
        using Pair Some conn mono dials clean after leftover_mono[OF stop, of ok "cleanup_ops drives"]
        by (auto simp: run_machine_def Let_def split_beta split: sum.splits)
    qed
  qed
qed

definition distinct_names :: "temp_names \<Rightarrow> bool" where
  "distinct_names tn \<longleftrightarrow> distinct [tn_tgz tn, tn_extract tn, tn_squashfs tn, tn_second tn, tn_third tn]"

lemma RootDrive_cleanup [simp]: "dm_cleanup RootDrive = None"
  by (simp add: RootDrive_def)

lemma cleanup_ops_simps [simp]:
  "cleanup_ops [] = []"
  "cleanup_ops (d # ds) = (case dm_cleanup d of None \<Rightarrow> [] | Some op \<Rightarrow> [op]) @ cleanup_ops ds"
  by (simp_all add: cleanup_ops_def)

lemma execution_with_drives:
  assumes "removals_work ok" and "distinct_names tn"
    and archive: "ArchiveDrive ok cb code (tn_tgz tn) (tn_extract tn) (tn_squashfs tn) = (Some codeDrive, tr1)"
    and deps: "MinioDrive ok db deps (tn_second tn) = (Some depsDrive, tr2)"
    and c: "leftover ok tr1 {} = {tn_squashfs tn}" "dm_cleanup codeDrive = Some (RemoveFile (tn_squashfs tn))"
  shows "leftover ok (snd (Execute ok env tn cb db code deps logs)) {} \<subseteq> {vm_log_path (en_vm_id env)}"
proof -
  have names: "tn_second tn \<noteq> tn_squashfs tn" "tn_third tn \<notin> {tn_second tn, tn_squashfs tn}"
    using assms(2) by (auto simp: distinct_names_def)
  have rm: "ok (RemoveFile p)" for p using assms(1) by (simp add: removals_work_def)
  note d = minio_drive_created[OF assms(1), of "tn_second tn" "{tn_squashfs tn}" db deps depsDrive tr2]
  obtain e tr3 where tmp: "EphemeralDrive ok (tn_third tn) = (e, tr3)" by fastforce
  show ?thesis
  proof (cases e)
    case None
    then show ?thesis
      using archive deps tmp c d rm names assms(1)
        ephemeral_drive.failed[of ok "tn_third tn" tr3 "{tn_second tn, tn_squashfs tn}"]
      by (auto simp: Execute_def)
  next
    case t: (Some tmpDrive)
    note t' = ephemeral_drive.created[of ok "tn_third tn" tmpDrive tr3 "{tn_second tn, tn_squashfs tn}"]
    have run: "leftover ok (snd (run_machine ok env [RootDrive, codeDrive, depsDrive, tmpDrive]
        [codeDrive, depsDrive, tmpDrive] logs (\<lambda>_. (None, [])))) F
      \<subseteq> leftover ok (cleanup_ops [RootDrive, codeDrive, depsDrive, tmpDrive])
            (insert (vm_log_path (en_vm_id env)) F)" for F
      by (rule run_machine_ends) simp_all
    show ?thesis
      using archive deps tmp t c d t' rm names assms(1)
        run[of "insert (tn_third tn) {tn_second tn, tn_squashfs tn}"]
      by (auto simp: Execute_def split_beta)
  qed
qed


text \<open>
  A build leaves no drive and no temporary file on the host either, on whichever of its steps it
  fails: at most the console log of its VM.
\<close>

theorem preparation_leaves_no_files:
  assumes "removals_work ok" and "distinct_names tn"
  shows "leftover ok (snd (PrepareEnvironment ok env tn cb db code deps logs)) {} \<subseteq> {vm_log_path (en_vm_id env)}"
proof (cases "ArchiveDrive ok cb code (tn_tgz tn) (tn_extract tn) (tn_squashfs tn)")
  case archive: (Pair a tr1)
  have names: "distinct [tn_tgz tn, tn_extract tn, tn_squashfs tn]" "tn_second tn \<noteq> tn_squashfs tn"
    using assms(2) by (auto simp: distinct_names_def)
  have rm: "ok (RemoveFile p)" for p using assms(1) by (simp add: removals_work_def)
  show ?thesis
  proof (cases a)
    case None
    then show ?thesis
      using archive_drive_failed[OF assms(1) _ names(1), of "{}"] archive by (simp add: PrepareEnvironment_def)
  next
    case code: (Some codeDrive)
    note c = archive_drive_created[OF assms(1) _ names(1), of "{}", simplified, OF archive[unfolded code]]
    obtain b tr2 where deps: "MinioUploadDrive ok db deps (tn_second tn) = (b, tr2)" by fastforce
    show ?thesis
    proof (cases b)
      case None
      then show ?thesis
        using archive code deps c rm names(2) assms(1)
          upload_drive.failed[of ok db deps "tn_second tn" tr2 "{tn_squashfs tn}"]
        by (auto simp: PrepareEnvironment_def)
    next
      case (Some depsDrive)
      note d = upload_drive.created[of ok db deps "tn_second tn" depsDrive tr2 "{tn_squashfs tn}"]
      have "list_all neutral (snd (save_if_successful ok depsDrive m))" for m
        using Some deps
        by (auto simp: save_if_successful_def MinioUploadDrive_def neutral_def split: option.splits prod.splits)
      then have run: "leftover ok (snd (run_machine ok env [RootDrive, codeDrive, depsDrive] [codeDrive, depsDrive]
            logs (save_if_successful ok depsDrive))) F
          \<subseteq> leftover ok (cleanup_ops [RootDrive, codeDrive, depsDrive])
                (insert (vm_log_path (en_vm_id env)) F)" for F
        by (intro run_machine_ends) simp_all
      show ?thesis
        using archive code deps Some c d rm names assms(1) run[of "{tn_second tn, tn_squashfs tn}"]
        by (auto simp: PrepareEnvironment_def split_beta)
    qed
  qed
qed

definition sample_names :: temp_names where
  "sample_names = \<lparr>tn_tgz = ''/tmp/a.tar.gz'', tn_extract = ''/tmp/x'', tn_squashfs = ''/d/1.sqfs'',
     tn_second = ''/d/2.ext4'', tn_third = ''/d/3.ext4''\<rparr>"

definition sample_env :: "message \<Rightarrow> env" where
  "sample_env m = \<lparr>en_vm_id = ''id'', en_next_cid = 3, en_dial = (\<lambda>i. if i < 2 then DialFailed else Acknowledged),
     en_expired = False, en_received = [Inr m], en_put = (\<lambda>_. True)\<rparr>"

definition sample_ok :: "host_op \<Rightarrow> bool" where
  "sample_ok op \<longleftrightarrow> (case op of MkfsExt4 _ \<Rightarrow> False | _ \<Rightarrow> True)"

lemma sample_facts: "removals_work sample_ok" "removals_work (\<lambda>_. True)" "distinct_names sample_names"
  by (simp_all add: removals_work_def sample_ok_def distinct_names_def sample_names_def)


theorem preparation_leaves_no_files_witness:
  "leftover sample_ok (snd (PrepareEnvironment sample_ok (sample_env (Done 0)) sample_names ''f'' ''d'' ''c'' ''o'' ''l'')) {}
     \<subseteq> {vm_log_path (en_vm_id (sample_env (Done 0)))}"
  by (rule preparation_leaves_no_files[OF sample_facts(1,3)])

text \<open>The log is really left, and the exception is real: a failing \<open>Close\<close> leaks the file.\<close>

lemma console_log_stays:
  "leftover (\<lambda>_. True) (snd (StartMachine (\<lambda>_. True) i n ds)) F = insert (vm_log_path i) F"
  "leftover ok (snd (Stop ok m b)) G \<supseteq> G - {vm_jail m}"
  by (auto simp: StartMachine_def step_def Let_def Stop_def)

lemma minio_drive_leaks:
  "leftover (\<lambda>op. op \<noteq> CloseTemp ''/d/2.ext4'') (snd (MinioDrive (\<lambda>op. op \<noteq> CloseTemp ''/d/2.ext4'') b obj ''/d/2.ext4'')) {}
     = {''/d/2.ext4''}"
  by (simp add: MinioDrive_def step_def)

section \<open>What success means\<close>

lemma run_machine_success:
  assumes "\<forall>op. ok op \<or> (\<exists>b obj p. op = FPutObject b obj p)" and "fst (Connect (en_dial env))"
  shows "fst (run_machine ok env drives pending logs after) =
     (case fst (Stream (en_put env) (en_received env)) of
        Inl e \<Rightarrow> Some (StreamFailed e) | Inr fin \<Rightarrow> fst (after fin))"
proof -
  have op: "ok (RemoveStaleJail p)" "ok (CreateLog p)" "ok (NewMachine n)" "ok BootMachine" "ok SendAgent" for p n
    using assms(1) by blast+
  obtain m tr where "StartMachine ok (en_vm_id env) (en_next_cid env) drives = (Some m, tr)"
    by (simp add: StartMachine_def step_def op Let_def)
  moreover obtain n where "Connect (en_dial env) = (True, n)" using assms(2) by (metis prod.collapse)
  ultimately show ?thesis using op by (auto simp: run_machine_def Let_def split_beta split: sum.splits)
qed


lemma sample_env_runs:
  "fst (Stream (en_put (sample_env (Done c))) (en_received (sample_env (Done c)))) = Inr (Done c)"
  "fst (Connect (en_dial (sample_env (Done c))))"
proof -
  show "fst (Stream (en_put (sample_env (Done c))) (en_received (sample_env (Done c)))) = Inr (Done c)"
    by (simp add: sample_env_def Stream_def Done_def Let_def)
  show "fst (Connect (en_dial (sample_env (Done c))))"
    by (simp add: sample_env_def Connect_def connectRetries_def connect_loop_iff) (intro exI[of _ 2], simp add: retried_def)
qed


lemma execution_succeeds:
  assumes "\<forall>op. ok op \<or> (\<exists>b obj p. op = FPutObject b obj p)" and "fst (Connect (en_dial env))"
    and "fst (Stream (en_put env) (en_received env)) = Inr fin"
  shows "fst (Execute ok env tn cb db code deps logs) = None"
proof -
  have op: "ok op" if "\<forall>b obj p. op \<noteq> FPutObject b obj p" for op using assms(1) that by blast
  show ?thesis
    by (simp add: Execute_def ArchiveDrive_def MinioDrive_def EphemeralDrive_def createBlankExt4_def step_def deferred_def
        op split_beta run_machine_success[OF assms(1,2)] assms(3))
qed

text \<open>
  An execution reports success for every terminal message the agent sends: exit codes other
  than 0 and errors of the agent included.
\<close>

theorem execution_success_ignores_exit:
  assumes "\<forall>op. ok op \<or> (\<exists>b obj p. op = FPutObject b obj p)" and "fst (Connect (en_dial env))"
    and "fst (Stream (en_put env) (en_received env)) = Inr fin"
  shows "fst (Execute ok env tn cb db code deps logs) = None"
  using assms by (rule execution_succeeds)

theorem execution_success_ignores_exit_witness:
  "fst (Execute (\<lambda>_. True) (sample_env (Done 1)) sample_names ''f'' ''d'' ''c'' ''o'' ''l'') = None"
  using execution_success_ignores_exit[of "\<lambda>_. True" "sample_env (Done 1)" "Done 1"] sample_env_runs[of 1] by simp

end
