(* ===== verification/WorkerPool.thy ===== *)
theory WorkerPool
  imports VmService
begin

text \<open>
  The execute workers of the VM service as a transition system. Each worker runs \<open>Execute\<close> on a
  delivery of the same message; between its claim and its final statement other workers, the
  dead-letter publisher and statements on other rows interleave freely. The two halves of
  \<open>Execute\<close> around the runner are separate steps; \<open>execute_split\<close> shows that run back to back
  they are the function of \<open>VmService\<close>.
\<close>

definition execute_claim :: "execute_message \<Rightarrow> bool stmt" where
  "execute_claim m s = update_invocation_status_if (em_invocation m) InvPending InvExecuting s"

definition execute_finish ::
  "string \<Rightarrow> timestamp \<Rightarrow> execute_message \<Rightarrow> run_error option \<Rightarrow> pg \<Rightarrow> service_error option \<times> pg" where
  "execute_finish logs endTime m res s = (case res of
     Some e \<Rightarrow> (Some (RunFailed e), snd (update_invocation_status (em_invocation m) InvPending s))
   | None \<Rightarrow> (None, snd (update_invocation_status_log_end (em_invocation m) InvDone logs endTime s)))"

lemma execute_split:
  "execute ustr fmt t1 t2 runner m s =
     (case execute_claim m s of
        (Inl e, s1) \<Rightarrow> (Some (StoreFailed e), s1)
      | (Inr False, s1) \<Rightarrow> (None, s1)
      | (Inr True, s1) \<Rightarrow>
          execute_finish (generate_object_name ustr fmt (em_invocation m) t1) t2 m
            (runner (em_code_object m) (em_deps_object m)
               (generate_object_name ustr fmt (em_invocation m) t1) (em_payload m)) s1)"
  by (auto simp: execute_def execute_claim_def execute_finish_def
        split: prod.splits sum.splits bool.splits option.splits)

section \<open>Workers\<close>

datatype worker = Waiting | Running | Finished

record pool =
  p_db :: pg
  p_worker :: "nat \<Rightarrow> worker"

inductive pool_step :: "execute_message \<Rightarrow> pool \<Rightarrow> pool \<Rightarrow> bool" for m where
  claimed: "p_worker s w = Waiting \<Longrightarrow> execute_claim m (p_db s) = (Inr True, db') \<Longrightarrow>
     pool_step m s (s\<lparr>p_db := db', p_worker := (p_worker s)(w := Running)\<rparr>)"
| skipped: "p_worker s w = Waiting \<Longrightarrow> execute_claim m (p_db s) = (r, db') \<Longrightarrow> r \<noteq> Inr True \<Longrightarrow>
     pool_step m s (s\<lparr>p_db := db', p_worker := (p_worker s)(w := Finished)\<rparr>)"
| finished: "p_worker s w = Running \<Longrightarrow> execute_finish logs t m res (p_db s) = (e, db') \<Longrightarrow>
     pool_step m s (s\<lparr>p_db := db', p_worker := (p_worker s)(w := Finished)\<rparr>)"
| redelivered: "p_worker s w = Finished \<Longrightarrow>
     pool_step m s (s\<lparr>p_worker := (p_worker s)(w := Waiting)\<rparr>)"
| dead_lettered: "update_invocation_status (em_invocation m) InvFailed (p_db s) = (r, db') \<Longrightarrow>
     pool_step m s (s\<lparr>p_db := db'\<rparr>)"
| elsewhere: "inv_status_of db' (em_invocation m) = inv_status_of (p_db s) (em_invocation m) \<Longrightarrow>
     pg_wf db' \<Longrightarrow> pool_step m s (s\<lparr>p_db := db'\<rparr>)"

inductive pool_reachable :: "execute_message \<Rightarrow> pool \<Rightarrow> bool" for m where
  start: "pg_wf db \<Longrightarrow> pool_reachable m \<lparr>p_db = db, p_worker = \<lambda>_. Waiting\<rparr>"
| step: "pool_reachable m s \<Longrightarrow> pool_step m s t \<Longrightarrow> pool_reachable m t"

text \<open>
  The invariant: while a worker runs the invocation, its status is not PENDING, so no other
  claim can succeed; and only one worker runs it.
\<close>

definition pool_inv :: "execute_message \<Rightarrow> pool \<Rightarrow> bool" where
  "pool_inv m s \<longleftrightarrow> pg_wf (p_db s) \<and>
     (\<forall>w. p_worker s w = Running \<longrightarrow> inv_status_of (p_db s) (em_invocation m) \<noteq> Some InvPending \<and>
        (\<forall>v. p_worker s v = Running \<longrightarrow> v = w))"

lemma execute_finish_wf: "pg_wf s \<Longrightarrow> pg_wf (snd (execute_finish logs t m res s))"
  by (cases res) (simp_all add: execute_finish_def wf_update_statements)

lemma claim_pending:
  assumes "pg_wf db" and "execute_claim m db = (Inr True, db')"
  shows "inv_status_of db (em_invocation m) = Some InvPending"
    and "inv_status_of db' (em_invocation m) = Some InvExecuting" and "pg_wf db'"
  using assms inv_store.update_if_true[of db "em_invocation m" InvPending InvExecuting db']
    wf_update_statements(5)[of db "em_invocation m" InvPending InvExecuting]
  by (simp_all add: execute_claim_def)

lemma claim_missed:
  assumes "pg_wf db" and "execute_claim m db = (r, db')" and "r \<noteq> Inr True"
  shows "inv_status_of db' = inv_status_of db" and "pg_wf db'"
proof -
  show "pg_wf db'" using assms(1,2) wf_update_statements(5) by (metis execute_claim_def snd_conv)
  show "inv_status_of db' = inv_status_of db"
    using assms inv_store.update_if_false inv_store.update_if_err
    by (cases r) (auto simp: execute_claim_def)
qed

lemma dead_letter_not_pending:
  assumes "update_invocation_status k InvFailed db = (r, db')" and "inv_status_of db k \<noteq> Some InvPending"
  shows "inv_status_of db' k \<noteq> Some InvPending"
  using assms inv_update_ok[of k InvFailed db] failed_updates(4)[of k InvFailed db]
  by (cases r) auto

lemma pool_step_inv:
  assumes "pool_step m s t" and "pool_inv m s"
  shows "pool_inv m t"
  using assms
proof (induction rule: pool_step.induct)
  case (claimed s w db')
  then have "p_worker s v \<noteq> Running" for v
    using claim_pending(1) by (auto simp: pool_inv_def)
  with claimed show ?case
    using claim_pending(2,3)[of "p_db s" m db'] by (auto simp: pool_inv_def)
next
  case (skipped s w r db')
  then show ?case
    using claim_missed[of "p_db s" m r db'] by (auto simp: pool_inv_def)
next
  case (finished s w logs t res e db')
  then have "pg_wf db'"
    using execute_finish_wf[of "p_db s" logs t m res] by (simp add: pool_inv_def)
  with finished show ?case by (auto simp: pool_inv_def)
next
  case (redelivered s w)
  then show ?case by (auto simp: pool_inv_def)
next
  case (dead_lettered s r db')
  then have "pg_wf db'"
    using wf_update_statements(4)[of "p_db s" "em_invocation m" InvFailed] by (simp add: pool_inv_def)
  with dead_lettered dead_letter_not_pending show ?case by (auto simp: pool_inv_def)
next
  case (elsewhere db' s)
  then show ?case by (auto simp: pool_inv_def)
qed

lemma pool_reachable_inv: "pool_reachable m s \<Longrightarrow> pool_inv m s"
  by (induction rule: pool_reachable.induct) (auto simp: pool_inv_def[of m "\<lparr>p_db = _, p_worker = _\<rparr>"] intro: pool_step_inv)

inductive_cases pool_claim: "pool_step m s (s\<lparr>p_db := db', p_worker := (p_worker s)(w := Running)\<rparr>)"

text \<open>
  C12: In every interleaving of any number of deliveries of one execution message, of the
  dead-letter publisher and of statements on other rows, at most one worker is running the
  invocation at a time.
\<close>

theorem one_worker_runs:
  assumes "pool_reachable m s" and "p_worker s v = Running" and "p_worker s w = Running"
  shows "v = w"
  using pool_reachable_inv[OF assms(1)] assms(2,3) by (auto simp: pool_inv_def)

theorem one_worker_runs_witness:
  "\<exists>s. pool_reachable \<lparr>em_invocation = 9, em_code_object = ''a'', em_deps_object = ''d'', em_payload = ''{}''\<rparr> s
     \<and> p_worker s 4 = Running \<and> (\<forall>v. p_worker s v = Running \<longrightarrow> v = 4)"
proof -
  let ?m = "\<lparr>em_invocation = 9, em_code_object = ''a'', em_deps_object = ''d'', em_payload = ''{}''\<rparr>"
  let ?db = "sample_pg FnReady InvPending"
  let ?s0 = "\<lparr>p_db = ?db, p_worker = \<lambda>_. Waiting\<rparr>"
  have pend: "inv_status_of ?db (em_invocation ?m) = Some InvPending" by (simp add: sample_pg_facts)
  obtain db' where db': "execute_claim ?m ?db = (Inr True, db')"
    unfolding execute_claim_def using execute_claimed[OF sample_pg_facts(1,2) pend] by blast
  let ?s1 = "?s0\<lparr>p_db := db', p_worker := (p_worker ?s0)(4 := Running)\<rparr>"
  have "pool_reachable ?m ?s0" by (rule pool_reachable.start) (rule sample_pg_facts)
  moreover have "pool_step ?m ?s0 ?s1"
    by (rule pool_step.claimed) (simp_all add: db')
  ultimately have r: "pool_reachable ?m ?s1" by (rule pool_reachable.step)
  have "p_worker ?s1 4 = Running" by simp
  with r show ?thesis using one_worker_runs[OF r] by blast
qed

end
