(* ===== verification/Lifecycle.thy ===== *)
theory Lifecycle
  imports Handlers AuthKeys VmRunner WorkerPool
begin

text \<open>
  The whole life of functions and invocations: every component that writes the database as a step
  on it. A step is one call of a component with any inputs and any answers of its
  environment (object store, broker, VM, model, clock), so that the reachable databases are those
  of every interleaving of uploads, event workers, analyses, builds, executions, dead letters and commands of the
  admin tool.
\<close>

section \<open>Steps\<close>

inductive sys_step :: "pg \<Rightarrow> pg \<Rightarrow> bool" where
  upload: "sys_step s (up_db (UploadLambda ustr fo ff now put bucket user body bus s))"
| quarantine: "sys_step s (snd (quarantine_step getObject now e s))"
| analyze: "sys_step s (pr_db (processMessage dec ans analyzer quarantine functions payload s))"
| request: "sys_step s (snd (snd (ExecuteLambda parseUuid fresh now publish body fid s)))"
| build: "sys_step s (snd (snd (build_handle decb (prepare ustr fresh runner) payload s)))"
| run: "sys_step s (snd (snd (execute_handle dece (execute ustr fmt t1 t2 erunner) payload s)))"
| build_dead: "sys_step s (snd (status_fail_publish decb (base :: string \<Rightarrow> string list \<Rightarrow> string option) topic payloads s))"
| run_dead: "sys_step s (snd (execute_status_fail_publish dece (base :: string \<Rightarrow> string list \<Rightarrow> string option) topic payloads s))"
| new_user: "sys_step s (snd (create_user fresh name email s))"
| new_key: "sys_step s (snd (CreateAuthKey aes kek raw nonce authID userID s))"
| outage: "sys_step s (s\<lparr>pg_outcomes := outcomes\<rparr>)"

text \<open>The tables the admin tool writes: their unique columns, and the owners of the keys.\<close>

definition accounts_ok :: "pg \<Rightarrow> bool" where
  "accounts_ok s \<longleftrightarrow> distinct (map u_id (pg_users s)) \<and> distinct (map u_name (pg_users s)) \<and> distinct (map u_email (pg_users s)) \<and>
     distinct (map k_auth_id (pg_keys s)) \<and> k_user ` set (pg_keys s) \<subseteq> u_id ` set (pg_users s)"

inductive sys_reachable :: "pg \<Rightarrow> bool" where
  start: "pg_functions s = [] \<Longrightarrow> pg_invocations s = [] \<Longrightarrow> accounts_ok s \<Longrightarrow> sys_reachable s"
| step: "sys_reachable s \<Longrightarrow> sys_step s s' \<Longrightarrow> sys_reachable s'"

section \<open>The invariant\<close>

definition ready_has_drive :: "pg \<Rightarrow> bool" where
  "ready_has_drive s \<longleftrightarrow> (\<forall>f\<in>set (pg_functions s). f_status f = FnReady \<longrightarrow> f_drive_path f \<noteq> None)"

definition sys_inv :: "pg \<Rightarrow> bool" where
  "sys_inv s \<longleftrightarrow> pg_wf s \<and> ready_has_drive s \<and> accounts_ok s"

lemma sys_inv_cong:
  "pg_users s' = pg_users s \<Longrightarrow> pg_keys s' = pg_keys s \<Longrightarrow> pg_functions s' = pg_functions s \<Longrightarrow>
   pg_invocations s' = pg_invocations s \<Longrightarrow> sys_inv s' = sys_inv s"
  using pg_wf_cong[of s' s] by (simp add: sys_inv_def ready_has_drive_def accounts_ok_def)

text \<open>The statements on functions and invocations leave users and keys as they are.\<close>

lemma accounts_cong: "pg_users s' = pg_users s \<Longrightarrow> pg_keys s' = pg_keys s \<Longrightarrow> accounts_ok s' = accounts_ok s"
  by (simp add: accounts_ok_def)

lemma accounts_updates [simp]:
  "accounts_ok (s\<lparr>pg_outcomes := outcomes\<rparr>) = accounts_ok s" "accounts_ok (s\<lparr>pg_functions := fs\<rparr>) = accounts_ok s"
  "accounts_ok (s\<lparr>pg_invocations := is\<rparr>) = accounts_ok s"
  by (simp_all add: accounts_ok_def)

lemma accounts_statements [simp]:
  "accounts_ok (snd (update_functions_where P upd s)) = accounts_ok s"
  "accounts_ok (snd (update_invocations_where Q upd' s)) = accounts_ok s"
  "accounts_ok (snd (create_function k u st p s)) = accounts_ok s"
  "accounts_ok (snd (create_invocation i k t s)) = accounts_ok s"
  by (rule accounts_cong; simp add: update_functions_where_def update_invocations_where_def create_function_def
      create_invocation_def db_exec_def Let_def split: list.splits)+

text \<open>A statement keeps the second half when it leaves the functions alone or rewrites them so.\<close>

lemma ready_update_functions:
  assumes "ready_has_drive s"
    and "\<And>f. f_status (upd f) = FnReady \<Longrightarrow> f_drive_path (upd f) \<noteq> None"
  shows "ready_has_drive (snd (update_functions_where P upd s))"
  using assms unfolding update_functions_where_def
  by (cases "pg_outcomes s") (auto simp: db_exec_def ready_has_drive_def)

lemma ready_update_invocations:
  "ready_has_drive s \<Longrightarrow> ready_has_drive (snd (update_invocations_where P upd s))"
  unfolding update_invocations_where_def
  by (cases "pg_outcomes s") (auto simp: db_exec_def ready_has_drive_def)

lemma inv_update_function_status: "sys_inv s \<Longrightarrow> st \<noteq> FnReady \<Longrightarrow> sys_inv (snd (update_function_status k st s))"
  using wf_update_statements(1)[of s k st]
  by (auto simp: sys_inv_def update_function_status_def ignore_count_def intro!: ready_update_functions)

lemma inv_update_function_status_if: "sys_inv s \<Longrightarrow> st \<noteq> FnReady \<Longrightarrow> sys_inv (snd (update_function_status_if k a st s))"
  using wf_update_statements(2)[of s k a st]
  by (auto simp: sys_inv_def update_function_status_if_def one_row_def intro!: ready_update_functions)

lemma inv_update_drive: "sys_inv s \<Longrightarrow> sys_inv (snd (update_function_status_and_drive_path k st p s))"
  using wf_update_statements(3)[of s k st p]
  by (auto simp: sys_inv_def update_function_status_and_drive_path_def ignore_count_def intro!: ready_update_functions)

lemma inv_update_invocation:
  "sys_inv s \<Longrightarrow> sys_inv (snd (update_invocation_status k ist s))"
  "sys_inv s \<Longrightarrow> sys_inv (snd (update_invocation_status_if k ia ist s))"
  "sys_inv s \<Longrightarrow> sys_inv (snd (update_invocation_status_log_end k ist p t s))"
  using wf_update_statements(4)[of s k ist] wf_update_statements(5)[of s k ia ist] wf_update_statements(6)[of s k ist p t]
  by (simp_all add: sys_inv_def stmt_update_defs ready_update_invocations)

lemma inv_create_function: "sys_inv s \<Longrightarrow> st \<noteq> FnReady \<Longrightarrow> sys_inv (snd (create_function k u st p s))"
  using wf_create_function[of s k u st p]
  by (auto simp: sys_inv_def create_function_def db_exec_def ready_has_drive_def Let_def split: list.splits)

lemma inv_create_invocation: "sys_inv s \<Longrightarrow> sys_inv (snd (create_invocation k f t s))"
  using wf_create_invocation[of s k f t]
  by (auto simp: sys_inv_def create_invocation_def db_exec_def ready_has_drive_def Let_def split: list.splits)

lemma inv_get_function: "sys_inv s \<Longrightarrow> sys_inv (snd (get_function_by_id k s))"
  by (rule iffD2[OF sys_inv_cong])
     (auto simp: get_function_by_id_def db_exec_def split: list.splits)

lemma inv_create_user: "sys_inv s \<Longrightarrow> sys_inv (snd (create_user fresh name email s))"
  by (cases "pg_outcomes s")
     (auto simp: create_user_def db_exec_def Let_def sys_inv_def pg_wf_def ready_has_drive_def accounts_ok_def)

lemma inv_create_key: "sys_inv s \<Longrightarrow> sys_inv (snd (CreateAuthKey aes kek raw nonce authID userID s))"
  by (cases "pg_outcomes s")
     (auto simp: CreateAuthKey_def db_exec_def Let_def sys_inv_def pg_wf_def ready_has_drive_def accounts_ok_def
       split: option.splits)

lemmas stmt_keeps = inv_update_function_status inv_update_function_status_if inv_update_drive
  inv_update_invocation inv_create_function inv_create_invocation inv_get_function

section \<open>Every step keeps it\<close>

lemma upload_keeps: "sys_inv s \<Longrightarrow> sys_inv (up_db (UploadLambda ustr fo ff now put bucket user body bus s))"
proof -
  assume s: "sys_inv s"
  have "create_function k u FnQuarantined p s = (r, s') \<Longrightarrow> sys_inv s'" for k u p r s'
    using inv_create_function[OF s, of FnQuarantined k u p] by auto
  then show ?thesis using s by (auto simp: UploadLambda_def split: option.splits sum.splits prod.splits)
qed

lemma quarantine_keeps: "sys_inv s \<Longrightarrow> sys_inv (snd (quarantine_step getObject now e s))"
proof -
  assume s: "sys_inv s"
  have "st \<noteq> FnReady \<Longrightarrow> update_function_status k st s = (r, s') \<Longrightarrow> sys_inv s'" for k st r s'
    using inv_update_function_status[OF s, of st k] by auto
  then show ?thesis by (auto simp: quarantine_step_def Let_def split: sum.splits prod.splits)
qed

lemma analyze_keeps: "sys_inv s \<Longrightarrow> sys_inv (pr_db (processMessage dec ans analyzer quarantine functions payload s))"
proof -
  assume s: "sys_inv s"
  have 1: "onLand k s = (r, s') \<Longrightarrow> sys_inv s'" for k r s'
    using inv_update_function_status[OF s, of FnScanning k] by (auto simp: onLand_def)
  have 2: "sys_inv s' \<Longrightarrow> updateFunctionStatus k v s' = (r, s'') \<Longrightarrow> sys_inv s''" for k v s' r s''
    using inv_update_function_status[of s' "if v = MALICIOUS then FnDetected else FnVerified" k]
    by (auto simp: updateFunctionStatus_def)
  show ?thesis
    using s 1 2
    by (auto simp: processMessage_def Let_def split: option.splits prod.splits sum.splits analysis.splits bool.splits)
       (metis)+
qed

lemma request_keeps: "sys_inv s \<Longrightarrow> sys_inv (snd (snd (ExecuteLambda parseUuid fresh now publish body fid s)))"
proof -
  assume s: "sys_inv s"
  have 1: "get_function_by_id k s = (r, s') \<Longrightarrow> sys_inv s'" for k r s'
    using inv_get_function[OF s, of k] by auto
  have 2: "sys_inv s' \<Longrightarrow> create_invocation fresh k now s' = (r, s'') \<Longrightarrow> sys_inv s''" for k s' r s''
    using inv_create_invocation[of s' fresh k now] by auto
  show ?thesis
    using s 1 2
    by (auto simp: ExecuteLambda_def Let_def split: option.splits prod.splits sum.splits) (metis)+
qed

lemma prepare_keeps: "sys_inv s \<Longrightarrow> sys_inv (snd (prepare ustr fresh runner m s))"
proof -
  assume s: "sys_inv s"
  have 1: "update_function_status_if k a FnPreparingEnvironment s = (r, s') \<Longrightarrow> sys_inv s'" for k a r s'
    using inv_update_function_status_if[OF s, of FnPreparingEnvironment k a] by auto
  have 2: "sys_inv s' \<Longrightarrow> update_function_status_and_drive_path k st p s' = (r, s'') \<Longrightarrow> sys_inv s''" for k st p s' r s''
    using inv_update_drive[of s' k st p] by auto
  show ?thesis
    using 1 2 inv_update_function_status
    by (auto simp: prepare_def Let_def split: prod.splits sum.splits option.splits run_error.splits bool.splits)
       (metis)+
qed

lemma execute_keeps: "sys_inv s \<Longrightarrow> sys_inv (snd (execute ustr fmt t1 t2 runner m s))"
proof -
  assume s: "sys_inv s"
  have 1: "update_invocation_status_if k a b s = (r, s') \<Longrightarrow> sys_inv s'" for k a b r s'
    using inv_update_invocation(2)[OF s, of k a b] by auto
  show ?thesis
    using 1 inv_update_invocation
    by (auto simp: execute_def Let_def split: prod.splits sum.splits option.splits bool.splits)
qed

lemma build_keeps: "sys_inv s \<Longrightarrow> sys_inv (snd (snd (build_handle dec (prepare ustr fresh runner) payload s)))"
  using prepare_keeps[of s ustr fresh runner] by (auto simp: build_handle_def split_beta split: option.splits)

lemma run_keeps: "sys_inv s \<Longrightarrow> sys_inv (snd (snd (execute_handle dec (execute ustr fmt t1 t2 runner) payload s)))"
  using execute_keeps[of s ustr fmt t1 t2 runner] by (auto simp: execute_handle_def split_beta split: option.splits)

lemma dead_letters_keep:
  "sys_inv s \<Longrightarrow> sys_inv (mark_functions_failed decb payloads s)"
  "sys_inv s \<Longrightarrow> sys_inv (mark_invocations_failed dece payloads s)"
proof -
  show "sys_inv s \<Longrightarrow> sys_inv (mark_functions_failed decb payloads s)"
    by (induction payloads arbitrary: s) (auto simp: inv_update_function_status split: option.splits)
  show "sys_inv s \<Longrightarrow> sys_inv (mark_invocations_failed dece payloads s)"
    by (induction payloads arbitrary: s) (auto simp: inv_update_invocation split: option.splits)
qed

lemma sys_step_keeps:
  assumes "sys_inv s" and "sys_step s s'"
  shows "sys_inv s'"
  using assms(2)
proof (cases rule: sys_step.cases)
  case (outage outcomes)
  then show ?thesis using assms(1) sys_inv_cong[of s' s] by simp
qed (use assms(1) in \<open>simp_all add: upload_keeps quarantine_keeps analyze_keeps request_keeps build_keeps run_keeps
      dead_letters_keep inv_create_user inv_create_key status_fail_publish_def execute_status_fail_publish_def Let_def\<close>)

lemma sys_reachable_inv: "sys_reachable s \<Longrightarrow> sys_inv s"
proof (induction rule: sys_reachable.induct)
  case (start s)
  then show ?case by (simp add: sys_inv_def pg_wf_def ready_has_drive_def accounts_ok_def)
next
  case (step s s')
  then show ?case using sys_step_keeps by blast
qed

text \<open>
  C1: Whatever the components do, in any order and however their environments answer, the keys of
  the four tables stay intact, a function that is READY has a drive to run with, and every API key has one owner.
\<close>

theorem reachable_invariant:
  assumes "sys_reachable s"
  shows "pg_wf s \<and> accounts_ok s \<and> list_all (\<lambda>f. f_status f \<noteq> FnReady \<or> f_drive_path f \<noteq> None) (pg_functions s)"
  using sys_reachable_inv[OF assms] by (auto simp: sys_inv_def ready_has_drive_def list_all_iff)

definition empty_pg :: pg where
  "empty_pg = \<lparr>pg_users = [\<lparr>u_id = 1, u_name = ''ana'', u_email = ''ana@x.rs''\<rparr>], pg_keys = [],
     pg_functions = [], pg_invocations = [], pg_outcomes = []\<rparr>"

lemma empty_reachable: "sys_reachable empty_pg"
  by (rule sys_reachable.start) (simp_all add: empty_pg_def accounts_ok_def)

theorem reachable_invariant_witness:
  "pg_wf (up_db (UploadLambda (\<lambda>_. ''id'') 2 7 0 (\<lambda>_ _. True) ''q'' (Some 1)
     [Some \<lparr>pt_form = ''function'', pt_file = ''a.tar.gz''\<rparr>] [[]] empty_pg))"
  using reachable_invariant[OF sys_reachable.step[OF empty_reachable sys_step.upload]] by blast

end
