(* ===== verification/Refinement.thy ===== *)
theory Refinement
  imports Lifecycle
begin

text \<open>
  The abstract life of functions and invocations that users are promised: two maps of statuses and the
  few moves between them. Every step of the system of \<open>Lifecycle\<close> is a sequence of such moves, so
  that what holds of every abstract run holds of the program.
\<close>

section \<open>The abstract life cycle\<close>

record life =
  lf_fn :: "uuid \<Rightarrow> fn_status option"
  lf_inv :: "uuid \<Rightarrow> inv_status option"

definition set_fn :: "uuid \<Rightarrow> fn_status \<Rightarrow> life \<Rightarrow> life" where
  "set_fn k b l = l\<lparr>lf_fn := (lf_fn l)(k \<mapsto> b)\<rparr>"

definition set_inv :: "uuid \<Rightarrow> inv_status \<Rightarrow> life \<Rightarrow> life" where
  "set_inv k b l = l\<lparr>lf_inv := (lf_inv l)(k \<mapsto> b)\<rparr>"

inductive life_step :: "life \<Rightarrow> life \<Rightarrow> bool" where
  submitted: "lf_fn l k = None \<Longrightarrow> life_step l (set_fn k FnQuarantined l)"
| checked: "lf_fn l k = Some a \<Longrightarrow> b \<in> {FnExtracted, FnFailed} \<Longrightarrow> life_step l (set_fn k b l)"
| analysed: "lf_fn l k = Some a \<Longrightarrow> life_step l (set_fn k FnScanning l)"
| judged: "lf_fn l k = Some FnScanning \<Longrightarrow> b \<in> {FnDetected, FnVerified} \<Longrightarrow> life_step l (set_fn k b l)"
| claimed: "lf_fn l k = Some FnVerified \<Longrightarrow> life_step l (set_fn k FnPreparingEnvironment l)"
| built: "lf_fn l k = Some FnPreparingEnvironment \<Longrightarrow> b \<in> {FnReady, FnFailed, FnVerified} \<Longrightarrow> life_step l (set_fn k b l)"
| requested: "lf_inv l k = None \<Longrightarrow> lf_fn l f \<noteq> None \<Longrightarrow> life_step l (set_inv k InvPending l)"
| started: "lf_inv l k = Some InvPending \<Longrightarrow> life_step l (set_inv k InvExecuting l)"
| ended: "lf_inv l k = Some InvExecuting \<Longrightarrow> b \<in> {InvDone, InvPending} \<Longrightarrow> life_step l (set_inv k b l)"
| discarded: "lf_inv l k = Some a \<Longrightarrow> life_step l (set_inv k InvFailed l)"

abbreviation life_steps :: "life \<Rightarrow> life \<Rightarrow> bool" where
  "life_steps \<equiv> life_step\<^sup>*\<^sup>*"

definition life_of :: "pg \<Rightarrow> life" where
  "life_of s = \<lparr>lf_fn = fn_status_of s, lf_inv = inv_status_of s\<rparr>"

lemma life_of_simps [simp]: "lf_fn (life_of s) = fn_status_of s" "lf_inv (life_of s) = inv_status_of s"
  by (simp_all add: life_of_def)

lemma life_of_set_fn: "fn_status_of s' = (fn_status_of s)(k \<mapsto> b) \<Longrightarrow> inv_status_of s' = inv_status_of s \<Longrightarrow>
   life_of s' = set_fn k b (life_of s)"
  by (simp add: life_of_def set_fn_def)

lemma life_of_set_inv: "inv_status_of s' = (inv_status_of s)(k \<mapsto> b) \<Longrightarrow> fn_status_of s' = fn_status_of s \<Longrightarrow>
   life_of s' = set_inv k b (life_of s)"
  by (simp add: life_of_def set_inv_def)

section \<open>Statements as abstract moves\<close>

lemma function_statements_keep_invocations:
  "inv_status_of (snd (update_function_status k b s)) = inv_status_of s"
  "inv_status_of (snd (update_function_status_if k a b s)) = inv_status_of s"
  "inv_status_of (snd (update_function_status_and_drive_path k b p s)) = inv_status_of s"
  "inv_status_of (snd (create_function k u b p s)) = inv_status_of s"
  unfolding stmt_update_defs update_functions_where_def create_function_def db_exec_def Let_def inv_status_of_def
  by (auto split: list.splits)

lemma invocation_statements_keep_functions:
  "fn_status_of (snd (update_invocation_status k' b' s)) = fn_status_of s"
  "fn_status_of (snd (update_invocation_status_if k' a' b' s)) = fn_status_of s"
  "fn_status_of (snd (update_invocation_status_log_end k' b' p t s)) = fn_status_of s"
  "fn_status_of (snd (create_invocation k' f t s)) = fn_status_of s"
  unfolding stmt_update_defs update_invocations_where_def create_invocation_def db_exec_def Let_def fn_status_of_def
  by (auto split: list.splits)

lemma get_function_keeps: "life_of (snd (get_function_by_id k s)) = life_of s"
  unfolding get_function_by_id_def db_exec_def life_of_def fn_status_of_def inv_status_of_def
  by (auto split: list.splits)

text \<open>An unconditional status update does nothing to the statuses, or sets that of an existing row.\<close>

lemma update_fn_move:
  "life_of (snd (update_function_status k b s)) = life_of s \<or>
   (\<exists>a. fn_status_of s k = Some a) \<and> life_of (snd (update_function_status k b s)) = set_fn k b (life_of s)"
proof (cases "update_function_status k b s")
  case (Pair r s')
  have inv: "inv_status_of s' = inv_status_of s" using function_statements_keep_invocations(1)[of k b s] Pair by simp
  show ?thesis
  proof (cases r)
    case (Inl e)
    then show ?thesis using Pair failed_updates(1)[of k b s e s'] inv by (simp add: life_of_def)
  next
    case (Inr u)
    then have fn: "fn_status_of s' = (\<lambda>k'. if k' = k then map_option (\<lambda>_. b) (fn_status_of s k) else fn_status_of s k')"
      using fn_update_ok Pair by blast
    then show ?thesis
      using Pair inv by (cases "fn_status_of s k") (auto simp: life_of_def set_fn_def fun_eq_iff)
  qed
qed

lemma update_drive_move:
  "life_of (snd (update_function_status_and_drive_path k b p s)) = life_of s \<or>
   (\<exists>a. fn_status_of s k = Some a) \<and>
   life_of (snd (update_function_status_and_drive_path k b p s)) = set_fn k b (life_of s)"
proof (cases "update_function_status_and_drive_path k b p s")
  case (Pair r s')
  have inv: "inv_status_of s' = inv_status_of s" using function_statements_keep_invocations(3)[of k b p s] Pair by simp
  show ?thesis
  proof (cases r)
    case (Inl e)
    then show ?thesis using Pair failed_updates(3)[of k b p s e s'] inv by (simp add: life_of_def)
  next
    case (Inr u)
    then have fn: "fn_status_of s' = (\<lambda>k'. if k' = k then map_option (\<lambda>_. b) (fn_status_of s k) else fn_status_of s k')"
      using fn_update_drive_ok Pair by blast
    then show ?thesis
      using Pair inv by (cases "fn_status_of s k") (auto simp: life_of_def set_fn_def fun_eq_iff)
  qed
qed

lemma inv_update_move_aux:
  assumes "r = Inl e \<Longrightarrow> inv_status_of s' = inv_status_of s"
    and "r = Inr u \<Longrightarrow> inv_status_of s' = (\<lambda>k'. if k' = k then map_option (\<lambda>_. b) (inv_status_of s k) else inv_status_of s k')"
    and "fn_status_of s' = fn_status_of s" and "r = Inl e \<or> r = Inr u"
  shows "life_of s' = life_of s \<or> (\<exists>a. inv_status_of s k = Some a) \<and> life_of s' = set_inv k b (life_of s)"
  using assms by (cases "inv_status_of s k") (auto simp: life_of_def set_inv_def fun_eq_iff)

lemma update_inv_move:
  "life_of (snd (update_invocation_status k b s)) = life_of s \<or>
   (\<exists>a. inv_status_of s k = Some a) \<and> life_of (snd (update_invocation_status k b s)) = set_inv k b (life_of s)"
proof (cases "update_invocation_status k b s")
  case (Pair r s')
  then show ?thesis
    using inv_update_move_aux[of r _ s' s "()" k b] failed_updates(4)[of k b s _ s'] inv_update_ok[of k b s "()" s']
      invocation_statements_keep_functions(1)[of k b s]
    by (cases r) auto
qed

lemma update_log_end_move:
  "life_of (snd (update_invocation_status_log_end k b p t s)) = life_of s \<or>
   (\<exists>a. inv_status_of s k = Some a) \<and> life_of (snd (update_invocation_status_log_end k b p t s)) = set_inv k b (life_of s)"
proof (cases "update_invocation_status_log_end k b p t s")
  case (Pair r s')
  then show ?thesis
    using inv_update_move_aux[of r _ s' s "()" k b] failed_updates(6)[of k b p t s _ s'] inv_update_log_end_ok[of k b p t s "()" s']
      invocation_statements_keep_functions(3)[of k b p t s]
    by (cases r) auto
qed

text \<open>A claim that succeeds moves a row of the expected status; any other outcome moves nothing.\<close>

lemma claim_fn_move:
  assumes "pg_wf s" and "update_function_status_if k a b s = (r, s')"
  shows "if r = Inr True then fn_status_of s k = Some a \<and> life_of s' = set_fn k b (life_of s) else life_of s' = life_of s"
proof -
  have inv: "inv_status_of s' = inv_status_of s"
    using function_statements_keep_invocations(2)[of k a b s] assms(2) by simp
  consider e where "r = Inl e" | t where "r = Inr t" by (cases r) auto
  then show ?thesis
  proof cases
    case 1
    then show ?thesis using assms(2) failed_updates(2)[of k a b s e s'] inv by (simp add: life_of_def)
  next
    case 2
    then show ?thesis using fn_update_if_result[OF assms(1), of k a b t s'] assms(2) inv
      by (auto simp: life_of_def set_fn_def)
  qed
qed

lemma claim_inv_move:
  assumes "pg_wf s" and "update_invocation_status_if k a b s = (r, s')"
  shows "if r = Inr True then inv_status_of s k = Some a \<and> life_of s' = set_inv k b (life_of s) else life_of s' = life_of s"
proof -
  have fn: "fn_status_of s' = fn_status_of s"
    using invocation_statements_keep_functions(2)[of k a b s] assms(2) by simp
  consider e where "r = Inl e" | t where "r = Inr t" by (cases r) auto
  then show ?thesis
  proof cases
    case 1
    then show ?thesis using assms(2) failed_updates(5)[of k a b s e s'] fn by (simp add: life_of_def)
  next
    case 2
    then show ?thesis using inv_update_if_result[OF assms(1), of k a b t s'] assms(2) fn
      by (auto simp: life_of_def set_inv_def)
  qed
qed

lemma create_function_move:
  "life_of (snd (create_function k u FnQuarantined p s)) = life_of s \<or>
   fn_status_of s k = None \<and> life_of (snd (create_function k u FnQuarantined p s)) = set_fn k FnQuarantined (life_of s)"
proof -
  let ?f = "\<lparr>f_id = k, f_user = u, f_status = FnQuarantined, f_archive_path = p, f_drive_path = None\<rparr>"
  have new: "fn_status_of s k = None \<and>
      status_in f_id f_status (pg_functions s @ [?f]) = (fn_status_of s)(k \<mapsto> FnQuarantined)"
    if "\<forall>r\<in>set (pg_functions s). f_id r \<noteq> k"
    using status_in_append_new[of f_id ?f "pg_functions s" f_status] that by (auto simp: fn_status_of_def)
  show ?thesis
    unfolding create_function_def Let_def db_exec_def
    using new by (auto simp: life_of_def set_fn_def fn_status_of_def inv_status_of_def split: list.splits)
qed

lemma create_invocation_move:
  "life_of (snd (create_invocation k f t s)) = life_of s \<or>
   inv_status_of s k = None \<and> fn_status_of s f \<noteq> None \<and>
   life_of (snd (create_invocation k f t s)) = set_inv k InvPending (life_of s)"
proof -
  let ?i = "\<lparr>i_id = k, i_function = f, i_status = InvPending, i_time = t, i_end_time = None, i_log_path = None\<rparr>"
  have new: "inv_status_of s k = None \<and>
      status_in i_id i_status (pg_invocations s @ [?i]) = (inv_status_of s)(k \<mapsto> InvPending)"
    if "\<forall>r\<in>set (pg_invocations s). i_id r \<noteq> k"
    using status_in_append_new[of i_id ?i "pg_invocations s" i_status] that by (auto simp: inv_status_of_def)
  have fn: "fn_status_of s f \<noteq> None" if "\<exists>g\<in>set (pg_functions s). f_id g = f"
    using that by (auto simp: fn_status_of_def status_in_def find_None_iff)
  show ?thesis
    unfolding create_invocation_def Let_def db_exec_def
    using new fn by (auto simp: life_of_def set_inv_def fn_status_of_def inv_status_of_def split: list.splits)
qed

section \<open>Every step of the program is a run of the abstract system\<close>

lemma steps_1: "life_step l l' \<Longrightarrow> life_steps l l'"
  by (rule r_into_rtranclp)

lemma upload_runs:
  "life_steps (life_of s) (life_of (up_db (UploadLambda ustr fo ff now put bucket user body bus s)))"
proof -
  have "create_function k u FnQuarantined p s = (r, s') \<Longrightarrow> life_steps (life_of s) (life_of s')" for k u p r s'
    using create_function_move[of k u p s] life_step.submitted[of "life_of s" k] by (auto intro: steps_1)
  then show ?thesis by (auto simp: UploadLambda_def split: option.splits sum.splits prod.splits)
qed

lemma quarantine_runs: "life_steps (life_of s) (life_of (snd (quarantine_step getObject now e s)))"
proof -
  have "b \<in> {FnExtracted, FnFailed} \<Longrightarrow> update_function_status k b s = (r, s') \<Longrightarrow> life_steps (life_of s) (life_of s')" for k b r s'
    using update_fn_move[of k b s] life_step.checked[of "life_of s" k _ b] by (auto intro: steps_1)
  then show ?thesis by (auto simp: quarantine_step_def Let_def split: sum.splits prod.splits)
qed

lemma landed_scanning:
  assumes "onLand k s = (Inr u, s1)"
  shows "life_steps (life_of s) (life_of s1)" and "fn_status_of s1 k \<in> {None, Some FnScanning}"
proof -
  show "life_steps (life_of s) (life_of s1)"
    using assms update_fn_move[of k FnScanning s] life_step.analysed[of "life_of s" k]
    by (auto simp: onLand_def intro: steps_1)
  show "fn_status_of s1 k \<in> {None, Some FnScanning}"
    using assms fn_update_ok[of k FnScanning s u s1] by (auto simp: onLand_def)
qed

lemma judged_runs:
  assumes "fn_status_of s1 k \<in> {None, Some FnScanning}" and "updateFunctionStatus k v s1 = (r, s2)"
  shows "life_steps (life_of s1) (life_of s2)"
  using assms update_fn_move[of k "if v = MALICIOUS then FnDetected else FnVerified" s1]
    life_step.judged[of "life_of s1" k "if v = MALICIOUS then FnDetected else FnVerified"]
  by (auto simp: updateFunctionStatus_def intro: steps_1 split: if_splits)

lemma analyze_runs:
  "life_steps (life_of s) (life_of (pr_db (processMessage dec ans analyzer quarantine functions payload s)))"
proof (cases "dec payload")
  case None
  then show ?thesis by (simp add: processMessage_def)
next
  case (Some m)
  obtain r s1 where land: "onLand (fm_function m) s = (r, s1)" by fastforce
  show ?thesis
  proof (cases r)
    case (Inl e)
    then have "life_of s1 = life_of s"
      using land failed_updates(1)[of "fm_function m" FnScanning s e s1]
        function_statements_keep_invocations(1)[of "fm_function m" FnScanning s]
      by (simp add: onLand_def life_of_def)
    then show ?thesis using Some land Inl by (simp add: processMessage_def)
  next
    case (Inr u)
    note l = landed_scanning[OF land[unfolded Inr]]
    have "pr_db (processMessage dec ans analyzer quarantine functions payload s) \<in>
        {s1} \<union> {s2. \<exists>v r. updateFunctionStatus (fm_function m) v s1 = (r, s2)}"
      using Some land Inr
      by (auto simp: processMessage_def Let_def
          split: option.splits prod.splits sum.splits analysis.splits bool.splits)
    then show ?thesis
      using l judged_runs[OF l(2)] by (auto intro: rtranclp_trans)
  qed
qed

lemma request_runs:
  "life_steps (life_of s) (life_of (snd (snd (ExecuteLambda parseUuid fresh now publish body fid s))))"
proof -
  have 1: "get_function_by_id k s = (r, s') \<Longrightarrow> life_of s' = life_of s" for k r s'
    using get_function_keeps[of k s] by simp
  have 2: "create_invocation fresh k now s' = (r, s'') \<Longrightarrow> life_steps (life_of s') (life_of s'')" for k s' r s''
    using create_invocation_move[of fresh k now s'] life_step.requested[of "life_of s'" fresh k] by (auto intro: steps_1)
  show ?thesis
    using 1 2 by (auto simp: ExecuteLambda_def Let_def split: option.splits prod.splits sum.splits) (metis)+
qed

lemma built_runs:
  assumes "fn_status_of s1 k = Some FnPreparingEnvironment" and "b \<in> {FnReady, FnFailed, FnVerified}"
  shows "life_steps (life_of s1) (life_of (snd (update_function_status k b s1)))"
    and "life_steps (life_of s1) (life_of (snd (update_function_status_and_drive_path k b p s1)))"
  using assms update_fn_move[of k b s1] update_drive_move[of k b p s1] life_step.built[of "life_of s1" k b]
  by (auto intro: steps_1)

lemma prepare_runs:
  assumes "pg_wf s"
  shows "life_steps (life_of s) (life_of (snd (prepare ustr fresh runner m s)))"
proof -
  obtain r s1 where claim: "update_function_status_if (bm_function m) FnVerified FnPreparingEnvironment s = (r, s1)"
    by fastforce
  note move = claim_fn_move[OF assms claim]
  show ?thesis
  proof (cases "r = Inr True")
    case False
    then have "snd (prepare ustr fresh runner m s) = s1"
      using claim by (cases r) (auto simp: prepare_def)
    with move False show ?thesis by simp
  next
    case True
    then have s1: "life_of s1 = set_fn (bm_function m) FnPreparingEnvironment (life_of s)"
      and old: "fn_status_of s (bm_function m) = Some FnVerified" using move by simp_all
    have first: "life_steps (life_of s) (life_of s1)"
      unfolding s1 using life_step.claimed[of "life_of s" "bm_function m"] old by (auto intro: steps_1)
    have "lf_fn (life_of s1) (bm_function m) = Some FnPreparingEnvironment" unfolding s1 by (simp add: set_fn_def)
    then have busy: "fn_status_of s1 (bm_function m) = Some FnPreparingEnvironment" by simp
    define res where "res = runner (bm_code_object m) (drive_object_name ustr fresh) (generate_prepare_object_name ustr (bm_function m))"
    note out = prepare_def[of ustr fresh runner m s, unfolded claim True prod.case sum.case bool.case Let_def, folded res_def]
    have "life_steps (life_of s1) (life_of (snd (prepare ustr fresh runner m s)))"
    proof (cases res)
      case None
      obtain q s2 where s2: "update_function_status_and_drive_path (bm_function m) FnReady (drive_object_name ustr fresh) s1 = (q, s2)"
        by fastforce
      then have "snd (prepare ustr fresh runner m s) = s2" using out None by (cases q) simp_all
      then show ?thesis using built_runs(2)[OF busy, of FnReady] s2 by (metis insertI1 snd_conv)
    next
      case (Some e)
      then show ?thesis using out built_runs(1)[OF busy] by (cases e) simp_all
    qed
    then show ?thesis using first by (rule rtranclp_trans[rotated])
  qed
qed

lemma ended_runs:
  assumes "inv_status_of s1 k = Some InvExecuting" and "b \<in> {InvDone, InvPending}"
  shows "life_steps (life_of s1) (life_of (snd (update_invocation_status k b s1)))"
    and "life_steps (life_of s1) (life_of (snd (update_invocation_status_log_end k b p t s1)))"
  using assms update_inv_move[of k b s1] update_log_end_move[of k b p t s1] life_step.ended[of "life_of s1" k b]
  by (auto intro: steps_1)

lemma execute_runs:
  assumes "pg_wf s"
  shows "life_steps (life_of s) (life_of (snd (execute ustr fmt t1 t2 runner m s)))"
proof -
  obtain r s1 where claim: "update_invocation_status_if (em_invocation m) InvPending InvExecuting s = (r, s1)"
    by fastforce
  note move = claim_inv_move[OF assms claim]
  show ?thesis
  proof (cases "r = Inr True")
    case False
    then have "snd (execute ustr fmt t1 t2 runner m s) = s1"
      using claim by (cases r) (auto simp: execute_def)
    with move False show ?thesis by simp
  next
    case True
    then have s1: "life_of s1 = set_inv (em_invocation m) InvExecuting (life_of s)"
      and old: "inv_status_of s (em_invocation m) = Some InvPending" using move by simp_all
    have first: "life_steps (life_of s) (life_of s1)"
      unfolding s1 using life_step.started[of "life_of s" "em_invocation m"] old by (auto intro: steps_1)
    have "lf_inv (life_of s1) (em_invocation m) = Some InvExecuting" unfolding s1 by (simp add: set_inv_def)
    then have busy: "inv_status_of s1 (em_invocation m) = Some InvExecuting" by simp
    define logs where "logs = generate_object_name ustr fmt (em_invocation m) t1"
    define res where "res = runner (em_code_object m) (em_deps_object m) logs (em_payload m)"
    note out = execute_def[of ustr fmt t1 t2 runner m s, unfolded claim True prod.case sum.case bool.case Let_def,
        folded logs_def, folded res_def]
    have "life_steps (life_of s1) (life_of (snd (execute ustr fmt t1 t2 runner m s)))"
      using out ended_runs[OF busy] by (cases res) simp_all
    then show ?thesis using first by (rule rtranclp_trans[rotated])
  qed
qed

lemma dead_letter_runs:
  "life_steps (life_of s) (life_of (mark_functions_failed decb payloads s))"
  "life_steps (life_of s) (life_of (mark_invocations_failed dece payloads s))"
proof -
  have fn: "life_steps (life_of s) (life_of (snd (update_function_status k FnFailed s)))" for k s
    using update_fn_move[of k FnFailed s] life_step.checked[of "life_of s" k _ FnFailed] by (auto intro: steps_1)
  have inv: "life_steps (life_of s) (life_of (snd (update_invocation_status k InvFailed s)))" for k s
    using update_inv_move[of k InvFailed s] life_step.discarded[of "life_of s" k] by (auto intro: steps_1)
  show "life_steps (life_of s) (life_of (mark_functions_failed decb payloads s))"
    by (induction payloads arbitrary: s) (auto split: option.splits intro: rtranclp_trans[OF fn])
  show "life_steps (life_of s) (life_of (mark_invocations_failed dece payloads s))"
    by (induction payloads arbitrary: s) (auto split: option.splits intro: rtranclp_trans[OF inv])
qed

lemma step_runs:
  assumes "sys_step s s'" and "pg_wf s"
  shows "life_steps (life_of s) (life_of s')"
  using assms(1)
proof cases
  case (build decb ustr fresh runner payload)
  have "snd (snd (build_handle decb (prepare ustr fresh runner) payload s)) \<in> {s} \<union> {snd (prepare ustr fresh runner m s) |m. True}"
    by (auto simp: build_handle_def split_beta split: option.splits)
  then show ?thesis using build prepare_runs[OF assms(2)] by auto
next
  case (run dece ustr fmt t1 t2 erunner payload)
  have "snd (snd (execute_handle dece (execute ustr fmt t1 t2 erunner) payload s)) \<in>
      {s} \<union> {snd (execute ustr fmt t1 t2 erunner m s) |m. True}"
    by (auto simp: execute_handle_def split_beta split: option.splits)
  then show ?thesis using run execute_runs[OF assms(2)] by auto
next
  case (outage outcomes)
  then show ?thesis by (simp add: life_of_def fn_status_of_def inv_status_of_def)
next
  case (new_user fresh name email)
  have "pg_functions s' = pg_functions s \<and> pg_invocations s' = pg_invocations s"
    by (cases "pg_outcomes s") (auto simp: new_user create_user_def db_exec_def Let_def)
  then show ?thesis by (simp add: life_of_def fn_status_of_def inv_status_of_def)
next
  case (new_key aes kek raw nonce authID userID)
  have "pg_functions s' = pg_functions s \<and> pg_invocations s' = pg_invocations s"
    by (cases "pg_outcomes s") (auto simp: new_key CreateAuthKey_def db_exec_def Let_def split: option.splits)
  then show ?thesis by (simp add: life_of_def fn_status_of_def inv_status_of_def)
qed (simp_all add: upload_runs quarantine_runs analyze_runs request_runs dead_letter_runs status_fail_publish_def
      execute_status_fail_publish_def Let_def)



section \<open>What holds of every abstract run\<close>

text \<open>
  A status that is reached was reached through the statuses before it; \<open>path\<close> are the states of a run,
  the last one first.
\<close>

inductive life_run :: "life list \<Rightarrow> bool" where
  initial: "lf_fn l = Map.empty \<Longrightarrow> lf_inv l = Map.empty \<Longrightarrow> life_run [l]"
| moved: "life_run (l # ls) \<Longrightarrow> life_step l l' \<Longrightarrow> life_run (l' # l # ls)"

definition fn_seen :: "uuid \<Rightarrow> fn_status \<Rightarrow> life list \<Rightarrow> bool" where
  "fn_seen k b ls \<longleftrightarrow> (\<exists>l\<in>set ls. lf_fn l k = Some b)"

definition inv_seen :: "uuid \<Rightarrow> inv_status \<Rightarrow> life list \<Rightarrow> bool" where
  "inv_seen k b ls \<longleftrightarrow> (\<exists>l\<in>set ls. lf_inv l k = Some b)"

definition life_ok :: "life list \<Rightarrow> bool" where
  "life_ok ls \<longleftrightarrow> (\<forall>k. (fn_seen k FnVerified ls \<longrightarrow> fn_seen k FnScanning ls) \<and>
     (fn_seen k FnPreparingEnvironment ls \<longrightarrow> fn_seen k FnVerified ls) \<and>
     (fn_seen k FnReady ls \<longrightarrow> fn_seen k FnPreparingEnvironment ls) \<and>
     (inv_seen k InvExecuting ls \<longrightarrow> inv_seen k InvPending ls) \<and>
     (inv_seen k InvDone ls \<longrightarrow> inv_seen k InvExecuting ls))"

lemma seen_Cons:
  "fn_seen k b (l # ls) \<longleftrightarrow> lf_fn l k = Some b \<or> fn_seen k b ls"
  "inv_seen k c (l # ls) \<longleftrightarrow> lf_inv l k = Some c \<or> inv_seen k c ls"
  by (auto simp: fn_seen_def inv_seen_def)

text \<open>The statuses one move can come from.\<close>

lemma step_fn_status:
  assumes "life_step l l'" and "lf_fn l' k = Some b"
  shows "lf_fn l k = Some b \<or>
     (b = FnVerified \<longrightarrow> lf_fn l k = Some FnScanning \<or> lf_fn l k = Some FnPreparingEnvironment) \<and>
     (b = FnPreparingEnvironment \<longrightarrow> lf_fn l k = Some FnVerified) \<and>
     (b = FnReady \<longrightarrow> lf_fn l k = Some FnPreparingEnvironment)"
  using assms by (cases rule: life_step.cases) (auto simp: set_fn_def set_inv_def split: if_splits)

lemma step_inv_status:
  assumes "life_step l l'" and "lf_inv l' k = Some b"
  shows "lf_inv l k = Some b \<or>
     (b = InvExecuting \<longrightarrow> lf_inv l k = Some InvPending) \<and> (b = InvDone \<longrightarrow> lf_inv l k = Some InvExecuting)"
  using assms by (cases rule: life_step.cases) (auto simp: set_fn_def set_inv_def split: if_splits)

lemma life_ok_moved:
  assumes "life_ok (l # ls)" and "life_step l l'"
  shows "life_ok (l' # l # ls)"
  unfolding life_ok_def
proof (intro allI conjI impI)
  fix k
  note ok = assms(1)[unfolded life_ok_def, rule_format, of k]
  note fn = step_fn_status[OF assms(2), of k]
  note inv = step_inv_status[OF assms(2), of k]
  show "fn_seen k FnVerified (l' # l # ls) \<Longrightarrow> fn_seen k FnScanning (l' # l # ls)"
    using ok fn[of FnVerified] by (auto simp: seen_Cons)
  show "fn_seen k FnPreparingEnvironment (l' # l # ls) \<Longrightarrow> fn_seen k FnVerified (l' # l # ls)"
    using ok fn[of FnPreparingEnvironment] by (auto simp: seen_Cons)
  show "fn_seen k FnReady (l' # l # ls) \<Longrightarrow> fn_seen k FnPreparingEnvironment (l' # l # ls)"
    using ok fn[of FnReady] by (auto simp: seen_Cons)
  show "inv_seen k InvExecuting (l' # l # ls) \<Longrightarrow> inv_seen k InvPending (l' # l # ls)"
    using ok inv[of InvExecuting] by (auto simp: seen_Cons)
  show "inv_seen k InvDone (l' # l # ls) \<Longrightarrow> inv_seen k InvExecuting (l' # l # ls)"
    using ok inv[of InvDone] by (auto simp: seen_Cons)
qed

lemma life_run_ok: "life_run ls \<Longrightarrow> life_ok ls"
proof (induction rule: life_run.induct)
  case (initial l)
  then show ?case by (simp add: life_ok_def fn_seen_def inv_seen_def)
qed (rule life_ok_moved)

lemma life_run_extend: "life_steps l l' \<Longrightarrow> life_run (l # ls) \<Longrightarrow> \<exists>ls'. life_run (l' # ls')"
  by (induction rule: rtranclp_induct) (auto intro: life_run.moved)

lemma reachable_life_run: "sys_reachable s \<Longrightarrow> \<exists>ls. life_run (life_of s # ls)"
proof (induction rule: sys_reachable.induct)
  case (start s)
  then have "lf_fn (life_of s) = Map.empty" "lf_inv (life_of s) = Map.empty"
    by (simp_all add: fn_status_of_def inv_status_of_def status_in_def fun_eq_iff)
  then show ?case using life_run.initial by blast
next
  case (step s s')
  then show ?case
    using step_runs[OF step.hyps(2)] sys_reachable_inv[OF step.hyps(1)] life_run_extend by (auto simp: sys_inv_def)
qed

text \<open>
  A function that is READY in a reachable database was, in this order, under analysis, judged and
  recorded VERIFIED and claimed by a build; nothing the components do in any interleaving skips one of
  these states.
\<close>

theorem ready_went_through_analysis:
  assumes "sys_reachable s" and "fn_status_of s k = Some FnReady"
  shows "\<exists>ls. life_run (life_of s # ls) \<and> fn_seen k FnScanning ls \<and> fn_seen k FnVerified ls \<and>
     fn_seen k FnPreparingEnvironment ls"
proof -
  obtain ls where run: "life_run (life_of s # ls)" using reachable_life_run[OF assms(1)] by blast
  have "fn_seen k FnReady (life_of s # ls)" using assms(2) by (simp add: seen_Cons)
  with life_run_ok[OF run] have "fn_seen k FnScanning (life_of s # ls) \<and> fn_seen k FnVerified (life_of s # ls) \<and>
      fn_seen k FnPreparingEnvironment (life_of s # ls)" unfolding life_ok_def by blast
  then show ?thesis using run assms(2) by (intro exI[of _ ls]) (simp add: seen_Cons)
qed

definition uploaded_pg :: pg where
  "uploaded_pg = up_db (UploadLambda (\<lambda>_. ''id'') 2 7 0 (\<lambda>_ _. True) ''q'' (Some 1)
     [Some \<lparr>pt_form = ''function'', pt_file = ''a.tar.gz''\<rparr>] [[]] empty_pg)"

definition analysed_pg :: pg where
  "analysed_pg = pr_db (processMessage (\<lambda>_. Some \<lparr>fm_function = 7, fm_bucket = ''q'', fm_path = ''a''\<rparr>) (\<lambda>_. True)
     (AnalyzeFile (\<lambda>_. ''id'') ''/r'' (passing_pipeline ''SAFE'')) ''q'' ''f'' ''msg'' uploaded_pg)"

definition built_pg :: pg where
  "built_pg = snd (snd (build_handle (\<lambda>_. Some \<lparr>bm_function = 7, bm_code_object = ''a''\<rparr>)
     (prepare (\<lambda>_. ''id'') 3 (\<lambda>_ _ _. None)) ''msg'' analysed_pg))"

lemma built_reachable: "sys_reachable built_pg"
  unfolding built_pg_def analysed_pg_def uploaded_pg_def
  by (rule sys_reachable.step[OF sys_reachable.step[OF sys_reachable.step[OF empty_reachable sys_step.upload]
        sys_step.analyze] sys_step.build])

lemma built_ready: "fn_status_of built_pg 7 = Some FnReady"
  by code_simp

theorem ready_went_through_analysis_witness:
  "\<exists>ls. life_run (life_of built_pg # ls) \<and> fn_seen 7 FnScanning ls \<and> fn_seen 7 FnVerified ls \<and>
     fn_seen 7 FnPreparingEnvironment ls"
  by (rule ready_went_through_analysis[OF built_reachable built_ready])

text \<open>The same for an invocation that is DONE.\<close>

lemma done_was_executed:
  assumes "sys_reachable s" and "inv_status_of s k = Some InvDone"
  shows "\<exists>ls. life_run (life_of s # ls) \<and> inv_seen k InvPending ls \<and> inv_seen k InvExecuting ls"
proof -
  obtain ls where run: "life_run (life_of s # ls)" using reachable_life_run[OF assms(1)] by blast
  have "inv_seen k InvDone (life_of s # ls)" using assms(2) by (simp add: seen_Cons)
  with life_run_ok[OF run] have "inv_seen k InvPending (life_of s # ls) \<and> inv_seen k InvExecuting (life_of s # ls)"
    unfolding life_ok_def by blast
  then show ?thesis using run assms(2) by (intro exI[of _ ls]) (simp add: seen_Cons)
qed

end
