(* ===== verification/Agent.thy ===== *)
theory Agent
  imports InvocationLogs Base64 "HOL-Library.Word"
begin

unbundle bit_operations_syntax

text \<open>
  \<open>internal/agent\<close>: the process that runs as init inside a VM, mounts the drives, runs the build
  or the user's handler as an unprivileged user and reports over the connection. A job is the
  list of the steps it attempts; \<open>ok\<close> says which succeed. Messages that go to the VM's console
  only are left out.
\<close>

section \<open>Steps\<close>

type_synonym flags = "64 word"

definition MS_RDONLY :: flags where "MS_RDONLY = 1"
definition MS_NOSUID :: flags where "MS_NOSUID = 2"
definition MS_NODEV :: flags where "MS_NODEV = 4"
definition MS_NOEXEC :: flags where "MS_NOEXEC = 8"
definition MNT_DETACH :: flags where "MNT_DETACH = 2"

lemmas flag_defs = MS_RDONLY_def MS_NOSUID_def MS_NODEV_def MS_NOEXEC_def

record command =
  c_args :: "string list"
  c_uid :: nat
  c_gid :: nat
  c_env :: "string list"
  c_dir :: string

datatype agent_op =
    SetPath string | MkdirAll string | Mount string string string flags | Chown string nat nat
  | StatMissing string | StartCmd command | KillGroup | Unmount string flags | SyncFs
  | Send message | PowerOff

text \<open>Steps that stop at the first failure: whether all succeeded, and the steps attempted.\<close>

fun attempt_all :: "(agent_op \<Rightarrow> bool) \<Rightarrow> agent_op list \<Rightarrow> bool \<times> agent_op list" where
  "attempt_all ok [] = (True, [])"
| "attempt_all ok (op # ops) =
     (if ok op then (case attempt_all ok ops of (b, tr) \<Rightarrow> (b, op # tr)) else (False, [op]))"

section \<open>os.go\<close>

definition defaultPath :: string where
  "defaultPath = ''/usr/local/sbin:/usr/local/bin:/usr/sbin:/usr/bin:/sbin:/bin''"

text \<open>\<open>mountIfNotMounted\<close> logs failures and goes on, \<open>mount\<close> returns the first one.\<close>

definition mountIfNotMounted :: "string \<Rightarrow> string \<Rightarrow> string \<Rightarrow> flags \<Rightarrow> agent_op list" where
  "mountIfNotMounted source target fsType flags = [MkdirAll target, Mount source target fsType flags]"

definition MountSystemDirs :: "agent_op list" where
  "MountSystemDirs = mountIfNotMounted ''proc'' ''/proc'' ''proc'' 0 @
     mountIfNotMounted ''sysfs'' ''/sys'' ''sysfs'' 0 @
     mountIfNotMounted ''devtmpfs'' ''/dev'' ''devtmpfs'' MS_NOSUID"

definition mount :: "string \<Rightarrow> string \<Rightarrow> string \<Rightarrow> flags \<Rightarrow> agent_op list" where
  "mount source target fsType flags = [MkdirAll target, Mount source target fsType flags]"

definition Shutdown :: "agent_op list" where
  "Shutdown = [SyncFs, PowerOff]"

section \<open>stream.go\<close>

definition emit :: "string \<Rightarrow> string \<Rightarrow> agent_op" where
  "emit channel data = Send (Output channel data)"

text \<open>
  One of the two goroutines: every line of the stream with its line feed; a line that exceeds the
  scanner's buffer ends it. The two interleave in some order, which \<open>sched\<close> gives.
\<close>

definition pipe :: "string \<Rightarrow> string \<Rightarrow> (string \<times> string) list" where
  "pipe channel bytes = map (\<lambda>l. (channel, l @ [CHR 0x0A])) (fst (scan_lines (split_byte (CHR 0x0A) bytes)))"

fun interleave :: "bool list \<Rightarrow> 'a list \<Rightarrow> 'a list \<Rightarrow> 'a list" where
  "interleave sched [] ys = ys"
| "interleave sched xs [] = xs"
| "interleave [] xs ys = xs @ ys"
| "interleave (True # sched) (x # xs) ys = x # interleave sched xs ys"
| "interleave (False # sched) xs (y # ys) = y # interleave sched xs ys"

definition startWithStream ::
  "(agent_op \<Rightarrow> bool) \<Rightarrow> bool list \<Rightarrow> string \<Rightarrow> string \<Rightarrow> command \<Rightarrow> bool \<times> agent_op list" where
  "startWithStream ok sched out err cmd =
     (if \<not> ok (StartCmd cmd) then (False, [StartCmd cmd])
      else (True, StartCmd cmd #
        map (\<lambda>(ch, d). emit ch d) (interleave sched (pipe ''stdout'' out) (pipe ''stderr'' err))))"

text \<open>How \<open>Wait\<close> ends: the command's exit code (0 is success) or another error.\<close>

datatype wait = Exited int | WaitFailed

record run =
  r_sched :: "bool list"
  r_stdout :: string
  r_stderr :: string
  r_wait :: wait

section \<open>build.go\<close>

definition build_mounts :: "agent_op list" where
  "build_mounts =
     mount ''/dev/vdb'' ''/app'' ''squashfs'' (MS_RDONLY OR MS_NOSUID OR MS_NOEXEC OR MS_NODEV) @
     mount ''/dev/vdc'' ''/deps'' ''ext4'' (MS_NOSUID OR MS_NOEXEC OR MS_NODEV) @
     [Chown ''/deps'' 5000 5000] @
     mount ''tmpfs'' ''/tmp'' ''tmpfs'' (MS_NOSUID OR MS_NOEXEC OR MS_NODEV)"

definition build_unmounts :: "agent_op list" where
  "build_unmounts = [Unmount ''/app'' 0, Unmount ''/deps'' 0]"

text \<open>A command without an environment of its own inherits the agent's.\<close>

definition pip_command :: "string list \<Rightarrow> command" where
  "pip_command environ = \<lparr>c_args = [''python3'', ''-m'', ''pip'', ''install'', ''-r'', ''/app/requirements.txt'',
      ''--target'', ''/deps'', ''--ignore-installed'', ''--root-user-action=ignore''],
     c_uid = 5000, c_gid = 5000, c_env = environ, c_dir = ''''\<rparr>"

definition cleanUp :: "agent_op list \<Rightarrow> agent_op list" where
  "cleanUp unmounts = KillGroup # unmounts @ [SyncFs]"

definition after_wait :: "wait \<Rightarrow> string \<Rightarrow> agent_op list \<Rightarrow> bool \<times> agent_op list" where
  "after_wait w notice unmounts =
     (case w of
        Exited c \<Rightarrow>
          if c = 0 then (True, cleanUp unmounts @ [Send (Done 0)])
          else (False, emit ''system'' notice # cleanUp unmounts @ [Send (Done c)])
      | WaitFailed \<Rightarrow> (False, emit ''system'' notice # cleanUp unmounts))"

text \<open>\<open>StatMissing\<close> succeeds when the file does not exist.\<close>

definition BuildJob :: "(agent_op \<Rightarrow> bool) \<Rightarrow> string list \<Rightarrow> run \<Rightarrow> bool \<times> agent_op list" where
  "BuildJob ok environ r =
     (let hello = emit ''system'' ''Preparing environment...'' in
      case attempt_all ok build_mounts of
        (False, tr) \<Rightarrow> (False, hello # tr)
      | (True, tr) \<Rightarrow>
          let tr1 = hello # tr @ [StatMissing ''/app/requirements.txt''] in
          if ok (StatMissing ''/app/requirements.txt'')
          then (True, tr1 @ [emit ''system'' ''No requirements.txt, skipping pip install...''] @
                  build_unmounts @ [SyncFs, Send (Done 0)])
          else
            (case startWithStream ok (r_sched r) (r_stdout r) (r_stderr r) (pip_command environ) of
               (False, tr2) \<Rightarrow> (False, tr1 @ tr2)
             | (True, tr2) \<Rightarrow>
                 (case after_wait (r_wait r) ''Failed to install dependencies'' build_unmounts of
                    (b, tr3) \<Rightarrow> (b, tr1 @ tr2 @ tr3))))"

section \<open>exec.go\<close>

definition exec_mounts :: "agent_op list" where
  "exec_mounts =
     mount ''/dev/vdb'' ''/app'' ''squashfs'' (MS_RDONLY OR MS_NOSUID OR MS_NOEXEC OR MS_NODEV) @
     mount ''/dev/vdc'' ''/deps'' ''ext4'' (MS_RDONLY OR MS_NOSUID OR MS_NODEV) @
     mount ''/dev/vdd'' ''/tmp'' ''ext4'' (MS_NOSUID OR MS_NOEXEC OR MS_NODEV) @
     [Chown ''/tmp'' 5000 5000]"

definition exec_unmounts :: "agent_op list" where
  "exec_unmounts = [Unmount ''/app'' MNT_DETACH, Unmount ''/deps'' MNT_DETACH, Unmount ''/tmp'' MNT_DETACH]"

definition quote :: char where "quote = CHR 0x27"

definition python_code :: "string \<Rightarrow> string" where
  "python_code payload =
     ''import base64,json,handler; handler.handle(json.loads(base64.b64decode('' @ [quote] @
     b64_encode payload @ [quote] @ '')))''"

definition exec_command :: "string list \<Rightarrow> string \<Rightarrow> command" where
  "exec_command environ payload =
     \<lparr>c_args = [''python3'', ''-c'', python_code payload], c_uid = 5000, c_gid = 5000,
      c_env = environ @ [''PYTHONPATH=/deps''], c_dir = ''/app''\<rparr>"

definition ExecJob ::
  "(agent_op \<Rightarrow> bool) \<Rightarrow> (string \<Rightarrow> bool) \<Rightarrow> string list \<Rightarrow> run \<Rightarrow> string \<Rightarrow> bool \<times> agent_op list" where
  "ExecJob ok json_valid environ r payload =
     (let hello = emit ''system'' ''Execution started'' in
      case attempt_all ok exec_mounts of
        (False, tr) \<Rightarrow> (False, hello # tr)
      | (True, tr) \<Rightarrow>
          if \<not> json_valid payload
          then (True, hello # tr @ [emit ''system'' ''The payload is not valid json''] @
                  exec_unmounts @ [SyncFs, Send (Done 0)])
          else
            (case startWithStream ok (r_sched r) (r_stdout r) (r_stderr r) (exec_command environ payload) of
               (False, tr2) \<Rightarrow> (False, hello # tr @ tr2)
             | (True, tr2) \<Rightarrow>
                 (case after_wait (r_wait r) ''Execution failed'' exec_unmounts of
                    (b, tr3) \<Rightarrow> (b, hello # tr @ tr2 @ tr3))))"

section \<open>comm.go and the agent's main\<close>

text \<open>
  The command the host sends, \<open>None\<close> when listening, accepting or receiving fails: any other type
  than the two is ignored.
\<close>

definition ListenForCommands ::
  "(agent_op \<Rightarrow> bool) \<Rightarrow> (string \<Rightarrow> bool) \<Rightarrow> string list \<Rightarrow> run \<Rightarrow> message option \<Rightarrow> bool \<times> agent_op list" where
  "ListenForCommands ok json_valid environ r received =
     (case received of
        None \<Rightarrow> (False, [])
      | Some m \<Rightarrow>
          if m_type m = TypeExec then ExecJob ok json_valid environ r (m_data m)
          else if m_type m = TypeBuild then BuildJob ok environ r
          else (True, []))"

definition agent_main ::
  "(agent_op \<Rightarrow> bool) \<Rightarrow> (string \<Rightarrow> bool) \<Rightarrow> string list \<Rightarrow> run \<Rightarrow> message option \<Rightarrow> agent_op list" where
  "agent_main ok json_valid environ r received =
     [SetPath defaultPath] @ MountSystemDirs @ snd (ListenForCommands ok json_valid environ r received) @ Shutdown"

section \<open>What user code gets\<close>

definition has_flags :: "flags \<Rightarrow> flags \<Rightarrow> bool" where
  "has_flags fl required \<longleftrightarrow> fl AND required = required"

text \<open>
  The hardening of one step: a mounted drive allows no setuid programs and no devices, the code is
  read-only and not executable, only the listed writable mounts are writable, and a command runs
  as user and group 5000.
\<close>

fun hardened :: "string list \<Rightarrow> agent_op \<Rightarrow> bool" where
  "hardened writable (Mount source target fsType fl) \<longleftrightarrow>
     has_flags fl (MS_NOSUID OR MS_NODEV) \<and> (has_flags fl MS_RDONLY \<or> target \<in> set writable \<and> has_flags fl MS_NOEXEC)"
| "hardened writable (StartCmd c) \<longleftrightarrow> c_uid c = 5000 \<and> c_gid c = 5000"
| "hardened writable _ \<longleftrightarrow> True"

lemma attempt_all_prefix: "prefix (snd (attempt_all ok ops)) ops"
  by (induction ops) (auto simp: split_beta)

lemma attempt_all_list_all: "list_all P ops \<Longrightarrow> list_all P (snd (attempt_all ok ops))"
  using set_mono_prefix[OF attempt_all_prefix, of ok ops] by (auto simp: list_all_iff)

lemma startWithStream_list_all:
  assumes "P (StartCmd cmd)" and "\<And>ch d. P (emit ch d)"
  shows "list_all P (snd (startWithStream ok sched out err cmd))"
  using assms by (auto simp: startWithStream_def list_all_iff)

lemma after_wait_list_all:
  assumes "list_all P unmounts" "P KillGroup" "P SyncFs" "\<And>ch d. P (emit ch d)" "\<And>c. P (Send (Done c))"
  shows "list_all P (snd (after_wait w notice unmounts))"
  using assms by (auto simp: after_wait_def cleanUp_def split: wait.splits)

lemma ExecJob_list_all:
  assumes "list_all P exec_mounts" "list_all P exec_unmounts" "P KillGroup" "P SyncFs"
    and "\<And>ch d. P (emit ch d)" "\<And>c. P (Send (Done c))" "P (StartCmd (exec_command environ payload))"
  shows "list_all P (snd (ExecJob ok jv environ r payload))"
  using attempt_all_list_all[OF assms(1), of ok] startWithStream_list_all[of P, OF assms(7,5)]
    after_wait_list_all[of P, OF assms(2-6)] assms(2-6)
  by (simp add: ExecJob_def Let_def split_beta split: bool.splits)

lemma BuildJob_list_all:
  assumes "list_all P build_mounts" "list_all P build_unmounts" "P KillGroup" "P SyncFs"
    and "\<And>ch d. P (emit ch d)" "\<And>c. P (Send (Done c))" "P (StartCmd (pip_command environ))"
    and "P (StatMissing ''/app/requirements.txt'')"
  shows "list_all P (snd (BuildJob ok environ r))"
  using attempt_all_list_all[OF assms(1), of ok] startWithStream_list_all[of P, OF assms(7,5)]
    after_wait_list_all[of P, OF assms(2-6)] assms(2-6,8)
  by (simp add: BuildJob_def Let_def split_beta split: bool.splits)

text \<open>
  C27: Whatever fails, a job mounts drives only with \<open>nosuid\<close> and \<open>nodev\<close>, gives an execution only
  \<open>/tmp\<close> and a build only \<open>/deps\<close> and \<open>/tmp\<close> to write to, never executable, and starts programs
  only as the unprivileged user.
\<close>

theorem jobs_hardened:
  "list_all (hardened [''/tmp'']) (snd (ExecJob ok jv environ r payload)) \<and>
   list_all (hardened [''/deps'', ''/tmp'']) (snd (BuildJob ok environ r))"
proof
  show "list_all (hardened [''/tmp'']) (snd (ExecJob ok jv environ r payload))"
    by (rule ExecJob_list_all)
       (simp_all add: exec_mounts_def exec_unmounts_def mount_def has_flags_def flag_defs emit_def exec_command_def)
  show "list_all (hardened [''/deps'', ''/tmp'']) (snd (BuildJob ok environ r))"
    by (rule BuildJob_list_all)
       (simp_all add: build_mounts_def build_unmounts_def mount_def has_flags_def flag_defs emit_def pip_command_def)
qed

lemma not_quote [simp]: "b64_char n \<noteq> quote" "quote \<noteq> b64_char n" "quote \<noteq> CHR ''=''"
proof -
  show "b64_char n \<noteq> quote" using b64_char_in[of n] by (auto simp: b64_alphabet_def quote_def)
  then show "quote \<noteq> b64_char n" by metis
qed (simp add: quote_def)

lemma b64_encode_no_quote: "quote \<notin> set (b64_encode bs)"
  by (induction bs rule: b64_encode.induct) simp_all

lemma split_two_seps:
  "c \<notin> set u \<Longrightarrow> c \<notin> set v \<Longrightarrow> c \<notin> set w \<Longrightarrow> split_byte c (u @ [c] @ v @ [c] @ w) = [u, v, w]"
  by (simp add: split_byte_append split_byte_idle)

text \<open>
  C29: The payload cannot leave its string literal: the program text handed to Python is three pieces
  around the literal's two quotes, and the literal decodes to the payload, whatever bytes it has.
\<close>

theorem payload_stays_quoted:
  "split_byte quote (python_code payload) =
     [''import base64,json,handler; handler.handle(json.loads(base64.b64decode('', b64_encode payload, '')))''] \<and>
   b64_decode (b64_encode payload) = Some payload"
proof
  show "split_byte quote (python_code payload) =
     [''import base64,json,handler; handler.handle(json.loads(base64.b64decode('', b64_encode payload, '')))'']"
    unfolding python_code_def
    by (rule split_two_seps) (simp_all add: quote_def b64_encode_no_quote[unfolded quote_def])
qed (rule b64_decode_encode)

section \<open>When the host is told\<close>

fun is_done :: "agent_op \<Rightarrow> bool" where
  "is_done (Send m) \<longleftrightarrow> m_type m = TypeDone \<or> m_type m = TypeError"
| "is_done _ \<longleftrightarrow> False"

fun starts_command :: "agent_op \<Rightarrow> bool" where
  "starts_command (StartCmd _) \<longleftrightarrow> True"
| "starts_command _ \<longleftrightarrow> False"

lemma emit_not_done [simp]: "\<not> is_done (emit ch d)" "\<not> starts_command (emit ch d)"
  by (simp_all add: emit_def message_defs)

text \<open>
  The shape of a job's report: either nothing is reported, or the one report is the last step, after
  all drives were unmounted and the buffers flushed, and after the process group of the command,
  if one was started, was killed.
\<close>

definition clean_report :: "agent_op list \<Rightarrow> agent_op list \<Rightarrow> bool" where
  "clean_report unmounts tr \<longleftrightarrow> \<not> list_ex is_done tr \<or>
     (\<exists>body c. tr = body @ unmounts @ [SyncFs, Send (Done c)] \<and> \<not> list_ex is_done body \<and>
        (\<not> list_ex starts_command body \<or> last body = KillGroup))"

lemma clean_report_none: "list_all (\<lambda>op. \<not> is_done op) tr \<Longrightarrow> clean_report u tr"
  by (auto simp: clean_report_def list_ex_iff list_all_iff)

lemma clean_report_done:
  assumes "list_all (\<lambda>op. \<not> is_done op) body" and "list_all (\<lambda>op. \<not> starts_command op) body \<or> last body = KillGroup"
  shows "clean_report u (body @ u @ [SyncFs, Send (Done c)])"
  using assms by (auto simp: clean_report_def list_ex_iff list_all_iff)

lemma stream_not_done: "list_all (\<lambda>op. \<not> is_done op) (snd (startWithStream ok sched out err cmd))"
  by (rule startWithStream_list_all) simp_all

lemma after_wait_report:
  assumes "list_all (\<lambda>op. \<not> is_done op) pre" and "list_all (\<lambda>op. \<not> is_done op) u"
  shows "clean_report u (pre @ snd (after_wait w notice u))"
proof (cases w)
  case (Exited c)
  show ?thesis
  proof (cases "c = 0")
    case True
    have "clean_report u ((pre @ [KillGroup]) @ u @ [SyncFs, Send (Done 0)])"
      by (rule clean_report_done) (use assms in simp_all)
    then show ?thesis using Exited True by (simp add: after_wait_def cleanUp_def)
  next
    case False
    have "clean_report u ((pre @ [emit ''system'' notice, KillGroup]) @ u @ [SyncFs, Send (Done c)])"
      by (rule clean_report_done) (use assms in simp_all)
    then show ?thesis using Exited False by (simp add: after_wait_def cleanUp_def)
  qed
next
  case WaitFailed
  then show ?thesis
    using assms by (intro clean_report_none) (simp add: after_wait_def cleanUp_def)
qed

lemma mounts_quiet:
  "list_all (\<lambda>op. \<not> is_done op \<and> \<not> starts_command op) (snd (attempt_all ok exec_mounts))"
  "list_all (\<lambda>op. \<not> is_done op \<and> \<not> starts_command op) (snd (attempt_all ok build_mounts))"
  by (rule attempt_all_list_all, simp add: exec_mounts_def build_mounts_def mount_def)+

lemma list_all_conj_D: "list_all (\<lambda>x. P x \<and> Q x) xs \<Longrightarrow> list_all P xs \<and> list_all Q xs"
  by (simp add: list_all_iff)

lemmas mounts_quiet' = mounts_quiet[THEN list_all_conj_D]

lemma exec_report: "clean_report exec_unmounts (snd (ExecJob ok jv environ r payload))"
proof -
  let ?m = "attempt_all ok exec_mounts"
  obtain b tr where m: "?m = (b, tr)" by fastforce
  have q: "list_all (\<lambda>op. \<not> is_done op) tr" "list_all (\<lambda>op. \<not> starts_command op) tr"
    using mounts_quiet'(1)[of ok] m by simp_all
  have u: "list_all (\<lambda>op. \<not> is_done op) exec_unmounts" by (simp add: exec_unmounts_def)
  obtain s tr2 where st: "startWithStream ok (r_sched r) (r_stdout r) (r_stderr r) (exec_command environ payload) = (s, tr2)"
    by fastforce
  have q2: "list_all (\<lambda>op. \<not> is_done op) tr2"
    using stream_not_done[of ok "r_sched r" "r_stdout r" "r_stderr r" "exec_command environ payload"] st by simp
  have invalid: "clean_report exec_unmounts ((emit ''system'' ''Execution started'' # tr @
      [emit ''system'' ''The payload is not valid json'']) @ exec_unmounts @ [SyncFs, Send (Done 0)])"
    by (rule clean_report_done) (simp_all add: q)
  have ran: "clean_report exec_unmounts ((emit ''system'' ''Execution started'' # tr @ tr2) @
      snd (after_wait (r_wait r) ''Execution failed'' exec_unmounts))"
    by (rule after_wait_report) (simp_all add: q q2 u)
  show ?thesis
    using m st invalid ran q q2
    by (auto simp: ExecJob_def Let_def split_beta split: bool.splits intro!: clean_report_none)
qed

lemma build_report: "clean_report build_unmounts (snd (BuildJob ok environ r))"
proof -
  let ?m = "attempt_all ok build_mounts"
  obtain b tr where m: "?m = (b, tr)" by fastforce
  have q: "list_all (\<lambda>op. \<not> is_done op) tr" "list_all (\<lambda>op. \<not> starts_command op) tr"
    using mounts_quiet'(2)[of ok] m by simp_all
  have u: "list_all (\<lambda>op. \<not> is_done op) build_unmounts" by (simp add: build_unmounts_def)
  obtain s tr2 where st: "startWithStream ok (r_sched r) (r_stdout r) (r_stderr r) (pip_command environ) = (s, tr2)"
    by fastforce
  have q2: "list_all (\<lambda>op. \<not> is_done op) tr2"
    using stream_not_done[of ok "r_sched r" "r_stdout r" "r_stderr r" "pip_command environ"] st by simp
  let ?pre = "emit ''system'' ''Preparing environment...'' # tr @ [StatMissing ''/app/requirements.txt'']"
  have skip: "clean_report build_unmounts ((?pre @ [emit ''system'' ''No requirements.txt, skipping pip install...'']) @
      build_unmounts @ [SyncFs, Send (Done 0)])"
    by (rule clean_report_done) (simp_all add: q)
  have ran: "clean_report build_unmounts ((?pre @ tr2) @
      snd (after_wait (r_wait r) ''Failed to install dependencies'' build_unmounts))"
    by (rule after_wait_report) (simp_all add: q q2 u)
  show ?thesis
    using m st skip ran q q2
    by (auto simp: BuildJob_def Let_def split_beta split: bool.splits intro!: clean_report_none)
qed


text \<open>
  An execution whose drives cannot be mounted reports nothing at all: neither \<open>Done\<close> nor an
  error message is sent, so the host waits until its time limit.
\<close>

theorem failed_mount_not_reported:
  assumes "\<not> fst (attempt_all ok exec_mounts)"
  shows "\<not> list_ex is_done (snd (ExecJob ok jv environ r payload))"
  using assms mounts_quiet'(1)[of ok]
  by (auto simp: ExecJob_def Let_def split_beta list_ex_iff list_all_iff split: bool.splits prod.splits)

theorem failed_mount_not_reported_witness:
  "\<not> list_ex is_done (snd (ExecJob (\<lambda>op. op \<noteq> Chown ''/tmp'' 5000 5000) (\<lambda>_. True) []
     \<lparr>r_sched = [], r_stdout = [], r_stderr = [], r_wait = Exited 0\<rparr> ''{}''))"
  by (rule failed_mount_not_reported) (simp add: exec_mounts_def mount_def)

section \<open>Output\<close>

lemma interleave_filter:
  assumes "list_all (\<lambda>x. P x) xs" and "list_all (\<lambda>y. \<not> P y) ys"
  shows "filter P (interleave sched xs ys) = xs \<and> filter (\<lambda>x. \<not> P x) (interleave sched xs ys) = ys"
  using assms
proof (induction sched xs ys rule: interleave.induct)
  case (1 sched ys)
  then show ?case by (induction ys) auto
next
  case (2 sched x xs)
  then show ?case by (auto simp: filter_id_conv list_all_iff)
next
  case (3 x xs y ys)
  then show ?case by (auto simp: filter_id_conv filter_empty_conv list_all_iff)
qed auto

text \<open>
  However the two reader goroutines interleave, the lines of each stream reach the host
  completely and in order.
\<close>

theorem streams_in_order:
  "filter (\<lambda>x. fst x = ''stdout'') (interleave sched (pipe ''stdout'' out) (pipe ''stderr'' err)) = pipe ''stdout'' out \<and>
   filter (\<lambda>x. fst x \<noteq> ''stdout'') (interleave sched (pipe ''stdout'' out) (pipe ''stderr'' err)) = pipe ''stderr'' err"
  by (rule interleave_filter) (simp_all add: pipe_def list_all_iff)

end
