(* ===== verification/HostSetup.thy ===== *)
theory HostSetup
  imports VmDrives "HOL-Library.Word" "HOL-Library.List_Lexorder" "HOL-Library.Char_ord"
begin

unbundle bit_operations_syntax

text \<open>
  The two functions of \<open>internal/vm/vm\<close> that change the host with root's rights: \<open>fixTapOwner\<close>
  (\<open>vm.go\<close>), which works inside the network namespace of a VM, and \<open>widenPermissions\<close>
  (\<open>drive.go\<close>), which walks the unpacked code of a function.
\<close>

section \<open>fixTapOwner\<close>

datatype tap_op =
    LockOSThread | UnlockOSThread
  | OpenNs string | CloseNs string | Setns string
  | OpenTun | CloseTun | TunSetIff "8 word list" | TunSetOwner nat | TunSetGroup nat

definition selfNs :: string where "selfNs = ''/proc/self/ns/net''"
definition firecrackerUID :: nat where "firecrackerUID = 900"
definition firecrackerGID :: nat where "firecrackerGID = 900"

text \<open>The \<open>ifreq\<close>: 16 bytes of name, the flags \<open>IFF_TAP | IFF_NO_PI\<close> as a little-endian word, padding.\<close>

definition tap_flags :: "16 word" where "tap_flags = 0x0002 OR 0x1000"

definition ifreq :: "8 word list" where
  "ifreq = map (\<lambda>c. of_nat (of_char c)) ''tap0'' @ replicate 12 0 @
     [ucast tap_flags, ucast (drop_bit 8 tap_flags)] @ replicate 22 0"

definition fixTapOwner :: "(tap_op \<Rightarrow> bool) \<Rightarrow> string \<Rightarrow> unit option \<times> tap_op list" where
  "fixTapOwner ok netnsPath =
     step (\<lambda>_. True) LockOSThread [] (deferred UnlockOSThread (
     step ok (OpenNs selfNs) [] (deferred (CloseNs selfNs) (
     step ok (OpenNs netnsPath) [] (deferred (CloseNs netnsPath) (
     step ok (Setns netnsPath) [] (deferred (Setns selfNs) (
     step ok OpenTun [] (deferred CloseTun (
     step ok (TunSetIff ifreq) [] (
     step ok (TunSetOwner firecrackerUID) [] (
     step ok (TunSetGroup firecrackerGID) [] (Some (), [])))))))))))))"

text \<open>What the operations do to the thread: its namespace, the descriptors it holds, the lock.\<close>

record thread =
  t_ns :: string
  t_open :: "string list"
  t_locked :: bool

fun tap_effect :: "(tap_op \<Rightarrow> bool) \<Rightarrow> tap_op \<Rightarrow> thread \<Rightarrow> thread" where
  "tap_effect ok LockOSThread t = t\<lparr>t_locked := True\<rparr>"
| "tap_effect ok UnlockOSThread t = t\<lparr>t_locked := False\<rparr>"
| "tap_effect ok (OpenNs p) t = (if ok (OpenNs p) then t\<lparr>t_open := p # t_open t\<rparr> else t)"
| "tap_effect ok (CloseNs p) t = t\<lparr>t_open := remove1 p (t_open t)\<rparr>"
| "tap_effect ok (Setns p) t = (if ok (Setns p) then t\<lparr>t_ns := p\<rparr> else t)"
| "tap_effect ok OpenTun t = (if ok OpenTun then t\<lparr>t_open := ''tun'' # t_open t\<rparr> else t)"
| "tap_effect ok CloseTun t = t\<lparr>t_open := remove1 ''tun'' (t_open t)\<rparr>"
| "tap_effect ok _ t = t"

definition run_tap :: "(tap_op \<Rightarrow> bool) \<Rightarrow> tap_op list \<Rightarrow> thread \<Rightarrow> thread" where
  "run_tap ok tr t = fold (tap_effect ok) tr t"

text \<open>The thread each ioctl on the tap device runs in.\<close>

fun tun_calls :: "(tap_op \<Rightarrow> bool) \<Rightarrow> tap_op list \<Rightarrow> thread \<Rightarrow> (tap_op \<times> thread) list" where
  "tun_calls ok [] t = []"
| "tun_calls ok (op # tr) t =
     (if op \<in> {TunSetIff ifreq, TunSetOwner firecrackerUID, TunSetGroup firecrackerGID} then [(op, t)] else []) @
     tun_calls ok tr (tap_effect ok op t)"


definition sample_thread :: thread where
  "sample_thread = \<lparr>t_ns = selfNs, t_open = [], t_locked = False\<rparr>"


text \<open>
  When the switch back fails the thread is still unlocked: the Go runtime goes on to run other
  goroutines on it, in the VM's network namespace.
\<close>

lemma failed_restore_unlocks:
  assumes "\<not> ok (Setns selfNs)" and "ok (OpenNs selfNs)" "ok (OpenNs ns)" "ok (Setns ns)"
  shows "t_ns (run_tap ok (snd (fixTapOwner ok ns)) t) = ns \<and> \<not> t_locked (run_tap ok (snd (fixTapOwner ok ns)) t)"
  using assms
  by (cases "ok OpenTun"; cases "ok (TunSetIff ifreq)"; cases "ok (TunSetOwner firecrackerUID)";
      cases "ok (TunSetGroup firecrackerGID)")
     (simp_all add: fixTapOwner_def run_tap_def step_eval)

lemma ifreq_layout: "length ifreq = 40 \<and> drop 16 (take 18 ifreq) = [0x02, 0x10]"
  by code_simp

section \<open>widenPermissions\<close>

text \<open>
  What \<open>tar\<close> unpacked: files and links with the permission bits \<open>Info\<close> reports (for a link those of
  the link itself, always 0777), and directories. \<open>WalkDir\<close> visits a directory before its entries and the
  entries in the order of their names. The walk is the sequence of its \<open>Chmod\<close> calls; it ends with
  the first that fails.
\<close>

datatype node = FileNode nat | LinkNode string | DirNode "(string \<times> node) list"

definition link_mode :: nat where "link_mode = 511"

definition widened :: "nat \<Rightarrow> nat" where
  "widened mode = mode OR 420"

fun chmods :: "string \<Rightarrow> node \<Rightarrow> (string \<times> nat) list" where
  "chmods path (FileNode mode) = [(path, widened mode)]"
| "chmods path (LinkNode target) = [(path, widened link_mode)]"
| "chmods path (DirNode entries) =
     (path, 493) # concat (map (\<lambda>(name, n). chmods (path @ ''/'' @ name) n) (sort_key fst entries))"

definition widenPermissions :: "(string \<times> nat \<Rightarrow> bool) \<Rightarrow> string \<Rightarrow> node \<Rightarrow> bool \<times> (string \<times> nat) list" where
  "widenPermissions ok dir n =
     (let calls = chmods dir n in
      (list_all ok calls, takeWhile ok calls @ take 1 (dropWhile ok calls)))"

text \<open>
  \<open>os.Chmod\<close> follows links: the file a call changes is the target for a path that is a link (the
  links of \<open>n\<close>, each with its target), and the path itself otherwise.
\<close>

fun links_of :: "string \<Rightarrow> node \<Rightarrow> (string \<times> string) list" where
  "links_of path (FileNode mode) = []"
| "links_of path (LinkNode target) = [(path, target)]"
| "links_of path (DirNode entries) =
     concat (map (\<lambda>(name, n). links_of (path @ ''/'' @ name) n) (sort_key fst entries))"

definition follow :: "(string \<times> string) list \<Rightarrow> string \<Rightarrow> string" where
  "follow links p = (case map_of links p of
     None \<Rightarrow> p
   | Some target \<Rightarrow> if is_abs target then target else path_join (path_dir p) target)"

definition changed :: "string \<Rightarrow> node \<Rightarrow> (string \<times> nat) list" where
  "changed dir n = map (\<lambda>(p, m). (follow (links_of dir n) p, m)) (snd (widenPermissions (\<lambda>_. True) dir n))"

lemma takeWhile_True: "takeWhile (\<lambda>_. True) xs = xs" "dropWhile (\<lambda>_. True) xs = []"
  by (induction xs) simp_all

lemma widen_all_ok: "snd (widenPermissions (\<lambda>_. True) dir n) = chmods dir n"
  by (simp add: widenPermissions_def Let_def takeWhile_True)

lemma below_child: "below (path @ ''/'' @ name) p \<Longrightarrow> below path p"
  by (auto simp: below_def has_prefix_def prefix_def)

lemma chmods_below: "(p, m) \<in> set (chmods dir n) \<Longrightarrow> below dir p"
proof (induction dir n rule: chmods.induct)
  case (3 path entries)
  then consider "p = path" | name n where "(name, n) \<in> set entries" "(p, m) \<in> set (chmods (path @ ''/'' @ name) n)"
    by auto
  then show ?case
  proof cases
    case 2
    then have "below (path @ ''/'' @ name) p" using "3.IH"[of "(name, n)" name n] by simp
    then show ?thesis by (rule below_child)
  qed (simp add: below_def)
qed (auto simp: below_def)

lemma link_is_chmodded: "(p, target) \<in> set (links_of dir n) \<Longrightarrow> (p, widened link_mode) \<in> set (chmods dir n)"
proof (induction dir n rule: links_of.induct)
  case (3 path entries)
  then obtain name n where "(name, n) \<in> set entries" "(p, target) \<in> set (links_of (path @ ''/'' @ name) n)"
    by auto
  then show ?case using "3.IH"[of "(name, n)" name n] by auto
qed auto

text \<open>Every mode that is set lets everybody read, and a file keeps the bits it had.\<close>

lemma widened_bits: "widened mode AND 420 = 420 \<and> mode AND widened mode = mode"
  by (simp add: widened_def bit_eq_iff bit_simps) (auto simp: bit_simps)

lemma widened_link: "widened link_mode = 511"
  by (simp add: widened_def link_mode_def)

text \<open>
  Without links in the unpacked code the walk changes no permissions outside its directory,
  whatever the files are called.
\<close>

theorem widen_confined:
  assumes "links_of dir n = []"
  shows "list_all (\<lambda>(p, m). below dir p) (changed dir n)"
  using assms chmods_below by (auto simp: changed_def follow_def widen_all_ok list_all_iff)

theorem widen_confined_witness:
  "list_all (\<lambda>(p, m). below ''/tmp/x'' p) (changed ''/tmp/x'' (DirNode [(''b.py'', FileNode 384), (''a'', DirNode [])]))"
  by (rule widen_confined) simp

text \<open>
  A link in the unpacked code makes the walk, which runs with the rights of the VM service on
  the host, give everybody all permissions on the file the link points to, wherever on the host it
  is.
\<close>

theorem widen_follows_links:
  assumes "map_of (links_of dir n) p = Some target" and "is_abs target"
  shows "(target, 511) \<in> set (changed dir n)"
proof -
  have "(p, 511) \<in> set (chmods dir n)"
    using link_is_chmodded[OF map_of_SomeD[OF assms(1)]] by (simp add: widened_link)
  moreover have "follow (links_of dir n) p = target" using assms by (simp add: follow_def)
  ultimately show ?thesis by (force simp: changed_def widen_all_ok)
qed

theorem widen_follows_links_witness:
  "(''/etc/shadow'', 511) \<in> set (changed ''/tmp/x'' (DirNode [(''handler.py'', FileNode 420), (''l'', LinkNode ''/etc/shadow'')]))"
proof (rule widen_follows_links)
  show "map_of (links_of ''/tmp/x'' (DirNode [(''handler.py'', FileNode 420), (''l'', LinkNode ''/etc/shadow'')]))
      ''/tmp/x/l'' = Some ''/etc/shadow''" by code_simp
qed (simp add: is_abs_def has_prefix_def)

end
