(* ===== verification/CliArchive.thy ===== *)
theory CliArchive
  imports ArchiveCheck "HOL-Library.List_Lexorder" "HOL-Library.Char_ord"
begin

text \<open>
  The archive the CLI packs from a folder (\<open>zipFolder\<close> of \<open>cmd/cli/upload.go\<close>) and what becomes of
  it: the server's check of its headers and the analyzer's extraction. A folder is a tree of names;
  gzip and the tar format are transparent, so that the entries written are the entries read. The
  tar writer ends the name of a directory with a slash.
\<close>

section \<open>Folders\<close>

text \<open>
  A link is packed by its own header, but what is copied is the content \<open>os.Open\<close> finds behind it
  (\<open>None\<close> when it cannot be opened); a socket has no header.
\<close>

datatype src_node = SrcFile string | SrcDir "(string \<times> src_node) list" | SrcLink "string option" | SrcSocket

text \<open>\<open>filepath.Walk\<close>: every node with its path from the root, a directory before its entries, entries by name.\<close>

fun walk :: "string list \<Rightarrow> src_node \<Rightarrow> (string list \<times> src_node) list" where
  "walk path (SrcDir entries) =
     (path, SrcDir entries) # concat (map (\<lambda>(name, n). walk (path @ [name]) n) (sort_key fst entries))"
| "walk path n = [(path, n)]"

section \<open>zipFolder\<close>

datatype zip_error = NoHeader | OpenSourceFailed | WriteTooLong

definition TypeSymlink :: char where "TypeSymlink = CHR ''2''"

text \<open>One call of the walk function below the root; \<open>relPath\<close> is \<open>filepath.Rel\<close> of a walked path.\<close>

definition zip_entry :: "string \<Rightarrow> src_node \<Rightarrow> zip_error + tar_entry" where
  "zip_entry relPath n =
     (case n of
        SrcSocket \<Rightarrow> Inl NoHeader
      | SrcDir _ \<Rightarrow> Inr \<lparr>te_name = relPath @ ''/'', te_type = TypeDir, te_content = [], te_broken = False\<rparr>
      | SrcFile content \<Rightarrow> Inr \<lparr>te_name = relPath, te_type = TypeReg, te_content = content, te_broken = False\<rparr>
      | SrcLink None \<Rightarrow> Inl OpenSourceFailed
      | SrcLink (Some content) \<Rightarrow>
          if content = [] then Inr \<lparr>te_name = relPath, te_type = TypeSymlink, te_content = [], te_broken = False\<rparr>
          else Inl WriteTooLong)"

fun zip_entries :: "(string list \<times> src_node) list \<Rightarrow> zip_error + tar_entry list" where
  "zip_entries [] = Inr []"
| "zip_entries ((path, n) # rest) =
     (if path = [] then zip_entries rest
      else (case zip_entry (path_join_segments path) n of
              Inl e \<Rightarrow> Inl e
            | Inr t \<Rightarrow> (case zip_entries rest of Inl e \<Rightarrow> Inl e | Inr ts \<Rightarrow> Inr (t # ts))))"

definition zipFolder :: "src_node \<Rightarrow> zip_error + tar_entry list" where
  "zipFolder source = zip_entries (walk [] source)"

section \<open>Names\<close>

definition file_name :: "string \<Rightarrow> bool" where
  "file_name x \<longleftrightarrow> clean_element x \<and> x \<noteq> dotdot \<and> CHR 0x00 \<notin> set x"

text \<open>Trees of files and directories only, with the names a file system admits.\<close>

fun plain_tree :: "src_node \<Rightarrow> bool" where
  "plain_tree (SrcFile content) \<longleftrightarrow> True"
| "plain_tree (SrcDir entries) \<longleftrightarrow> list_all (\<lambda>(name, n). file_name name \<and> plain_tree n) entries"
| "plain_tree _ \<longleftrightarrow> False"

lemma walk_plain:
  "plain_tree n \<Longrightarrow> list_all file_name path \<Longrightarrow> (p, m) \<in> set (walk path n) \<Longrightarrow> list_all file_name p \<and> plain_tree m"
proof (induction path n rule: walk.induct)
  case (1 path entries)
  then consider "p = path \<and> m = SrcDir entries"
    | name n where "(name, n) \<in> set entries" "(p, m) \<in> set (walk (path @ [name]) n)"
    by auto
  then show ?case
  proof cases
    case 2
    moreover have "file_name name" "plain_tree n" using "1.prems"(1) 2(1) by (auto simp: list_all_iff)
    ultimately show ?thesis using "1.IH"[of "(name, n)" name n] "1.prems"(2) by simp
  qed (use "1.prems" in simp)
qed auto

lemma file_names_clean: "list_all file_name p \<Longrightarrow> \<forall>x\<in>set p. clean_element x"
  by (simp add: list_all_iff file_name_def)

lemma rel_path_relative:
  assumes "list_all file_name p" and "p \<noteq> []"
  shows "\<not> is_abs (path_join_segments p)"
proof
  assume "is_abs (path_join_segments p)"
  then obtain q where "path_join_segments p = CHR ''/'' # q" by (auto simp: is_abs_def has_prefix_def prefix_def)
  then have "path_segments (path_join_segments p) = [] # path_segments q" by (simp add: rooted_segments_Cons)
  moreover have "path_segments (path_join_segments p) = p"
    using path_segments_join[OF file_names_clean] assms by blast
  ultimately have "[] \<in> set p" by (metis list.set_intros(1))
  then show False using assms(1) by (auto simp: list_all_iff file_name_def clean_element_def)
qed

lemma rel_path_clean:
  assumes "list_all file_name p" and "p \<noteq> []"
  shows "path_clean (path_join_segments p) = path_join_segments p"
    and "path_clean (path_join_segments p @ ''/'') = path_join_segments p"
proof -
  have segs: "path_segments (path_join_segments p) = p" using path_segments_join[OF file_names_clean] assms by blast
  have nodd: "dotdot \<notin> set p" using assms(1) by (auto simp: list_all_iff file_name_def)
  have idle: "clean_segments False [] p = p"
    using clean_segments_idle[OF file_names_clean[OF assms(1)] nodd, of False "[]"] by simp
  show "path_clean (path_join_segments p) = path_join_segments p"
    using assms rel_path_relative idle by (simp add: path_clean_def segs)
  have ne: "path_join_segments p \<noteq> []" using segs assms(2) by (auto simp: path_segments_def)
      (metis assms(1) clean_element_def file_name_def list.set_intros(1) list_all_iff split_byte.simps(1))
  have "\<not> is_abs (path_join_segments p @ ''/'')"
    using rel_path_relative[OF assms] ne by (cases "path_join_segments p") (auto simp: is_abs_def has_prefix_def)
  moreover have "path_segments (path_join_segments p @ ''/'') = p @ [[]]"
    using path_segments_append[of "path_join_segments p" "[]"] segs by (simp add: path_segments_def)
  ultimately show "path_clean (path_join_segments p @ ''/'') = path_join_segments p"
    using assms(2) idle by (simp add: path_clean_def clean_segments_append)
qed

section \<open>What is packed\<close>

definition below_root :: "src_node \<Rightarrow> (string list \<times> src_node) list" where
  "below_root source = filter (\<lambda>x. fst x \<noteq> []) (walk [] source)"

definition packed :: "string list \<times> src_node \<Rightarrow> tar_entry" where
  "packed x = (case x of (p, n) \<Rightarrow> (case n of
     SrcFile content \<Rightarrow> \<lparr>te_name = path_join_segments p, te_type = TypeReg, te_content = content, te_broken = False\<rparr>
   | _ \<Rightarrow> \<lparr>te_name = path_join_segments p @ ''/'', te_type = TypeDir, te_content = [], te_broken = False\<rparr>))"

lemma zip_entries_plain:
  "list_all (\<lambda>x. plain_tree (snd x)) xs \<Longrightarrow> zip_entries xs = Inr (map packed (filter (\<lambda>x. fst x \<noteq> []) xs))"
proof (induction xs)
  case (Cons x xs)
  then show ?case
    by (cases x; cases "snd x") (auto simp: packed_def zip_entry_def)
qed simp

lemma below_root_plain:
  assumes "plain_tree source" and "(p, n) \<in> set (below_root source)"
  shows "list_all file_name p" "p \<noteq> []" "plain_tree n"
  using walk_plain[of source "[]" p n] assms by (auto simp: below_root_def)

lemma zipFolder_plain: "plain_tree source \<Longrightarrow> zipFolder source = Inr (map packed (below_root source))"
  using walk_plain[of source "[]"]
  by (auto simp: zipFolder_def below_root_def list_all_iff intro!: zip_entries_plain)

lemma set_str_join: "set (str_join xs sep) \<subseteq> (\<Union>x\<in>set xs. set x) \<union> set sep"
  by (induction xs sep rule: str_join.induct) auto

lemma packed_name_clean:
  "list_all file_name p \<Longrightarrow> p \<noteq> [] \<Longrightarrow> path_clean (te_name (packed (p, n))) = path_join_segments p"
  by (cases n) (simp_all add: packed_def rel_path_clean)

lemma header_ok_packed:
  assumes "list_all file_name p" and "p \<noteq> []"
  shows "header_ok (header_of (packed (p, n))) \<longleftrightarrow> \<not> str_contains (path_join_segments p) dotdot"
proof -
  let ?r = "path_join_segments p"
  have segs: "path_segments ?r = p" using path_segments_join[OF file_names_clean] assms by blast
  have elems: "x \<in> set p \<Longrightarrow> x \<noteq> [] \<and> x \<noteq> ''.'' \<and> CHR 0x00 \<notin> set x" for x
    using assms(1) by (auto simp: list_all_iff file_name_def clean_element_def)
  have "[] \<notin> set (path_segments ?r)" "''.'' \<notin> set (path_segments ?r)" using elems segs by auto
  then have "?r \<notin> {'''', ''.'', ''/''}" by (auto simp: path_segments_def)
  moreover have "CHR 0x00 \<notin> set ?r"
    using set_str_join[of p "''/''"] elems by (fastforce simp: path_join_segments_def)
  moreover have "te_type (packed (p, n)) = TypeReg \<or> te_type (packed (p, n)) = TypeDir"
    by (cases n) (simp_all add: packed_def)
  ultimately show ?thesis
    using packed_name_clean[OF assms, of n] rel_path_relative[OF assms] by (simp add: header_ok_def header_of_def)
qed

definition packed_size :: "string list \<times> src_node \<Rightarrow> nat" where
  "packed_size x = (case snd x of SrcFile content \<Rightarrow> length content | _ \<Rightarrow> 0)"

lemma size_packed: "length (te_content (packed x)) = packed_size x"
  by (cases x) (simp add: packed_def packed_size_def split: src_node.split)

lemma packed_intact: "\<not> te_broken (packed x)"
  by (cases x; cases "snd x") (simp_all add: packed_def)

text \<open>
  What the CLI packs from a folder of files and directories passes the server's check exactly
  when the folder has at most 10 files and directories, 1 MiB of content and no two dots in a row
  in any path below it; a folder with a file called \<open>notes..txt\<close> is refused.
\<close>

theorem packed_folder_accepted_iff:
  assumes "plain_tree source" and "list_all (\<lambda>x. packed_size x < 2 ^ 63) (below_root source)"
    and "zipFolder source = Inr ts"
  shows "Unzip (Some (map (\<lambda>e. Some (header_of e)) ts)) = None \<longleftrightarrow>
     length (below_root source) \<le> 10 \<and> sum_list (map packed_size (below_root source)) \<le> 1048576 \<and>
     list_all (\<lambda>x. \<not> str_contains (path_join_segments (fst x)) dotdot) (below_root source)"
proof -
  have ts: "ts = map packed (below_root source)" using zipFolder_plain[OF assms(1)] assms(3) by simp
  let ?hs = "map (\<lambda>e. Some (header_of e)) ts" and ?es = "map header_of ts"
  have hs: "?hs = map Some ?es" by simp
  have "sizes_in_range ?hs"
    using assms(2) unfolding hs sizes_in_range_Some
    by (auto simp: ts sizes_ok_def list_all_iff header_of_def size_packed)
  from unzip_accepts[OF this] have
    "Unzip (Some ?hs) = None \<longleftrightarrow> list_all header_ok ?es \<and> sum_list (map th_size ?es) \<le> 1048576 \<and> length ?es \<le> 10"
    unfolding hs by (metis (no_types, lifting) inj_map_eq_map inj_Some)
  moreover have "list_all header_ok ?es \<longleftrightarrow>
      list_all (\<lambda>x. \<not> str_contains (path_join_segments (fst x)) dotdot) (below_root source)"
    using header_ok_packed below_root_plain[OF assms(1)] by (fastforce simp: ts list_all_iff)
  moreover have "sum_list (map th_size ?es) = int (sum_list (map packed_size (below_root source)))"
    by (simp add: ts header_of_def size_packed o_def int_sum_list)
  ultimately show ?thesis by (auto simp: ts)
qed

definition sample_folder :: src_node where
  "sample_folder = SrcDir [(''lib'', SrcDir [(''u.py'', SrcFile ''pass'')])]"

lemma sample_folder_below:
  "below_root sample_folder = [([''lib''], SrcDir [(''u.py'', SrcFile ''pass'')]), ([''lib'', ''u.py''], SrcFile ''pass'')]"
  by (simp add: below_root_def sample_folder_def)

lemma sample_folder_clean: "path_clean ''lib/'' = ''lib''" "path_clean ''lib/u.py'' = ''lib/u.py''"
  by code_simp+

lemma sample_folder_facts:
  "plain_tree sample_folder" "list_all (\<lambda>x. packed_size x < 2 ^ 63) (below_root sample_folder)"
  by (simp add: sample_folder_def file_name_def clean_element_def) (simp add: sample_folder_below packed_size_def)

lemma sample_folder_accepted:
  "\<exists>ts. zipFolder sample_folder = Inr ts \<and> Unzip (Some (map (\<lambda>e. Some (header_of e)) ts)) = None"
  by (simp add: zipFolder_plain[OF sample_folder_facts(1)] sample_folder_below packed_def Unzip_def
      validateTarHeader_def header_of_def Let_def TypeReg_def TypeDir_def path_join_segments_def
      sample_folder_clean str_contains_def is_abs_def has_prefix_def MaxTotalSize_def MaxFiles_def in_int64_def)

theorem packed_folder_accepted_iff_witness:
  "\<exists>ts. zipFolder sample_folder = Inr ts \<and> Unzip (Some (map (\<lambda>e. Some (header_of e)) ts)) = None"
proof -
  have "list_all (\<lambda>x. \<not> str_contains (path_join_segments (fst x)) dotdot) (below_root sample_folder)"
    by (simp add: sample_folder_below path_join_segments_def str_contains_def)
  then show ?thesis
    using packed_folder_accepted_iff[OF sample_folder_facts(1,2) zipFolder_plain[OF sample_folder_facts(1)]]
      zipFolder_plain[OF sample_folder_facts(1)] by (simp add: sample_folder_below packed_size_def)
qed

section \<open>From the folder to the analyzer's workspace\<close>

text \<open>The files an extraction writes, in order.\<close>

definition writes :: "fs_op list \<Rightarrow> (string \<times> string) list" where
  "writes tr = concat (map (\<lambda>op. case op of WriteFile p b \<Rightarrow> [(p, b)] | _ \<Rightarrow> []) tr)"

lemma writes_append [simp]: "writes (a @ b) = writes a @ writes b" and writes_Nil [simp]: "writes [] = []"
  by (simp_all add: writes_def)

definition written_by :: "string \<Rightarrow> tar_entry \<Rightarrow> (string \<times> string) list" where
  "written_by base e = (if te_type e = TypeReg then [(destination base (te_name e), te_content e)] else [])"

lemma extract_entry_writes:
  assumes "extract_entry os_ok maxBytes base tot e = (None, ops, tot')"
  shows "writes ops = written_by base e"
  using assms copy_limited_complete(1)[of e "maxBytes - tot"]
  by (auto simp: extract_entry_def written_by_def writes_def Let_def split_beta TypeReg_def TypeDir_def split: if_splits)

lemma extract_entries_writes:
  "fst (extract_entries os_ok maxBytes base tot (map Entry es) tr) = None \<Longrightarrow>
   writes (snd (extract_entries os_ok maxBytes base tot (map Entry es) tr)) =
     writes tr @ concat (map (written_by base) es)"
proof (induction es arbitrary: tot tr)
  case (Cons e es)
  obtain err ops tot' where e: "extract_entry os_ok maxBytes base tot e = (err, ops, tot')" by (metis prod_cases3)
  with Cons.prems have none: "err = None" by (cases err) auto
  show ?case
    using Cons.IH[of tot' "tr @ ops"] Cons.prems e none extract_entry_writes[of os_ok maxBytes base tot e ops tot'] by simp
qed simp

text \<open>A folder's files with their paths, in walk order.\<close>

definition files_of :: "src_node \<Rightarrow> (string list \<times> string) list" where
  "files_of source = concat (map (\<lambda>(p, n). case n of SrcFile c \<Rightarrow> [(p, c)] | _ \<Rightarrow> []) (below_root source))"

lemma join_clean_base:
  assumes "clean_base base" and "list_all file_name p" and "p \<noteq> []"
  shows "path_join base (path_join_segments p) = base @ ''/'' @ path_join_segments p"
proof -
  have segs: "path_segments (path_join_segments p) = p" using path_segments_join[OF file_names_clean] assms by blast
  have abs: "is_abs base" and cl: "path_clean base = base" and ne: "base \<noteq> ''/''" using assms(1) by (simp_all add: clean_base_def)
  have keep: "filter (\<lambda>x. x \<noteq> [] \<and> x \<noteq> ''.'') p = p" and nodd: "dotdot \<notin> set p"
    using assms(2) by (auto simp: list_all_iff file_name_def clean_element_def intro!: filter_True)
  let ?B = "clean_segments True [] (path_segments base)"
  have B: "base = CHR ''/'' # path_join_segments ?B" using abs cl by (simp add: path_clean_def)
  then have "?B \<noteq> []" using ne by auto
  then have "path_join_segments (?B @ p) = path_join_segments ?B @ ''/'' @ path_join_segments p"
    using assms(3) by (simp add: path_join_segments_def str_join_append)
  moreover have "path_join base (path_join_segments p) = CHR ''/'' # path_join_segments (?B @ p)"
    using abs is_abs_append[OF abs] nodd keep
    by (auto simp: path_join_def path_clean_def path_segments_append clean_segments_append segs is_abs_def has_prefix_def)
  ultimately show ?thesis using B by (metis append_Cons)
qed

lemma written_by_packed:
  assumes "clean_base base" and "list_all file_name p" and "p \<noteq> []"
  shows "written_by base (packed (p, n)) =
     (case n of SrcFile c \<Rightarrow> [(base @ ''/'' @ path_join_segments p, c)] | _ \<Rightarrow> [])"
  using packed_name_clean[OF assms(2,3), of n] join_clean_base[OF assms]
  by (cases n) (simp_all add: written_by_def packed_def destination_def TypeReg_def TypeDir_def)



end
