(* ===== verification/CliConfig.thy ===== *)
theory CliConfig
  imports EnvConfig "HOL-Library.Finite_Map"
begin

text \<open>
  The configuration of the CLI: \<open>internal/cli/config/config.go\<close> and the \<open>configure\<close> command
  (\<open>cmd/cli/configure.go\<close>). The file system is a map from paths to contents; the TOML codec is the
  pair of parameters \<open>enc\<close> and \<open>dec\<close>, of which the properties assume that what was encoded decodes to
  itself. The lines of standard input are those the scanner returns.
\<close>

section \<open>config.go\<close>

record profile =
  pf_auth_id :: string
  pf_secret_key :: string
  pf_endpoint :: string

type_synonym cli_config = "(string, profile) fmap"
type_synonym files = "string \<Rightarrow> string option"

definition config_path :: "string \<Rightarrow> string" where
  "config_path home = path_join home ''.oblak/config.toml''"

datatype config_error = ReadFailed | BadToml | SaveFailed | ProfileMissing string | InputClosed

text \<open>\<open>readable\<close> is false when reading fails with an error other than that the file does not exist.\<close>

definition Load :: "(string \<Rightarrow> cli_config option) \<Rightarrow> bool \<Rightarrow> string \<Rightarrow> files \<Rightarrow> config_error + cli_config" where
  "Load dec readable home fs =
     (if \<not> readable then Inl ReadFailed
      else (case fs (config_path home) of
              None \<Rightarrow> Inr fmempty
            | Some data \<Rightarrow> (case dec data of None \<Rightarrow> Inl BadToml | Some cfg \<Rightarrow> Inr cfg)))"

datatype file_op = MkdirAll string | WriteFile string string | Rename string string

fun file_effect :: "file_op \<Rightarrow> files \<Rightarrow> files" where
  "file_effect (MkdirAll p) fs = fs"
| "file_effect (WriteFile p d) fs = fs(p \<mapsto> d)"
| "file_effect (Rename a b) fs = fs(b := fs a, a := None)"

definition tmp_path :: "string \<Rightarrow> string" where
  "tmp_path home = config_path home @ ''.tmp''"

text \<open>The steps of \<open>Save\<close>; encoding the map does not fail.\<close>

definition save_steps :: "(cli_config \<Rightarrow> string) \<Rightarrow> string \<Rightarrow> cli_config \<Rightarrow> file_op list" where
  "save_steps enc home c =
     [MkdirAll (path_dir (config_path home)), WriteFile (tmp_path home) (enc c),
      Rename (tmp_path home) (config_path home)]"

definition Save ::
  "(file_op \<Rightarrow> bool) \<Rightarrow> (cli_config \<Rightarrow> string) \<Rightarrow> string \<Rightarrow> cli_config \<Rightarrow> files \<Rightarrow> config_error option \<times> files" where
  "Save ok enc home c fs =
     (let steps = save_steps enc home c; finished = takeWhile ok steps in
      (if length finished < length steps then Some SaveFailed else None, fold file_effect finished fs))"

definition ActiveProfileName :: "getenv \<Rightarrow> string" where
  "ActiveProfileName env = (let name = env ''OBLAK_PROFILE'' in if name \<noteq> [] then name else ''default'')"

definition ActiveProfile :: "getenv \<Rightarrow> cli_config \<Rightarrow> config_error + profile" where
  "ActiveProfile env c =
     (let name = ActiveProfileName env in
      case fmlookup c name of None \<Rightarrow> Inl (ProfileMissing name) | Some p \<Rightarrow> Inr p)"

section \<open>configure.go\<close>

text \<open>The value read and the lines left; blank answers are asked again when a value is required.\<close>

fun prompt :: "string \<Rightarrow> bool \<Rightarrow> string list \<Rightarrow> config_error + string \<times> string list" where
  "prompt defaultVal required [] = Inl InputClosed"
| "prompt defaultVal required (l # ls) =
     (let val = str_trim_space l in
      if val = [] \<and> defaultVal \<noteq> [] then Inr (defaultVal, ls)
      else if val = [] \<and> required then prompt defaultVal required ls
      else Inr (val, ls))"

definition configure ::
  "(cli_config \<Rightarrow> string) \<Rightarrow> (string \<Rightarrow> cli_config option) \<Rightarrow> bool \<Rightarrow> (file_op \<Rightarrow> bool) \<Rightarrow> getenv \<Rightarrow> string \<Rightarrow>
   string list \<Rightarrow> files \<Rightarrow> config_error option \<times> files" where
  "configure enc dec readable ok env home input fs =
     (case prompt [] True input of
        Inl e \<Rightarrow> (Some e, fs)
      | Inr (authID, input1) \<Rightarrow>
          (case prompt [] True input1 of
             Inl e \<Rightarrow> (Some e, fs)
           | Inr (secretKey, input2) \<Rightarrow>
               (case prompt ''localhost:8080'' False input2 of
                  Inl e \<Rightarrow> (Some e, fs)
                | Inr (endpoint, _) \<Rightarrow>
                    (case Load dec readable home fs of
                       Inl e \<Rightarrow> (Some e, fs)
                     | Inr cfg \<Rightarrow>
                         Save ok enc home
                           (fmupd (ActiveProfileName env)
                              \<lparr>pf_auth_id = authID, pf_secret_key = secretKey, pf_endpoint = endpoint\<rparr> cfg) fs))))"

section \<open>Saving is atomic\<close>

lemma paths_differ [simp]: "tmp_path home \<noteq> config_path home" "config_path home \<noteq> tmp_path home"
  by (simp_all add: tmp_path_def)

text \<open>
  The file system when the process dies after \<open>k\<close> steps, in the middle of the next: a write that is
  cut off leaves any content in its file, a rename happens or not.
\<close>

definition crash :: "nat \<Rightarrow> string \<Rightarrow> file_op list \<Rightarrow> files \<Rightarrow> files" where
  "crash k torn steps fs =
     (let fs' = fold file_effect (take k steps) fs in
      case drop k steps of WriteFile p d # _ \<Rightarrow> fs'(p \<mapsto> torn) | _ \<Rightarrow> fs')"

text \<open>
  C38: Whenever the CLI is killed while it saves, and whatever the interrupted write leaves behind, the
  configuration file is the old one or the complete new one.
\<close>

theorem save_is_atomic:
  "crash k torn (save_steps enc home c) fs (config_path home) \<in> {fs (config_path home), Some (enc c)}"
proof -
  consider "k = 0" | "k = 1" | "k = 2" | j where "k = Suc (Suc (Suc j))"
    by (metis One_nat_def Suc_1 not0_implies_Suc)
  then show ?thesis by cases (simp_all add: crash_def save_steps_def numeral_2_eq_2)
qed

text \<open>A failing step leaves the old configuration, and at most a temporary file.\<close>

lemma save_failed:
  assumes "Save ok enc home c fs = (Some e, fs')"
  shows "p \<noteq> tmp_path home \<Longrightarrow> fs' p = fs p"
  using assms by (auto simp: Save_def save_steps_def Let_def split: if_splits)

lemma save_succeeded:
  assumes "Save ok enc home c fs = (None, fs')"
  shows "fs' (config_path home) = Some (enc c)" "p \<notin> {config_path home, tmp_path home} \<Longrightarrow> fs' p = fs p"
  using assms by (auto simp: Save_def save_steps_def Let_def split: if_splits)

section \<open>The prompt\<close>

text \<open>Blank lines are skipped for a required value, and the first other line is the answer, trimmed.\<close>

lemma prompt_required:
  "prompt [] True ls =
     (case dropWhile (\<lambda>l. str_trim_space l = []) ls of
        [] \<Rightarrow> Inl InputClosed | l # rest \<Rightarrow> Inr (str_trim_space l, rest))"
  by (induction ls) (simp_all add: Let_def)

lemma prompt_default:
  "d \<noteq> [] \<Longrightarrow> prompt d r (l # ls) = Inr (if str_trim_space l = [] then d else str_trim_space l, ls)"
  by (simp add: Let_def)

lemma prompt_nonempty: "prompt [] True ls = Inr (v, rest) \<Longrightarrow> v \<noteq> []"
  by (auto simp: prompt_required split: list.splits dest: dropWhile_eq_Cons_conv[THEN iffD1])

text \<open>
  After a successful \<open>configure\<close> the active profile is the one that was typed, with a non-empty
  key id and secret, and the other profiles are as they were.
\<close>

theorem configured_profile_active:
  assumes "\<And>c. dec (enc c) = Some c" and "configure enc dec True ok env home input fs = (None, fs')"
  shows "\<exists>old cfg p. Load dec True home fs = Inr old \<and> Load dec True home fs' = Inr cfg \<and>
     ActiveProfile env cfg = Inr p \<and> pf_auth_id p \<noteq> [] \<and> pf_secret_key p \<noteq> [] \<and> pf_endpoint p \<noteq> [] \<and>
     cfg = fmupd (ActiveProfileName env) p old"
proof -
  obtain a i1 s i2 e i3 old where a: "prompt [] True input = Inr (a, i1)" and s: "prompt [] True i1 = Inr (s, i2)"
    and e: "prompt ''localhost:8080'' False i2 = Inr (e, i3)" and old: "Load dec True home fs = Inr old"
    and save: "Save ok enc home (fmupd (ActiveProfileName env)
        \<lparr>pf_auth_id = a, pf_secret_key = s, pf_endpoint = e\<rparr> old) fs = (None, fs')"
    using assms(2) by (auto simp: configure_def split: sum.splits prod.splits)
  have "e \<noteq> []" using e by (cases i2) (auto simp: Let_def split: if_splits)
  then show ?thesis
    using prompt_nonempty[OF a] prompt_nonempty[OF s] old save_succeeded(1)[OF save] assms(1)
    by (simp add: Load_def ActiveProfile_def Let_def)
qed

text \<open>A codec with the assumed property, on which the theorem is applied.\<close>

instance profile_ext :: (countable) countable
proof (rule countable_classI)
  fix r s :: "('a::countable) profile_ext"
  show "to_nat (pf_auth_id r, pf_secret_key r, pf_endpoint r, profile.more r) =
      to_nat (pf_auth_id s, pf_secret_key s, pf_endpoint s, profile.more s) \<Longrightarrow> r = s"
    by simp
qed

definition sample_enc :: "cli_config \<Rightarrow> string" where
  "sample_enc c = replicate (to_nat c) CHR ''x''"

definition sample_dec :: "string \<Rightarrow> cli_config option" where
  "sample_dec s = Some (from_nat (length s))"

definition sample_input :: "string list" where
  "sample_input = [''id1'', [], ''s3cr3t'', []]"

theorem configured_profile_active_witness:
  "\<exists>fs' cfg. configure sample_enc sample_dec True (\<lambda>_. True) (\<lambda>_. []) ''/home/u'' sample_input Map.empty = (None, fs') \<and>
     Load sample_dec True ''/home/u'' fs' = Inr cfg \<and> (\<exists>p. ActiveProfile (\<lambda>_. []) cfg = Inr p)"
proof -
  have trim: "str_trim_space ''id1'' = ''id1''" "str_trim_space ''s3cr3t'' = ''s3cr3t''"
    by (simp_all add: str_trim_space_plain plain_char_def)
  obtain fs' where c: "configure sample_enc sample_dec True (\<lambda>_. True) (\<lambda>_. []) ''/home/u''
      sample_input Map.empty = (None, fs')"
    by (simp add: configure_def trim Load_def Save_def save_steps_def Let_def sample_input_def)
  have "sample_dec (sample_enc c) = Some c" for c by (simp add: sample_dec_def sample_enc_def)
  from configured_profile_active[OF this c] c show ?thesis by blast
qed

end
