(* ===== verification/CliPoll.thy ===== *)
theory CliPoll
  imports GoStrings
begin

text \<open>
  \<open>PollFunctionStatus\<close> of \<open>cmd/cli/util/pollstatus.go\<close>: the loop that asks the server once a second
  for the status of an uploaded function until the function is done. The answers of the server are
  a list, of which a run consumes as many as it needs; what it prints is modelled up to the line
  that reports a change of status and the final line. An answer carries the HTTP status and the
  status field of its body, \<open>None\<close> when the body is not the expected JSON.
\<close>

datatype poll_answer = RequestError | Answer nat "string option"

datatype color = Green | Red | Yellow | Cyan

definition statusColor :: "string \<Rightarrow> color" where
  "statusColor status =
     (if status = ''READY'' then Green
      else if status = ''FAILED'' \<or> status = ''DETECTED'' then Red
      else if status = ''PENDING'' then Yellow
      else Cyan)"

definition terminal :: "string \<Rightarrow> bool" where
  "terminal status \<longleftrightarrow> status = ''FAILED'' \<or> status = ''READY'' \<or> status = ''DETECTED''"

datatype printed = StatusChanged string string | FinalStatus bool string

datatype poll_result = Returned | ExitFailure | StillPolling

fun poll_loop :: "string \<Rightarrow> poll_answer list \<Rightarrow> poll_result \<times> printed list" where
  "poll_loop lastStatus [] = (StillPolling, [])"
| "poll_loop lastStatus (RequestError # as) = (ExitFailure, [])"
| "poll_loop lastStatus (Answer code body # as) =
     (if code \<ge> 300 then (ExitFailure, [])
      else (case body of
        None \<Rightarrow> (ExitFailure, [])
      | Some status \<Rightarrow>
          let change = (if status \<noteq> lastStatus \<and> lastStatus \<noteq> [] then [StatusChanged lastStatus status] else []) in
          if terminal status
          then (Returned, change @ [FinalStatus (\<not> (status = ''FAILED'' \<or> status = ''DETECTED'')) status])
          else (case poll_loop status as of (r, out) \<Rightarrow> (r, change @ out))))"

text \<open>\<open>uuid.Parse\<close> and the making of the client come first.\<close>

definition PollFunctionStatus ::
  "(string \<Rightarrow> 'u option) \<Rightarrow> bool \<Rightarrow> string \<Rightarrow> ('u \<Rightarrow> poll_answer list) \<Rightarrow> poll_result \<times> printed list" where
  "PollFunctionStatus parseUuid client_ok functionId answers =
     (case parseUuid functionId of
        None \<Rightarrow> (ExitFailure, [])
      | Some k \<Rightarrow> if \<not> client_ok then (ExitFailure, []) else poll_loop [] (answers k))"

section \<open>When it stops\<close>

definition pending_answer :: "poll_answer \<Rightarrow> bool" where
  "pending_answer a \<longleftrightarrow> (case a of Answer code (Some status) \<Rightarrow> code < 300 \<and> \<not> terminal status | _ \<Rightarrow> False)"

definition final_answer :: "poll_answer \<Rightarrow> bool" where
  "final_answer a \<longleftrightarrow> (case a of Answer code (Some status) \<Rightarrow> code < 300 \<and> terminal status | _ \<Rightarrow> False)"

lemma answer_simps [simp]:
  "pending_answer (Answer code (Some status)) \<longleftrightarrow> code < 300 \<and> \<not> terminal status"
  "\<not> pending_answer (Answer code None)" "\<not> pending_answer RequestError"
  "final_answer (Answer code (Some status)) \<longleftrightarrow> code < 300 \<and> terminal status"
  "\<not> final_answer (Answer code None)" "\<not> final_answer RequestError"
  by (simp_all add: pending_answer_def final_answer_def)

lemma poll_loop_stops:
  "fst (poll_loop l as) =
     (case dropWhile pending_answer as of [] \<Rightarrow> StillPolling | a # _ \<Rightarrow> if final_answer a then Returned else ExitFailure)"
proof (induction l as rule: poll_loop.induct)
  case (3 l code body as)
  then show ?case
    by (cases body) (simp_all add: Let_def split_beta)
qed simp_all

text \<open>
  Polling ends with the first answer that is not a pending status: it returns when that is READY,
  FAILED or DETECTED, exits with a failure when it is an error, and goes on for ever when there is
  none.
\<close>

theorem poll_outcome:
  "fst (PollFunctionStatus parseUuid client_ok functionId answers) =
     (case parseUuid functionId of
        None \<Rightarrow> ExitFailure
      | Some k \<Rightarrow> if client_ok
          then (case dropWhile pending_answer (answers k) of
                  [] \<Rightarrow> StillPolling | a # _ \<Rightarrow> if final_answer a then Returned else ExitFailure)
          else ExitFailure)"
  by (simp add: PollFunctionStatus_def poll_loop_stops split: option.split)

section \<open>What it prints\<close>

definition status_of :: "poll_answer \<Rightarrow> string" where
  "status_of a = (case a of Answer _ (Some status) \<Rightarrow> status | _ \<Rightarrow> [])"

text \<open>The changes in a sequence of statuses, after an initial one.\<close>

fun changes :: "string \<Rightarrow> string list \<Rightarrow> printed list" where
  "changes l [] = []"
| "changes l (s # ss) = (if s \<noteq> l \<and> l \<noteq> [] then [StatusChanged l s] else []) @ changes s ss"

lemma changes_remdups: "l \<noteq> [] \<Longrightarrow> [] \<notin> set ss \<Longrightarrow>
  changes l ss = map (\<lambda>(a, b). StatusChanged a b) (zip (remdups_adj (l # ss)) (tl (remdups_adj (l # ss))))"
proof (induction ss arbitrary: l)
  case (Cons s ss)
  moreover obtain rest where "remdups_adj (s # ss) = s # rest"
    by (metis hd_remdups_adj list.collapse list.distinct(1) list.sel(1) remdups_adj_Nil_iff)
  ultimately show ?case by auto
qed simp

lemma poll_loop_prints:
  "list_all pending_answer us \<Longrightarrow> final_answer a \<Longrightarrow>
   snd (poll_loop l (us @ a # vs)) =
     changes l (map status_of (us @ [a])) @ [FinalStatus (status_of a = ''READY'') (status_of a)]"
proof (induction us arbitrary: l)
  case Nil
  then show ?case
    by (cases a) (auto simp: final_answer_def status_of_def terminal_def Let_def split: option.splits)
next
  case (Cons u us)
  then obtain code status where u: "u = Answer code (Some status)" "code < 300" "\<not> terminal status"
    by (auto simp: pending_answer_def split: poll_answer.splits option.splits)
  show ?case using Cons.IH[of status] Cons.prems u by (simp add: status_of_def Let_def split_beta)
qed

text \<open>
  The user sees every status the server reported, in order and each once until it changes, and
  the final line is a success exactly for READY.
\<close>

theorem poll_shows_history:
  assumes "list_all pending_answer us" and "final_answer a" and "[] \<notin> set (map status_of us)" and "us \<noteq> []"
  shows "let h = remdups_adj (map status_of (us @ [a])) in
     snd (poll_loop [] (us @ a # vs)) =
       map (\<lambda>(x, y). StatusChanged x y) (zip h (tl h)) @ [FinalStatus (status_of a = ''READY'') (status_of a)]"
proof -
  obtain u us' where us: "us = u # us'" using assms(4) by (cases us) auto
  have fin: "status_of a \<noteq> []"
    using assms(2) by (auto simp: final_answer_def status_of_def terminal_def split: poll_answer.splits option.splits)
  have "changes [] (map status_of (us @ [a])) = changes (status_of u) (map status_of (us' @ [a]))"
    by (simp add: us)
  also have "\<dots> = (let h = remdups_adj (map status_of (us @ [a])) in map (\<lambda>(x, y). StatusChanged x y) (zip h (tl h)))"
    using changes_remdups[of "status_of u" "map status_of (us' @ [a])"] assms(3) fin by (auto simp: us Let_def)
  finally show ?thesis using poll_loop_prints[OF assms(1,2), of "[]" vs] by (simp add: Let_def)
qed

theorem poll_shows_history_witness:
  "snd (poll_loop [] [Answer 200 (Some ''SCANNING''), Answer 200 (Some ''SCANNING''), Answer 200 (Some ''READY'')]) =
     [StatusChanged ''SCANNING'' ''READY'', FinalStatus True ''READY'']"
  using poll_shows_history[of "[Answer 200 (Some ''SCANNING''), Answer 200 (Some ''SCANNING'')]" "Answer 200 (Some ''READY'')" "[]"]
  by (simp add: pending_answer_def final_answer_def terminal_def status_of_def)

end
