(* ===== verification/CliCommands.thy ===== *)
theory CliCommands
  imports CliArchive CliConfig CliPoll Handlers AuthKeys
begin

text \<open>
  The commands of the two command-line tools: \<open>upload\<close>, \<open>list\<close> and \<open>details\<close> of \<open>cmd/cli\<close> and
  \<open>create-user\<close> and \<open>create-key\<close> of \<open>cmd/admin\<close>. A command returns an error or succeeds with what it
  prints. The generated API client is a parameter: a request is answered by an HTTP reply or by an
  error of the transport.
\<close>

datatype http_reply = TransportError | HttpReply nat string

datatype command_error =
    InvalidPath string | ConfigError config_error | NoClient | ZipFailed zip_error | RequestFailed
  | RequestRejected nat string | BadResponse | InvalidId | StoreRejected

section \<open>upload.go\<close>

definition validatePath :: "(string \<Rightarrow> string option) \<Rightarrow> (string \<Rightarrow> stat_result) \<Rightarrow> string \<Rightarrow> command_error + string" where
  "validatePath absOf stat path =
     (let absPath = (case absOf path of Some p \<Rightarrow> p | None \<Rightarrow> []) in
      case stat absPath of
        StatMissing \<Rightarrow> Inl (InvalidPath path)
      | StatError \<Rightarrow> Inl (InvalidPath path)
      | StatFile \<Rightarrow> Inl (InvalidPath path)
      | StatDir \<Rightarrow> Inr absPath)"

text \<open>The form the archive is sent in: one part.\<close>

definition upload_form :: "part option list" where
  "upload_form = [Some \<lparr>pt_form = ''function'', pt_file = ''function.tar.gz''\<rparr>]"

text \<open>\<open>send\<close> is the generated client's upload call, \<open>parse\<close> reads the function id of its answer.\<close>

definition uploadFile ::
  "(string \<Rightarrow> string option) \<Rightarrow> bool \<Rightarrow> (part option list \<Rightarrow> tar_entry list \<Rightarrow> http_reply) \<Rightarrow> src_node \<Rightarrow>
   command_error + string" where
  "uploadFile parse client_ok send folder =
     (case zipFolder folder of
        Inl e \<Rightarrow> Inl (ZipFailed e)
      | Inr body \<Rightarrow>
          if \<not> client_ok then Inl NoClient
          else (case send upload_form body of
                  TransportError \<Rightarrow> Inl RequestFailed
                | HttpReply code text \<Rightarrow>
                    if code \<ge> 300 then Inl (RequestRejected code text)
                    else (case parse text of None \<Rightarrow> Inl BadResponse | Some functionId \<Rightarrow> Inr functionId)))"

definition upload_command ::
  "(string \<Rightarrow> string option) \<Rightarrow> (string \<Rightarrow> stat_result) \<Rightarrow> (string \<Rightarrow> src_node) \<Rightarrow> config_error + cli_config \<Rightarrow> getenv \<Rightarrow>
   (profile \<Rightarrow> bool) \<Rightarrow> (string \<Rightarrow> string option) \<Rightarrow> (profile \<Rightarrow> part option list \<Rightarrow> tar_entry list \<Rightarrow> http_reply) \<Rightarrow>
   (string \<Rightarrow> 'u option) \<Rightarrow> (profile \<Rightarrow> 'u \<Rightarrow> poll_answer list) \<Rightarrow> string \<Rightarrow> command_error + poll_result \<times> printed list" where
  "upload_command absOf stat tree cfg env client_ok parse send parseUuid answers arg =
     (case validatePath absOf stat arg of
        Inl e \<Rightarrow> Inl e
      | Inr path \<Rightarrow>
          (case cfg of
             Inl e \<Rightarrow> Inl (ConfigError e)
           | Inr c \<Rightarrow>
               (case ActiveProfile env c of
                  Inl e \<Rightarrow> Inl (ConfigError e)
                | Inr p \<Rightarrow>
                    (case uploadFile parse (client_ok p) (send p) (tree path) of
                       Inl e \<Rightarrow> Inl e
                     | Inr functionId \<Rightarrow> Inr (PollFunctionStatus parseUuid (client_ok p) functionId (answers p))))))"

section \<open>list.go\<close>

text \<open>
  An answer of the generated client: \<open>ok\<close> is \<open>response.JSON200 != nil\<close>.
\<close>

datatype api_reply = ApiError | ApiReply nat bool string

definition list_command ::
  "config_error + profile \<Rightarrow> bool \<Rightarrow> (string \<Rightarrow> 'u option) \<Rightarrow> ('u \<Rightarrow> api_reply) \<Rightarrow> api_reply \<Rightarrow> (string \<Rightarrow> string option) \<Rightarrow>
   string \<Rightarrow> command_error + string" where
  "list_command prof client_ok parseUuid getInvocations getFunctions indent flag =
     (case prof of
        Inl e \<Rightarrow> Inl (ConfigError e)
      | Inr _ \<Rightarrow>
          if \<not> client_ok then Inl NoClient
          else
            let print = (\<lambda>r. case r of
                  ApiError \<Rightarrow> Inl RequestFailed
                | ApiReply code ok body \<Rightarrow>
                    if \<not> ok then Inl (RequestRejected code body)
                    else (case indent body of None \<Rightarrow> Inl BadResponse | Some text \<Rightarrow> Inr text))
            in if flag \<noteq> []
               then (case parseUuid flag of None \<Rightarrow> Inl InvalidId | Some k \<Rightarrow> print (getInvocations k))
               else print getFunctions)"

section \<open>details.go\<close>

record invocation_view =
  iv_id :: string
  iv_status :: string
  iv_start :: int
  iv_end :: "int option"
  iv_logs :: "(string \<times> string) list"

text \<open>The terminal escapes.\<close>

definition escape :: "string \<Rightarrow> string" where "escape code = CHR 0x1B # ''['' @ code @ ''m''"
definition colorRed :: string where "colorRed = escape ''31''"
definition colorWhite :: string where "colorWhite = escape ''97''"
definition colorReset :: string where "colorReset = escape ''0''"
definition colorCyan :: string where "colorCyan = escape ''36''"
definition colorBold :: string where "colorBold = escape ''1''"

definition details_field :: "string \<Rightarrow> string \<Rightarrow> string" where
  "details_field label v = colorBold @ colorCyan @ label @ colorReset @ ''  '' @ v"

definition log_text :: "string \<times> string \<Rightarrow> string" where
  "log_text l = (if fst l = ''stderr'' then colorRed else colorWhite) @ snd l @ colorReset"

text \<open>The lines printed for an invocation; \<open>fmt\<close> writes a time and \<open>fmtD\<close> a duration.\<close>

definition details_lines :: "(int \<Rightarrow> string) \<Rightarrow> (int \<Rightarrow> string) \<Rightarrow> invocation_view \<Rightarrow> string list" where
  "details_lines fmt fmtD v =
     [details_field ''Invocation ID:'' (iv_id v), details_field ''Status:       '' (iv_status v),
      details_field ''Started:      '' (fmt (iv_start v))] @
     (case iv_end v of
        None \<Rightarrow> []
      | Some e \<Rightarrow> [details_field ''Ended:        '' (fmt e), details_field ''Duration:     '' (fmtD (e - iv_start v))]) @
     [[], colorBold @ colorCyan @ ''--- Logs ---'' @ colorReset, []] @
     map log_text (iv_logs v)"

definition details_command ::
  "config_error + profile \<Rightarrow> bool \<Rightarrow> (string \<Rightarrow> 'u option) \<Rightarrow> ('u \<Rightarrow> (nat \<times> string + invocation_view) option) \<Rightarrow>
   (int \<Rightarrow> string) \<Rightarrow> (int \<Rightarrow> string) \<Rightarrow> string \<Rightarrow> command_error + string list" where
  "details_command prof client_ok parseUuid getDetails fmt fmtD flag =
     (case prof of
        Inl e \<Rightarrow> Inl (ConfigError e)
      | Inr _ \<Rightarrow>
          if \<not> client_ok then Inl NoClient
          else (case parseUuid flag of
                  None \<Rightarrow> Inl InvalidId
                | Some k \<Rightarrow>
                    (case getDetails k of
                       None \<Rightarrow> Inl RequestFailed
                     | Some (Inl (code, body)) \<Rightarrow> Inl (RequestRejected code body)
                     | Some (Inr v) \<Rightarrow> Inr (details_lines fmt fmtD v))))"

section \<open>cmd/admin\<close>

definition create_user_command ::
  "(uuid \<Rightarrow> string) \<Rightarrow> uuid \<Rightarrow> string \<Rightarrow> string \<Rightarrow> pg \<Rightarrow> (command_error + string list) \<times> pg" where
  "create_user_command ustr fresh username email s =
     (case create_user fresh username email s of
        (Inl _, s') \<Rightarrow> (Inl StoreRejected, s')
      | (Inr u, s') \<Rightarrow>
          (Inr [''user_id:  '' @ ustr (u_id u), ''username: '' @ u_name u, ''email:    '' @ u_email u], s'))"

definition create_key_command ::
  "(string \<Rightarrow> uuid option) \<Rightarrow> (string \<Rightarrow> string \<Rightarrow> string) \<Rightarrow> string \<Rightarrow> string option \<Rightarrow> string option \<Rightarrow> string \<Rightarrow>
   string \<Rightarrow> pg \<Rightarrow> (command_error + string list) \<times> pg" where
  "create_key_command parseUuid aes kek raw nonce authID rawID s =
     (case parseUuid rawID of
        None \<Rightarrow> (Inl InvalidId, s)
      | Some userID \<Rightarrow>
          (case CreateAuthKey aes kek raw nonce authID userID s of
             (None, s') \<Rightarrow> (Inl StoreRejected, s')
           | (Some key, s') \<Rightarrow>
               (Inr [''auth_id:    '' @ k_auth_id key, ''secret_key: '' @ k_secret key], s')))"

section \<open>The CLI and the server fit together\<close>

lemma upload_form_parsed: "ParseUploadedFile upload_form = Inr ''function.tar.gz''"
  by (simp add: upload_form_def)

text \<open>What the client sees of the server's reply to an upload; \<open>txt\<close> is \<open>err.Error()\<close>.\<close>

definition upload_answer :: "(handler_error \<Rightarrow> string) \<Rightarrow> (uuid \<Rightarrow> string) \<Rightarrow> uuid reply \<Rightarrow> http_reply" where
  "upload_answer txt ustr r = (case r of
     Reply status k \<Rightarrow> HttpReply status (ustr k)
   | Error e \<Rightarrow> HttpReply 500 (txt e)
   | Panic \<Rightarrow> HttpReply 500 [])"

text \<open>
  When \<open>upload\<close> hands a function id to the poll loop, the server has that function, QUARANTINED and
  with the object it stored announced on the bus: no error of the server is taken for a success.
\<close>

theorem uploaded_folder_is_quarantined:
  assumes "uploadFile parse client_ok (\<lambda>form body. upload_answer txt ustr (up_reply
       (UploadLambda ustr fo ff now put bucket user form bus s))) folder = Inr functionId"
    and "\<And>k. parse (ustr k) = Some (ustr k)"
  shows "\<exists>u path. user = Some u \<and> functionId = ustr ff \<and> path = ustr fo @ ''-function.tar.gz'' \<and> put bucket path \<and>
     fn_status_of (up_db (UploadLambda ustr fo ff now put bucket user upload_form bus s)) ff = Some FnQuarantined \<and>
     up_bus (UploadLambda ustr fo ff now put bucket user upload_form bus s) =
       Publish \<lparr>ev_function = ff, ev_user = u, ev_bucket = bucket, ev_path = path, ev_time = now\<rparr> bus"
proof -
  let ?r = "UploadLambda ustr fo ff now put bucket user upload_form bus s"
  obtain code msg where a: "upload_answer txt ustr (up_reply ?r) = HttpReply code msg" "code < 300" "parse msg = Some functionId"
    using assms(1) by (auto simp: uploadFile_def split: sum.splits http_reply.splits if_splits option.splits)
  then obtain k where k: "up_reply ?r = Reply code k" "msg = ustr k"
    by (cases "up_reply ?r") (auto simp: upload_answer_def)
  have path: "up_object ?r = Some path \<Longrightarrow> path = ustr fo @ ''-function.tar.gz''" for path
    by (auto simp: UploadLambda_def UploadFile_def upload_form_parsed Let_def split: option.splits sum.splits prod.splits if_splits)
  have "k = ff \<and> fn_status_of (up_db ?r) = (fn_status_of s)(k \<mapsto> FnQuarantined) \<and>
      (\<exists>u path. user = Some u \<and> up_object ?r = Some path \<and> put bucket path \<and>
         up_bus ?r = Publish \<lparr>ev_function = k, ev_user = u, ev_bucket = bucket, ev_path = path, ev_time = now\<rparr> bus)"
    using upload_cases[of ustr fo ff now put bucket user upload_form bus s] k(1) by (auto simp: Let_def)
  then show ?thesis using path k(2) a(3) assms(2) by auto
qed

lemma sample_upload_sent:
  "uploadFile Some True (\<lambda>form body. upload_answer (\<lambda>_. []) (\<lambda>_. ''id'') (up_reply
     (UploadLambda (\<lambda>_. ''id'') 2 8 0 (\<lambda>_ _. True) ''q'' (Some 1) form [[]] (sample_pg FnReady InvDone)))) sample_folder =
   Inr ''id''"
  by (simp add: uploadFile_def zipFolder_plain[OF sample_folder_facts(1)] UploadLambda_def UploadFile_def upload_form_parsed
      upload_answer_def create_function_def db_exec_def sample_pg_def Let_def)

theorem uploaded_folder_is_quarantined_witness:
  "fn_status_of (up_db (UploadLambda (\<lambda>_. ''id'') 2 8 0 (\<lambda>_ _. True) ''q'' (Some 1) upload_form [[]]
     (sample_pg FnReady InvDone))) 8 = Some FnQuarantined"
  using uploaded_folder_is_quarantined[OF sample_upload_sent] by simp

text \<open>
  C7: The key \<open>create-key\<close> prints is a key that works: a request the CLI signs with the printed id and
  secret passes the server's middleware as the user the key was made for, although the database
  holds the secret only encrypted.
\<close>

theorem issued_key_authenticates:
  assumes "create_key_command parseUuid aes kek raw nonce authID rawID s =
      (Inr [''auth_id:    '' @ pf_auth_id p, ''secret_key: '' @ pf_secret_key p], s')"
    and "map_option length nonce = Some gcm_nonce_size" and "map_option length raw = Some 32"
    and "pg_outcomes s' = []" and "token authID"
    and "signingEditor fmt (pf_auth_id p) (pf_secret_key p) sent req = Some r"
    and "parse (fmt sent) = Some t" and "\<bar>now - t\<bar> \<le> max_skew" and "\<not> isPublic (rq_full_path req)"
  shows "\<exists>u. parseUuid rawID = Some u \<and>
     RequireAuth parse (\<lambda>k. fst (GetAuthKey aes kek k s')) now r = [SetUser u, CallNext]"
proof -
  obtain u key where u: "parseUuid rawID = Some u" and made: "CreateAuthKey aes kek raw nonce authID u s = (Some key, s')"
    and p: "pf_auth_id p = k_auth_id key" "pf_secret_key p = k_secret key"
    using assms(1) by (auto simp: create_key_command_def split: option.splits prod.splits)
  note found = created_key_found[OF made assms(2-4)]
  have "RequireAuth parse (\<lambda>k. fst (GetAuthKey aes kek k s')) now r = [SetUser (k_user key), CallNext]"
    using signed_accepted[of fmt authID key sent req r "\<lambda>k. fst (GetAuthKey aes kek k s')" parse t now]
      assms(5-9) p found by simp
  then show ?thesis using u found by simp
qed

theorem issued_key_authenticates_witness:
  "\<exists>s' r. RequireAuth (\<lambda>_. Some 0) (\<lambda>k. fst (GetAuthKey (\<lambda>_ b. b) ''kek'' k s')) 100 r = [SetUser 1, CallNext]"
proof -
  let ?cmd = "create_key_command (\<lambda>_. Some 1) (\<lambda>_ b. b) ''kek'' (Some (replicate 32 CHR ''x''))
      (Some (replicate 12 CHR ''n'')) ''key-1'' ''1'' (sample_pg FnReady InvDone)"
  let ?p = "\<lparr>pf_auth_id = ''key-1'', pf_secret_key = hex_encode (replicate 32 CHR ''x''), pf_endpoint = ''e''\<rparr>"
  obtain s' where c: "?cmd = (Inr [''auth_id:    '' @ pf_auth_id ?p, ''secret_key: '' @ pf_secret_key ?p], s')"
      "pg_outcomes s' = []"
    by (simp add: create_key_command_def CreateAuthKey_def encrypt_def db_exec_def sample_pg_def Let_def)
  have tok: "token ''key-1''" by (simp add: token_def plain_char_def)
  obtain r where r: "signingEditor (\<lambda>_. ''d'') (pf_auth_id ?p) (pf_secret_key ?p) 0 sample_request = Some r"
    by (simp add: signingEditor_def sample_request_def Let_def)
  show ?thesis
    using issued_key_authenticates[OF c(1) _ _ c(2) tok r, of "\<lambda>_. Some 0" 0 100]
    by (auto simp: gcm_nonce_size_def max_skew_def sample_request_def isPublic_def has_prefix_def)
qed

section \<open>What the commands print\<close>

text \<open>Every line of the log is shown, in order, those of standard error in red.\<close>

lemma details_show_logs:
  "\<exists>pre. details_lines fmt fmtD v = pre @ map log_text (iv_logs v)"
  by (simp add: details_lines_def)

lemma command_never_sends_unconfigured:
  "ActiveProfile env c = Inl e \<Longrightarrow> validatePath absOf stat arg = Inr path \<Longrightarrow>
   upload_command absOf stat tree (Inr c) env client_ok parse send parseUuid answers arg = Inl (ConfigError e)"
  by (simp add: upload_command_def)

end
