(* ===== verification/DeadLetters.thy ===== *)
theory DeadLetters
  imports QueueRouter
begin

text \<open>
  The handlers of the VM service inside the middlewares \<open>NewVmRouter\<close> puts around them
  (\<open>internal/vm/queue/router.go\<close>): retry and recoverer for the whole router, then the poison queue of
  the handler, the first added being the outermost. The middlewares are a third-party package; what
  it documents of them is stated by the predicates below.
\<close>

type_synonym queue_handler = "string \<Rightarrow> pg \<Rightarrow> service_error option \<times> pg"
type_synonym queue_middleware = "queue_handler \<Rightarrow> queue_handler"

section \<open>Middlewares\<close>

definition with_middlewares :: "queue_middleware list \<Rightarrow> queue_handler \<Rightarrow> queue_handler" where
  "with_middlewares ms h = foldr (\<lambda>m h. m h) ms h"

definition maxRetries :: nat where "maxRetries = 3"

text \<open>Called again after an error, at most \<open>n\<close> times more.\<close>

fun retrying :: "nat \<Rightarrow> queue_middleware" where
  "retrying 0 h p s = h p s"
| "retrying (Suc n) h p s = (case h p s of (None, s') \<Rightarrow> (None, s') | (Some e, s') \<Rightarrow> retrying n h p s')"

definition retry_documented :: "queue_middleware \<Rightarrow> bool" where
  "retry_documented retry \<longleftrightarrow> (\<forall>h p s. retry h p s = retrying maxRetries h p s)"

text \<open>A handler that does not panic is called as it is.\<close>

definition recoverer_documented :: "queue_middleware \<Rightarrow> bool" where
  "recoverer_documented recoverer \<longleftrightarrow> (\<forall>h p s. recoverer h p s = h p s)"

text \<open>
  An error of the handler is published to the poison queue and swallowed when that works; it stays an
  error, of some kind, when it does not.
\<close>

definition poison_documented :: "((string \<Rightarrow> pg \<Rightarrow> 'e option \<times> pg) \<Rightarrow> queue_middleware) \<Rightarrow> bool" where
  "poison_documented poison \<longleftrightarrow> (\<forall>pub h p s.
     case h p s of
       (None, s') \<Rightarrow> poison pub h p s = (None, s')
     | (Some e, s') \<Rightarrow>
         (case pub p s' of
            (None, s'') \<Rightarrow> poison pub h p s = (None, s'')
          | (Some e', s'') \<Rightarrow> \<exists>e''. poison pub h p s = (Some e'', s'')))"

section \<open>The two kinds of handlers\<close>

text \<open>The router looks at the error a handler returns; an early \<open>Ack\<close> is only the flag.\<close>

definition handler_result :: "(string \<Rightarrow> pg \<Rightarrow> service_error option \<times> bool \<times> pg) \<Rightarrow> queue_handler" where
  "handler_result h p s = (case h p s of (e, _, s') \<Rightarrow> (e, s'))"

definition build_chain ::
  "queue_middleware \<Rightarrow> queue_middleware \<Rightarrow> ((string \<Rightarrow> pg \<Rightarrow> 'e option \<times> pg) \<Rightarrow> queue_middleware) \<Rightarrow>
   (string \<Rightarrow> build_message option) \<Rightarrow> (string \<Rightarrow> string list \<Rightarrow> 'e option) \<Rightarrow> vm_config \<Rightarrow>
   (build_message \<Rightarrow> pg \<Rightarrow> service_error option \<times> pg) \<Rightarrow> queue_handler" where
  "build_chain retry recoverer poison dec base cfg service =
     with_middlewares
       [retry, recoverer, poison (\<lambda>p s. status_fail_publish dec base (vc_build_dlq cfg) [p] s)]
       (handler_result (build_handle dec service))"

definition execute_chain ::
  "queue_middleware \<Rightarrow> queue_middleware \<Rightarrow> ((string \<Rightarrow> pg \<Rightarrow> 'e option \<times> pg) \<Rightarrow> queue_middleware) \<Rightarrow>
   (string \<Rightarrow> execute_message option) \<Rightarrow> (string \<Rightarrow> string list \<Rightarrow> 'e option) \<Rightarrow> vm_config \<Rightarrow>
   (execute_message \<Rightarrow> pg \<Rightarrow> service_error option \<times> pg) \<Rightarrow> queue_handler" where
  "execute_chain retry recoverer poison dec base cfg service =
     with_middlewares
       [retry, recoverer, poison (\<lambda>p s. execute_status_fail_publish dec base (vc_execute_dlq cfg) [p] s)]
       (handler_result (execute_handle dec service))"

section \<open>What the contracts give\<close>

lemma chain_cases:
  assumes "retry_documented retry" and "recoverer_documented recoverer" and "poison_documented poison"
  shows "h p s = (None, s') \<Longrightarrow> with_middlewares [retry, recoverer, poison pub] h p s = (None, s')"
    and "h p s = (Some e, s') \<Longrightarrow> pub p s' = (None, s'') \<Longrightarrow>
         with_middlewares [retry, recoverer, poison pub] h p s = (None, s'')"
    and "h p s = (Some e, s') \<Longrightarrow> pub p s' = (Some e', s'') \<Longrightarrow> h p s'' = (None, s3) \<Longrightarrow>
         with_middlewares [retry, recoverer, poison pub] h p s = (None, s3)"
proof -
  have chain: "with_middlewares [retry, recoverer, poison pub] h p s = retrying 3 (recoverer (poison pub h)) p s" for s
    using assms(1) by (simp add: with_middlewares_def retry_documented_def maxRetries_def)
  have rec: "recoverer h p s = h p s" for h s
    using assms(2) by (simp add: recoverer_documented_def)
  have poison: "case h p s of
       (None, s') \<Rightarrow> poison pub h p s = (None, s')
     | (Some e, s') \<Rightarrow>
         (case pub p s' of
            (None, s'') \<Rightarrow> poison pub h p s = (None, s'')
          | (Some e', s'') \<Rightarrow> \<exists>e''. poison pub h p s = (Some e'', s''))" for s
    using assms(3)[unfolded poison_documented_def, THEN spec, THEN spec, THEN spec, THEN spec, of pub h p s] .
  show "h p s = (None, s') \<Longrightarrow> with_middlewares [retry, recoverer, poison pub] h p s = (None, s')"
    using poison[of s] by (simp add: chain rec numeral_3_eq_3)
  show "h p s = (Some e, s') \<Longrightarrow> pub p s' = (None, s'') \<Longrightarrow>
         with_middlewares [retry, recoverer, poison pub] h p s = (None, s'')"
    using poison[of s] by (simp add: chain rec numeral_3_eq_3)
  show "h p s = (Some e, s') \<Longrightarrow> pub p s' = (Some e', s'') \<Longrightarrow> h p s'' = (None, s3) \<Longrightarrow>
         with_middlewares [retry, recoverer, poison pub] h p s = (None, s3)"
    using poison[of s] poison[of s''] by (auto simp: chain rec numeral_3_eq_3)
qed

section \<open>A failing run\<close>

definition executable :: "execute_message \<Rightarrow> bool" where
  "executable m \<longleftrightarrow> validate_object_name (em_code_object m) = None \<and> validate_object_name (em_deps_object m) = None"

lemma execute_handled:
  "decode_payload dec p = Some m \<Longrightarrow> executable m \<Longrightarrow>
   handler_result (execute_handle dec service) p s = service m s"
  by (simp add: handler_result_def execute_handle_def executable_def split_beta)

lemma build_handled:
  "decode_payload dec p = Some m \<Longrightarrow> validate_object_name (bm_code_object m) = None \<Longrightarrow>
   handler_result (build_handle dec service) p s = service m s"
  by (simp add: handler_result_def build_handle_def split_beta)

lemma execution_dead_letter:
  assumes "pg_wf s" and "pg_outcomes s = []" and "decode_payload dec p = Some m"
    and "inv_status_of s (em_invocation m) \<noteq> None"
  obtains s' where "execute_status_fail_publish dec base dlq [p] s = (base dlq [p], s')"
    "inv_status_of s' (em_invocation m) = Some InvFailed" "pg_wf s'" "pg_outcomes s' = []"
proof -
  obtain s' where s': "update_invocation_status (em_invocation m) InvFailed s = (Inr (), s')" "pg_outcomes s' = []"
    using update_inv_up[OF assms(2)] by blast
  have "pg_wf s'" using wf_update_statements(4)[OF assms(1), of "em_invocation m" InvFailed] s'(1) by simp
  moreover have "inv_status_of s' (em_invocation m) = Some InvFailed"
    using inv_update_ok[OF s'(1)] assms(4) by auto
  ultimately show thesis
    using that[of s'] s' assms(3) by (simp add: execute_status_fail_publish_def)
qed


definition sample_poison :: "(string \<Rightarrow> pg \<Rightarrow> nat option \<times> pg) \<Rightarrow> queue_middleware" where
  "sample_poison pub h p s =
     (case h p s of
        (None, s') \<Rightarrow> (None, s')
      | (Some e, s') \<Rightarrow> (case pub p s' of (None, s'') \<Rightarrow> (None, s'') | (Some _, s'') \<Rightarrow> (Some e, s'')))"

lemma sample_middlewares:
  "retry_documented (retrying maxRetries)" "recoverer_documented (\<lambda>h. h)" "poison_documented sample_poison"
  by (auto simp: retry_documented_def recoverer_documented_def poison_documented_def sample_poison_def
      split: prod.splits option.splits)

definition sample_execution :: execute_message where
  "sample_execution = \<lparr>em_invocation = 9, em_code_object = ''a'', em_deps_object = ''d'', em_payload = ''{}''\<rparr>"

lemma sample_execution_ok: "executable sample_execution"
  by (simp add: executable_def sample_execution_def) code_simp


section \<open>A failing build\<close>

lemma build_dead_letter:
  assumes "pg_outcomes s = []" and "decode_payload dec p = Some m" and "fn_status_of s (bm_function m) \<noteq> None"
    and "pg_wf s"
  obtains s' where "status_fail_publish dec base dlq [p] s = (base dlq [p], s')"
    "fn_status_of s' (bm_function m) = Some FnFailed" "pg_wf s'" "pg_outcomes s' = []"
proof -
  obtain s' where s': "update_function_status (bm_function m) FnFailed s = (Inr (), s')" "pg_outcomes s' = []"
    using update_fn_up[OF assms(1)] by blast
  have "pg_wf s'" using wf_update_statements(1)[OF assms(4), of "bm_function m" FnFailed] s'(1) by simp
  moreover have "fn_status_of s' (bm_function m) = Some FnFailed"
    using fn_update_ok[OF s'(1)] assms(3) by auto
  ultimately show thesis
    using that[of s'] s' assms(2) by (simp add: status_fail_publish_def)
qed

lemma failed_build_state:
  assumes "pg_wf s" and "pg_outcomes s = []" and "fn_status_of s (bm_function m) = Some FnVerified"
    and "runner (bm_code_object m) (drive_object_name ustr fresh) (generate_prepare_object_name ustr (bm_function m)) = Some e"
  obtains s1 where
    "prepare ustr fresh runner m s =
       (case e of SystemError t \<Rightarrow> Some (RunFailed (SystemError t)) | UserError \<Rightarrow> None, s1)"
    "fn_status_of s1 (bm_function m) = Some (prepared_status (Some e))" "pg_wf s1" "pg_outcomes s1 = []"
proof
  let ?s1 = "snd (prepare ustr fresh runner m s)"
  show "prepare ustr fresh runner m s =
      (case e of SystemError t \<Rightarrow> Some (RunFailed (SystemError t)) | UserError \<Rightarrow> None, ?s1)"
    "fn_status_of ?s1 (bm_function m) = Some (prepared_status (Some e))"
    using prepare_verified[where runner = runner and res = "Some e", OF assms]
    by (simp_all add: prod_eq_iff split: run_error.splits)
  show "pg_wf ?s1" "pg_outcomes ?s1 = []" using prepare_wf[OF assms(1)] prepare_outcomes[OF assms(2)] by simp_all
qed

text \<open>
  A build that fails ends FAILED after one run as well: \<open>Prepare\<close> puts a function back to VERIFIED after
  an error of the system, for another attempt, but the poison queue inside the retries swallows the
  error and marks the function FAILED, and no other attempt is made.
\<close>

theorem failing_build_not_retried:
  assumes "retry_documented retry" and "recoverer_documented recoverer" and "poison_documented poison"
    and "pg_wf s" and "pg_outcomes s = []"
    and "decode_payload dec p = Some m" and "validate_object_name (bm_code_object m) = None"
    and "fn_status_of s (bm_function m) = Some FnVerified"
    and "runner (bm_code_object m) (drive_object_name ustr fresh) (generate_prepare_object_name ustr (bm_function m)) = Some e"
  shows "\<exists>s'. build_chain retry recoverer poison dec base cfg (prepare ustr fresh runner) p s = (None, s') \<and>
     fn_status_of s' (bm_function m) = Some FnFailed"
proof -
  let ?pub = "\<lambda>p s. status_fail_publish dec base (vc_build_dlq cfg) [p] s"
  note chain = chain_cases[OF assms(1-3), where p = p and pub = ?pub
      and h = "handler_result (build_handle dec (prepare ustr fresh runner))"]
  note h = build_handled[OF assms(6,7), of "prepare ustr fresh runner"]
  obtain s1 where s1: "prepare ustr fresh runner m s =
       (case e of SystemError t \<Rightarrow> Some (RunFailed (SystemError t)) | UserError \<Rightarrow> None, s1)"
    "fn_status_of s1 (bm_function m) = Some (prepared_status (Some e))" "pg_wf s1" "pg_outcomes s1 = []"
    using failed_build_state[where runner = runner, OF assms(4,5,8,9)] .
  show ?thesis
  proof (cases e)
    case UserError
    then show ?thesis using s1 h chain(1)[of s s1] by (simp add: build_chain_def)
  next
    case (SystemError t)
    obtain s2 where s2: "?pub p s1 = (base (vc_build_dlq cfg) [p], s2)"
      "fn_status_of s2 (bm_function m) = Some FnFailed" "pg_wf s2" "pg_outcomes s2 = []"
      using build_dead_letter[OF s1(4) assms(6) _ s1(3)] s1(2) by (metis option.distinct(1))
    obtain s3 where s3: "prepare ustr fresh runner m s2 = (None, s3)" "fn_status_of s3 = fn_status_of s2"
      using prepare_not_verified[OF s2(3,4), of m ustr fresh runner] s2(2)
      by (metis option.inject fn_status.distinct prod.collapse)
    then show ?thesis
      using chain(2)[of s _ s1 s2] chain(3)[of s _ s1 _ s2 s3] h s1(1) s2(1,2) SystemError
      by (cases "base (vc_build_dlq cfg) [p]") (auto simp: build_chain_def)
  qed
qed

theorem failing_build_not_retried_witness:
  "\<exists>s'. build_chain (retrying maxRetries) (\<lambda>h. h) sample_poison (\<lambda>_. Some \<lparr>bm_function = 7, bm_code_object = ''a''\<rparr>) (\<lambda>_ _. None)
      (vm_Load (\<lambda>_. [])) (prepare (\<lambda>_. ''id'') 3 (\<lambda>_ _ _. Some (SystemError ''mkfs''))) ''msg''
      (sample_pg FnVerified InvPending) = (None, s') \<and>
     fn_status_of s' 7 = Some FnFailed"
proof -
  let ?m = "\<lparr>bm_function = 7, bm_code_object = ''a''\<rparr> :: build_message"
  have "decode_payload (\<lambda>_. Some ?m) ''msg'' = Some ?m"
    by (simp add: decode_payload_def maxPayloadBytes_def)
  moreover have "fn_status_of (sample_pg FnVerified InvPending) (bm_function ?m) = Some FnVerified"
    by (simp add: sample_pg_facts)
  moreover have "validate_object_name (bm_code_object ?m) = None" by code_simp
  ultimately show ?thesis
    using failing_build_not_retried[OF sample_middlewares sample_pg_facts(1,2), where m = ?m
        and dec = "\<lambda>_. Some ?m" and p = "''msg''" and runner = "\<lambda>_ _ _. Some (SystemError ''mkfs'')"
        and e = "SystemError ''mkfs''", OF _ _ _ refl]
    by simp
qed

end
