(* ===== verification/Publishers.thy ===== *)
theory Publishers
  imports QueueRouter Events
begin

text \<open>
  The publishers of work: \<open>internal/analyzer/vmpublish/publish.go\<close>,
  \<open>internal/server/vmexecutepublisher/publish.go\<close> and \<open>StartPublisher\<close> of
  \<open>internal/server/analyzerpublisher/publisher.go\<close>. Each opens a connection to the broker for one
  message. The steps are recorded with \<open>ok\<close> for their success; \<open>marshal\<close> is \<open>encoding/json\<close>.
\<close>

datatype publish_op = OpenPublisher publisher | PublishBody string string | CloseConnection

definition publish_json ::
  "(publish_op \<Rightarrow> bool) \<Rightarrow> ('m \<Rightarrow> string option) \<Rightarrow> string \<Rightarrow> 'm \<Rightarrow> unit option \<times> publish_op list" where
  "publish_json ok marshal topic payload =
     (case marshal payload of
        None \<Rightarrow> (None, [])
      | Some body \<Rightarrow> step ok (PublishBody topic body) [] (Some (), []))"

definition vmpublish_Publish ::
  "(publish_op \<Rightarrow> bool) \<Rightarrow> (build_message \<Rightarrow> string option) \<Rightarrow> getenv \<Rightarrow> uuid \<Rightarrow> string \<Rightarrow> unit option \<times> publish_op list" where
  "vmpublish_Publish ok marshal env functionId objectName =
     step ok (OpenPublisher (PublisherConfig (vm_Load env))) [] (deferred CloseConnection (
       publish_json ok marshal ''build'' \<lparr>bm_function = functionId, bm_code_object = objectName\<rparr>))"

definition vmexecute_Publish ::
  "(publish_op \<Rightarrow> bool) \<Rightarrow> (execute_message \<Rightarrow> string option) \<Rightarrow> getenv \<Rightarrow> uuid \<Rightarrow> string \<Rightarrow> string \<Rightarrow> string \<Rightarrow>
   unit option \<times> publish_op list" where
  "vmexecute_Publish ok marshal env invocationId objectName dependencyName payload =
     step ok (OpenPublisher (PublisherConfig (vm_Load env))) [] (deferred CloseConnection (
       publish_json ok marshal ''execute''
         \<lparr>em_invocation = invocationId, em_code_object = objectName, em_deps_object = dependencyName, em_payload = payload\<rparr>))"

definition StartPublisher ::
  "(publish_op \<Rightarrow> bool) \<Rightarrow> (function_message \<Rightarrow> string option) \<Rightarrow> function_message \<Rightarrow> unit option \<times> publish_op list" where
  "StartPublisher ok marshal funcMessage =
     step ok (OpenPublisher analyzer_publisher) [] (publish_json ok marshal ''some_topic'' funcMessage)"

section \<open>Connections\<close>

fun connections :: "(publish_op \<Rightarrow> bool) \<Rightarrow> publish_op list \<Rightarrow> nat \<Rightarrow> nat" where
  "connections ok [] n = n"
| "connections ok (OpenPublisher p # tr) n = connections ok tr (if ok (OpenPublisher p) then Suc n else n)"
| "connections ok (CloseConnection # tr) n = connections ok tr (n - 1)"
| "connections ok (PublishBody t b # tr) n = connections ok tr n"

lemma connections_append: "connections ok (tr @ tr') n = connections ok tr' (connections ok tr n)"
  by (induction ok tr n rule: connections.induct) simp_all

lemma publish_json_connections: "connections ok (snd (publish_json ok marshal t m)) n = n"
  by (auto simp: publish_json_def step_def split: option.splits)

text \<open>
  Whether or not they succeed, the publishers of builds and of executions leave as many broker
  connections open as they found; the publisher of uploads leaves one more open each time, for as long
  as the server runs.
\<close>

theorem publishers_connections:
  "connections ok (snd (vmpublish_Publish ok mb env k obj)) n = n \<and>
   connections ok (snd (vmexecute_Publish ok me env k obj dep payload)) n = n \<and>
   connections ok (snd (StartPublisher ok mf m)) n = (if ok (OpenPublisher analyzer_publisher) then Suc n else n)"
  by (simp add: vmpublish_Publish_def vmexecute_Publish_def StartPublisher_def step_def deferred_def
      connections_append publish_json_connections)

lemma uploads_leak:
  assumes "ok (OpenPublisher analyzer_publisher)"
  shows "fold (\<lambda>m n. connections ok (snd (StartPublisher ok mf m)) n) ms 0 = length ms"
proof -
  have "fold (\<lambda>m n. connections ok (snd (StartPublisher ok mf m)) n) ms n = n + length ms" for n
    using assms by (induction ms arbitrary: n)
      (simp_all add: StartPublisher_def step_def publish_json_connections)
  then show ?thesis by simp
qed

section \<open>From the publisher to the handler\<close>

definition delivered :: "(publish_op \<Rightarrow> bool) \<Rightarrow> publisher \<Rightarrow> consumer \<Rightarrow> publish_op list \<Rightarrow> string list" where
  "delivered ok p c tr = concat (map (\<lambda>op. case op of
       PublishBody topic body \<Rightarrow> if ok op \<and> routed p topic c then [body] else [] | _ \<Rightarrow> []) tr)"

lemma delivered_simps [simp]:
  "delivered ok p c [] = []" "delivered ok p c (tr @ tr') = delivered ok p c tr @ delivered ok p c tr'"
  "delivered ok p c (OpenPublisher q # tr) = delivered ok p c tr"
  "delivered ok p c (CloseConnection # tr) = delivered ok p c tr"
  "delivered ok p c (PublishBody topic body # tr) =
     (if ok (PublishBody topic body) \<and> routed p topic c then body # delivered ok p c tr else delivered ok p c tr)"
  by (simp_all add: delivered_def)

text \<open>
  A build that was published without an error reaches the build workers of a VM service started from
  the same environment with the default queue name, exactly once and only them, and the handler
  decodes from it the function and the archive that were published.
\<close>

theorem published_build_is_handled:
  assumes "fst (vmpublish_Publish ok marshal env k obj) = Some ()"
    and "vc_build_queue (vm_Load env) = ''build''" and "vc_execute_queue (vm_Load env) \<noteq> ''build''"
    and "\<And>m body. marshal m = Some body \<Longrightarrow> dec body = Some m"
    and "\<And>body. marshal \<lparr>bm_function = k, bm_code_object = obj\<rparr> = Some body \<Longrightarrow> length body \<le> maxPayloadBytes"
  shows "\<exists>body. delivered ok (PublisherConfig (vm_Load env)) (PrepareEnvConsumerConfig (vm_Load env))
             (snd (vmpublish_Publish ok marshal env k obj)) = [body] \<and>
           delivered ok (PublisherConfig (vm_Load env)) (ExecuteConsumerConfig (vm_Load env))
             (snd (vmpublish_Publish ok marshal env k obj)) = [] \<and>
           decode_payload dec body = Some \<lparr>bm_function = k, bm_code_object = obj\<rparr>"
proof -
  obtain body where body: "marshal \<lparr>bm_function = k, bm_code_object = obj\<rparr> = Some body"
    "ok (OpenPublisher (PublisherConfig (vm_Load env)))" "ok (PublishBody ''build'' body)"
    using assms(1) by (auto simp: vmpublish_Publish_def publish_json_def step_def deferred_def split: option.splits if_splits)
  have "routed (PublisherConfig (vm_Load env)) ''build'' (PrepareEnvConsumerConfig (vm_Load env))"
    "\<not> routed (PublisherConfig (vm_Load env)) ''build'' (ExecuteConsumerConfig (vm_Load env))"
    using assms(2,3) by (auto simp: routed_def PublisherConfig_def PrepareEnvConsumerConfig_def ExecuteConsumerConfig_def)
  then show ?thesis
    using body assms(4,5)[OF body(1)]
    by (auto simp: vmpublish_Publish_def publish_json_def step_eval decode_payload_def)
qed

definition sample_marshal :: "build_message \<Rightarrow> string option" where
  "sample_marshal m = (if m = \<lparr>bm_function = 7, bm_code_object = ''a.tar.gz''\<rparr> then Some ''a.tar.gz'' else None)"

definition sample_decode :: "string \<Rightarrow> build_message option" where
  "sample_decode b = Some \<lparr>bm_function = 7, bm_code_object = b\<rparr>"

theorem published_build_is_handled_witness:
  "\<exists>body. decode_payload sample_decode body = Some \<lparr>bm_function = 7, bm_code_object = ''a.tar.gz''\<rparr>"
proof -
  have "fst (vmpublish_Publish (\<lambda>_. True) sample_marshal (\<lambda>_. []) 7 ''a.tar.gz'') = Some ()"
    by (simp add: vmpublish_Publish_def publish_json_def step_eval sample_marshal_def)
  moreover have "vc_build_queue (vm_Load (\<lambda>_. [])) = ''build''" "vc_execute_queue (vm_Load (\<lambda>_. [])) \<noteq> ''build''"
    by (simp_all add: vm_Load_def vm_env.lookup_eq)
  moreover have "sample_marshal m = Some body \<Longrightarrow> sample_decode body = Some m" for m body
    by (auto simp: sample_marshal_def sample_decode_def split: if_splits)
  moreover have "sample_marshal m = Some body \<Longrightarrow> length body \<le> maxPayloadBytes" for m body
    by (auto simp: sample_marshal_def maxPayloadBytes_def split: if_splits)
  ultimately show ?thesis
    using published_build_is_handled[of "\<lambda>_. True" sample_marshal "\<lambda>_. []" 7 "''a.tar.gz''" sample_decode]
    by blast
qed

text \<open>The same for executions.\<close>

lemma published_execution_is_handled:
  assumes "fst (vmexecute_Publish ok marshal env k obj dep payload) = Some ()"
    and "vc_execute_queue (vm_Load env) = ''execute''"
    and "\<And>m body. marshal m = Some body \<Longrightarrow> dec body = Some m"
  shows "\<exists>body. delivered ok (PublisherConfig (vm_Load env)) (ExecuteConsumerConfig (vm_Load env))
             (snd (vmexecute_Publish ok marshal env k obj dep payload)) = [body] \<and>
           (length body \<le> maxPayloadBytes \<longrightarrow> decode_payload dec body = Some \<lparr>em_invocation = k, em_code_object = obj,
              em_deps_object = dep, em_payload = payload\<rparr>) \<and>
           (length body > maxPayloadBytes \<longrightarrow> decode_payload dec body = None)"
proof -
  let ?m = "\<lparr>em_invocation = k, em_code_object = obj, em_deps_object = dep, em_payload = payload\<rparr>"
  obtain body where body: "marshal ?m = Some body"
    "ok (OpenPublisher (PublisherConfig (vm_Load env)))" "ok (PublishBody ''execute'' body)"
    using assms(1) by (auto simp: vmexecute_Publish_def publish_json_def step_def deferred_def split: option.splits if_splits)
  have "routed (PublisherConfig (vm_Load env)) ''execute'' (ExecuteConsumerConfig (vm_Load env))"
    using assms(2) by (auto simp: routed_def PublisherConfig_def ExecuteConsumerConfig_def)
  then show ?thesis
    using body assms(3)[OF body(1)]
    by (auto simp: vmexecute_Publish_def publish_json_def step_eval decode_payload_def)
qed

end
