(* ===== verification/Sandbox.thy ===== *)
theory Sandbox
  imports Orchestrator VmDrives
begin

text \<open>
  The detonation box of the analyzer: \<open>internal/analyzer/dast/visor.go\<close> and the log directory helpers
  of \<open>helpers.go\<close>. The Docker client and the file system are the environment: their answers are the
  fields of a record, and the calls made are the trace of the result.
\<close>

section \<open>The container\<close>

record container_config =
  cc_image :: string
  cc_user :: string
  cc_cmd :: "string list"
  cc_env :: "string list"
  cc_working_dir :: string
  cc_network_disabled :: bool

record host_config =
  hc_runtime :: string
  hc_auto_remove :: bool
  hc_binds :: "string list"
  hc_memory :: int
  hc_cpu_quota :: int
  hc_cpu_period :: int
  hc_pids_limit :: int
  hc_cap_drop :: "string list"
  hc_security_opt :: "string list"
  hc_readonly_rootfs :: bool
  hc_tmpfs :: "(string \<times> string) list"

definition text_lines :: "string list \<Rightarrow> string" where
  "text_lines ls = concat (map (\<lambda>l. CHR 0x0A # l) ls)"

definition indented :: "nat \<Rightarrow> string \<Rightarrow> string" where
  "indented n s = replicate n (CHR '' '') @ s"

definition sandbox_script :: string where
  "sandbox_script = text_lines
     [indented 12 ''if [ -f /sample/requirements.txt ]; then'',
      indented 16 ''pip install -q --no-user --target=/tmp/pypackages -r /sample/requirements.txt'',
      indented 12 ''fi'',
      indented 12 (''python -c '' @ CHR 0x22 # ''import sys; sys.path.insert(0, '' @ CHR 0x27 # ''/tmp/pypackages'' @ CHR 0x27 #
        ''); sys.path.insert(0, '' @ CHR 0x27 # ''/sample'' @ CHR 0x27 # ''); import handler; handler.handle('' @
        [CHR 0x27, CHR 0x27, CHR '')'', CHR 0x22]),
      indented 8 []]"

definition createContainerConfig :: container_config where
  "createContainerConfig =
     \<lparr>cc_image = ''python:3.11-alpine'', cc_user = ''nobody'', cc_cmd = [''sh'', ''-c'', sandbox_script],
      cc_env = [''PYTHONUNBUFFERED=1'', ''PYTHONPATH=/tmp/pypackages:/sample'', ''PIP_CACHE_DIR=/tmp/pip-cache'', ''HOME=/tmp''],
      cc_working_dir = ''/sample'', cc_network_disabled = False\<rparr>"

definition createHostConfig :: "string \<Rightarrow> host_config" where
  "createHostConfig dirPath =
     \<lparr>hc_runtime = ''runsc'', hc_auto_remove = False, hc_binds = [dirPath @ '':/sample:ro''],
      hc_memory = 256 * 1024 * 1024, hc_cpu_quota = 50000, hc_cpu_period = 100000, hc_pids_limit = 64,
      hc_cap_drop = [''ALL''], hc_security_opt = [''no-new-privileges''], hc_readonly_rootfs = True,
      hc_tmpfs = [(''/tmp'', ''rw,noexec,nosuid,size=256m,uid=65534,gid=65534'')]\<rparr>"

section \<open>The boot log\<close>

definition runscLogDir :: string where
  "runscLogDir = ''/tmp/runsc-logs''"

text \<open>A listing of the log directory: the text of an error, or the names in it.\<close>

type_synonym listing = "string + string list"

definition snapshotLogFiles :: "listing \<Rightarrow> string + string set" where
  "snapshotLogFiles l = map_sum id set l"

fun new_boot_log :: "string set \<Rightarrow> string list \<Rightarrow> string option" where
  "new_boot_log before [] = None"
| "new_boot_log before (name # names) =
     (if name \<in> before then new_boot_log before names
      else if has_suffix name ''.boot.txt'' then Some (path_join runscLogDir name)
      else new_boot_log before names)"

text \<open>The listings are those the loop gets to see before its deadline, 50 ms apart.\<close>

fun findNewBootLog :: "string set \<Rightarrow> listing list \<Rightarrow> string + string" where
  "findNewBootLog before [] = Inl (''timed out waiting for new boot log in '' @ runscLogDir)"
| "findNewBootLog before (Inl e # ls) = Inl e"
| "findNewBootLog before (Inr names # ls) =
     (case new_boot_log before names of
        Some path \<Rightarrow> Inr path
      | None \<Rightarrow> findNewBootLog before ls)"

section \<open>Detonate\<close>

text \<open>What the wait reports: an error, the error channel closed without one, or the container's end.\<close>

datatype wait_result = WaitError string | WaitClosed | ContainerExited

record docker_env =
  de_snapshot :: listing
  de_create :: "container_config \<Rightarrow> host_config \<Rightarrow> string + string"
  de_start :: "string option"
  de_listings :: "listing list"
  de_wait :: wait_result
  de_logs :: "string + (string + string \<times> string)"
  de_read :: "string \<Rightarrow> string + string"

text \<open>\<open>de_logs\<close>: fetching the logs fails, or copying them does, or they are the two output streams.\<close>

datatype docker_op =
    ContainerCreate container_config host_config | ContainerRemove string | ContainerStart string
  | ContainerWait string | ContainerLogs string | CloseContainerLogs | ReadBootLog string

definition raw_strace :: "(string \<Rightarrow> string + string) \<Rightarrow> string + string \<Rightarrow> string" where
  "raw_strace readFile bootLog =
     (case bootLog of
        Inl bootErr \<Rightarrow> ''(strace unavailable: '' @ bootErr @ '')''
      | Inr bootLogPath \<Rightarrow>
          (case readFile bootLogPath of
             Inl err \<Rightarrow> ''(could not read boot log: '' @ err @ '')''
           | Inr data \<Rightarrow> data))"

definition boot_reads :: "string + string \<Rightarrow> docker_op list" where
  "boot_reads bootLog = (case bootLog of Inl _ \<Rightarrow> [] | Inr path \<Rightarrow> [ReadBootLog path])"

text \<open>The container is running: the part of \<open>Detonate\<close> below \<open>ContainerStart\<close>.\<close>

definition observe :: "docker_env \<Rightarrow> string set \<Rightarrow> string \<Rightarrow> (string + execution_result \<times> string) \<times> docker_op list" where
  "observe E before cid =
     (let bootLog = findNewBootLog before (de_listings E) in
      case de_wait E of
        WaitError e \<Rightarrow> (Inl e, [ContainerWait cid])
      | _ \<Rightarrow>
          (case de_logs E of
             Inl e \<Rightarrow> (Inl e, [ContainerWait cid, ContainerLogs cid])
           | Inr (Inl e) \<Rightarrow> (Inl e, [ContainerWait cid, ContainerLogs cid, CloseContainerLogs])
           | Inr (Inr (out, err)) \<Rightarrow>
               let rawStrace = raw_strace (de_read E) bootLog in
               (Inr (\<lparr>er_stdout = out, er_stderr = err, er_behavior = parseBehaviorReport rawStrace\<rparr>, rawStrace),
                [ContainerWait cid, ContainerLogs cid] @ boot_reads bootLog @ [CloseContainerLogs])))"

definition Detonate :: "docker_env \<Rightarrow> string \<Rightarrow> (string + execution_result \<times> string) \<times> docker_op list" where
  "Detonate E dirPath =
     (let before = (case snapshotLogFiles (de_snapshot E) of Inl _ \<Rightarrow> {} | Inr snap \<Rightarrow> snap);
          config = createContainerConfig;
          hostConfig = createHostConfig dirPath in
      case de_create E config hostConfig of
        Inl e \<Rightarrow> (Inl e, [ContainerCreate config hostConfig])
      | Inr cid \<Rightarrow>
          (case de_start E of
             Some e \<Rightarrow> (Inl e, [ContainerCreate config hostConfig, ContainerStart cid, ContainerRemove cid])
           | None \<Rightarrow>
               (case observe E before cid of
                  (r, tr) \<Rightarrow> (r, [ContainerCreate config hostConfig, ContainerStart cid] @ tr @ [ContainerRemove cid]))))"

text \<open>\<open>WriteJSONReport\<close>: the raw trace is not part of the file. \<open>Some\<close> is the error.\<close>

datatype report_op = ReportMkdirAll string | CreateReport string | EncodeReport string string | CloseReport

definition WriteJSONReport ::
  "(report_op \<Rightarrow> bool) \<Rightarrow> (execution_result \<Rightarrow> string) \<Rightarrow> execution_result \<times> string \<Rightarrow> string \<Rightarrow> unit option \<times> report_op list" where
  "WriteJSONReport ok enc result outputPath =
     step ok (ReportMkdirAll (path_dir outputPath)) [] (
     step ok (CreateReport outputPath) [] (deferred CloseReport (
     step ok (EncodeReport outputPath (enc (fst result))) [] (Some (), []))))"

section \<open>The container is removed\<close>

text \<open>What a trace does to the set of containers that exist; a removal that fails leaves its container.\<close>

fun containers :: "docker_env \<Rightarrow> (string \<Rightarrow> bool) \<Rightarrow> docker_op list \<Rightarrow> string set \<Rightarrow> string set" where
  "containers E removable [] S = S"
| "containers E removable (ContainerCreate c h # tr) S =
     containers E removable tr (case de_create E c h of Inl _ \<Rightarrow> S | Inr cid \<Rightarrow> insert cid S)"
| "containers E removable (ContainerRemove cid # tr) S =
     containers E removable tr (if removable cid then S - {cid} else S)"
| "containers E removable (_ # tr) S = containers E removable tr S"

lemma containers_append: "containers E rm (tr @ tr') S = containers E rm tr' (containers E rm tr S)"
  by (induction E rm tr S rule: containers.induct) simp_all

lemma observe_containers: "containers E rm (snd (observe E before cid)) S = S"
  by (auto simp: observe_def Let_def boot_reads_def split: wait_result.splits sum.splits)


definition sample_docker :: docker_env where
  "sample_docker = \<lparr>de_snapshot = Inr [''old.boot.txt''], de_create = (\<lambda>_ _. Inr ''c1''), de_start = None,
     de_listings = [Inr [''old.boot.txt''], Inr [''new.boot.txt'', ''old.boot.txt'']], de_wait = WaitError ''deadline'',
     de_logs = Inr (Inr (''out'', ''err'')), de_read = (\<lambda>_. Inr [])\<rparr>"


section \<open>What a detonation reports\<close>

lemma observe_result:
  "fst (observe E before cid) = Inr (r, raw) \<longleftrightarrow>
     (\<forall>e. de_wait E \<noteq> WaitError e) \<and> de_logs E = Inr (Inr (er_stdout r, er_stderr r)) \<and>
     raw = raw_strace (de_read E) (findNewBootLog before (de_listings E)) \<and> er_behavior r = parseBehaviorReport raw"
  by (cases r) (auto simp: observe_def Let_def split: wait_result.splits sum.splits)

text \<open>
  A detonation has a result exactly when the container was created, started and ended before the
  time limit and its output could be read; the result is its two output streams and the report
  parsed from the boot log, or from an error text when there is no boot log: a run that could not be
  observed is no error.
\<close>

theorem detonation_result_iff:
  "fst (Detonate E dir) = Inr (r, raw) \<longleftrightarrow>
     (\<exists>cid. de_create E createContainerConfig (createHostConfig dir) = Inr cid) \<and> de_start E = None \<and>
     (\<forall>e. de_wait E \<noteq> WaitError e) \<and> de_logs E = Inr (Inr (er_stdout r, er_stderr r)) \<and>
     raw = raw_strace (de_read E)
       (findNewBootLog (case de_snapshot E of Inl _ \<Rightarrow> {} | Inr names \<Rightarrow> set names) (de_listings E)) \<and>
     er_behavior r = parseBehaviorReport raw"
proof -
  have "(case snapshotLogFiles l of Inl _ \<Rightarrow> {} | Inr snap \<Rightarrow> snap) =
      (case l of Inl _ \<Rightarrow> {} | Inr names \<Rightarrow> set names)" for l
    by (cases l) (simp_all add: snapshotLogFiles_def)
  then show ?thesis
    by (auto simp: Detonate_def Let_def split_beta observe_result split: sum.splits option.splits)
qed

lemma new_boot_log_sound:
  "new_boot_log before names = Some p \<Longrightarrow>
   \<exists>name\<in>set names. name \<notin> before \<and> has_suffix name ''.boot.txt'' \<and> p = path_join runscLogDir name"
  by (induction names) (auto split: if_splits)

lemma new_boot_log_none:
  "new_boot_log before names = None \<longleftrightarrow> list_all (\<lambda>name. name \<in> before \<or> \<not> has_suffix name ''.boot.txt'') names"
  by (induction names) auto

text \<open>The log that is read is one that appeared after the snapshot.\<close>

lemma boot_log_is_new:
  "findNewBootLog before ls = Inr p \<Longrightarrow>
   \<exists>names name. Inr names \<in> set ls \<and> name \<in> set names \<and> name \<notin> before \<and>
     has_suffix name ''.boot.txt'' \<and> p = path_join runscLogDir name"
proof (induction before ls rule: findNewBootLog.induct)
  case (3 before names ls)
  show ?case
  proof (cases "new_boot_log before names")
    case None
    then show ?thesis using 3 by auto
  next
    case (Some q)
    then show ?thesis using 3 new_boot_log_sound[OF Some] by auto
  qed
qed auto

lemma no_boot_log_times_out:
  "list_all (\<lambda>l. \<exists>names. l = Inr names \<and> list_all (\<lambda>name. name \<in> before \<or> \<not> has_suffix name ''.boot.txt'') names) ls \<Longrightarrow>
   findNewBootLog before ls = Inl (''timed out waiting for new boot log in '' @ runscLogDir)"
proof (induction before ls rule: findNewBootLog.induct)
  case (3 before names ls)
  then have "new_boot_log before names = None" by (simp add: new_boot_log_none)
  with 3 show ?case by simp
qed auto

lemma timed_out_report:
  "parseBehaviorReport (raw_strace f (Inl (''timed out waiting for new boot log in '' @ runscLogDir))) = empty_report"
  by code_simp

section \<open>The judge of an unobserved run\<close>

definition box_detonate :: "(string \<Rightarrow> docker_env) \<Rightarrow> string \<Rightarrow> execution_result option" where
  "box_detonate env dir = (case fst (Detonate (env dir) dir) of Inl _ \<Rightarrow> None | Inr (r, _) \<Rightarrow> Some r)"

definition unseen :: "docker_env \<Rightarrow> bool" where
  "unseen E \<longleftrightarrow> list_all (\<lambda>l. \<exists>names. l = Inr names \<and> list_all (\<lambda>name.
       name \<in> (case de_snapshot E of Inl _ \<Rightarrow> {} | Inr old \<Rightarrow> set old) \<or> \<not> has_suffix name ''.boot.txt'') names) (de_listings E)"

text \<open>
  A run whose boot log does not show up within the five seconds is not an error: the pipeline goes on
  with a report that names no file, no connection and no process, whatever the code did, and leaves
  the verdict to the judge.
\<close>

theorem unobserved_run_reports_nothing:
  assumes "unseen (env dir)"
    and "de_create (env dir) createContainerConfig (createHostConfig dir) = Inr cid" and "de_start (env dir) = None"
    and "\<forall>e. de_wait (env dir) \<noteq> WaitError e" and "de_logs (env dir) = Inr (Inr (out, err))"
  shows "box_detonate env dir = Some \<lparr>er_stdout = out, er_stderr = err, er_behavior = empty_report\<rparr>"
proof -
  have "findNewBootLog (case de_snapshot (env dir) of Inl _ \<Rightarrow> {} | Inr names \<Rightarrow> set names) (de_listings (env dir)) =
      Inl (''timed out waiting for new boot log in '' @ runscLogDir)"
    using assms(1) unfolding unseen_def by (rule no_boot_log_times_out)
  then have "fst (Detonate (env dir) dir) =
      Inr (\<lparr>er_stdout = out, er_stderr = err, er_behavior = empty_report\<rparr>,
        raw_strace (de_read (env dir)) (Inl (''timed out waiting for new boot log in '' @ runscLogDir)))"
    using assms(2-5) timed_out_report[of "de_read (env dir)"] by (simp add: detonation_result_iff)
  then show ?thesis by (simp add: box_detonate_def)
qed

definition sample_unseen :: docker_env where
  "sample_unseen = sample_docker\<lparr>de_listings := [Inr [''old.boot.txt''], Inr [''old.boot.txt'', ''runsc.log'']], de_wait := ContainerExited\<rparr>"

theorem unobserved_run_reports_nothing_witness:
  "box_detonate (\<lambda>_. sample_unseen) ''/d'' = Some \<lparr>er_stdout = ''out'', er_stderr = ''err'', er_behavior = empty_report\<rparr>"
  by (rule unobserved_run_reports_nothing)
     (simp_all add: unseen_def sample_unseen_def sample_docker_def has_suffix_def suffix_def)

section \<open>The report file\<close>

lemma report_closed:
  assumes "ok (ReportMkdirAll (path_dir p))" and "ok (CreateReport p)"
  shows "last (snd (WriteJSONReport ok enc x p)) = CloseReport"
    and "fst (WriteJSONReport ok enc x p) = None \<longleftrightarrow> \<not> ok (EncodeReport p (enc (fst x)))"
  using assms by (cases "ok (EncodeReport p (enc (fst x)))"; simp add: WriteJSONReport_def step_eval)+

lemma report_not_created:
  assumes "\<not> ok (CreateReport p) \<or> \<not> ok (ReportMkdirAll (path_dir p))"
  shows "fst (WriteJSONReport ok enc x p) = None \<and> CloseReport \<notin> set (snd (WriteJSONReport ok enc x p))"
  using assms by (cases "ok (ReportMkdirAll (path_dir p))") (simp_all add: WriteJSONReport_def step_eval)

end
