(* ===== verification/Buckets.thy ===== *)
theory Buckets
  imports GoStrings
begin

text \<open>
  \<open>internal/server/filestore\<close>: the registry of the object store's buckets and their initialisation
  when the server starts. The object store is a map from bucket names to what the server sets on
  a bucket; \<open>ans\<close> gives the error code of a call, \<open>None\<close> when it succeeds.
\<close>

section \<open>bucket.go\<close>

record bucket_config =
  bc_name :: string
  bc_public :: bool
  bc_retention :: "int option"

definition QuarantineBucket :: string where "QuarantineBucket = ''quarantine''"
definition FunctionsBucket :: string where "FunctionsBucket = ''functions''"
definition DrivesBucket :: string where "DrivesBucket = ''drives''"
definition LogsBucket :: string where "LogsBucket = ''logs''"

lemmas bucket_keys = QuarantineBucket_def FunctionsBucket_def DrivesBucket_def LogsBucket_def

definition NewBucketRegistry :: "string \<Rightarrow> bucket_config option" where
  "NewBucketRegistry =
     [QuarantineBucket \<mapsto> \<lparr>bc_name = ''oblak-quarantine'', bc_public = False, bc_retention = None\<rparr>,
      FunctionsBucket \<mapsto> \<lparr>bc_name = ''oblak-functions'', bc_public = False, bc_retention = None\<rparr>,
      DrivesBucket \<mapsto> \<lparr>bc_name = ''oblak-drives'', bc_public = False, bc_retention = None\<rparr>,
      LogsBucket \<mapsto> \<lparr>bc_name = ''oblak-logs'', bc_public = False, bc_retention = Some 30\<rparr>]"

text \<open>A missing key reads as the zero value.\<close>

definition registry_name :: "(string \<Rightarrow> bucket_config option) \<Rightarrow> string \<Rightarrow> string" where
  "registry_name r b = (case r b of None \<Rightarrow> [] | Some c \<Rightarrow> bc_name c)"

definition registry_public :: "(string \<Rightarrow> bucket_config option) \<Rightarrow> string \<Rightarrow> bool" where
  "registry_public r b = (case r b of None \<Rightarrow> False | Some c \<Rightarrow> bc_public c)"

definition registry_retention :: "(string \<Rightarrow> bucket_config option) \<Rightarrow> string \<Rightarrow> int option" where
  "registry_retention r b = (case r b of None \<Rightarrow> None | Some c \<Rightarrow> bc_retention c)"

lemmas registry_defs = registry_name_def registry_public_def registry_retention_def

section \<open>initializer.go\<close>

record bucket_state =
  bk_policy :: string
  bk_expiry :: "int option"

type_synonym object_store = "string \<Rightarrow> bucket_state option"

datatype store_call =
    BucketExists string | MakeBucket string
  | SetBucketPolicy string string | SetBucketLifecycle string "int option"

text \<open>\<open>policy\<close> is the JSON text that grants everybody read access to a bucket.\<close>

definition setPublicReadPolicy ::
  "(store_call \<Rightarrow> string option) \<Rightarrow> (string \<Rightarrow> string) \<Rightarrow> string \<Rightarrow> object_store \<Rightarrow> string option \<times> object_store" where
  "setPublicReadPolicy ans policy bucketName s =
     (case ans (SetBucketPolicy bucketName (policy bucketName)) of
        Some e \<Rightarrow> (Some e, s)
      | None \<Rightarrow> (None, s(bucketName := map_option (\<lambda>b. b\<lparr>bk_policy := policy bucketName\<rparr>) (s bucketName))))"

definition deletePublicReadPolicy ::
  "(store_call \<Rightarrow> string option) \<Rightarrow> string \<Rightarrow> object_store \<Rightarrow> string option \<times> object_store" where
  "deletePublicReadPolicy ans bucketName s =
     (case ans (SetBucketPolicy bucketName []) of
        Some e \<Rightarrow> (Some e, s)
      | None \<Rightarrow> (None, s(bucketName := map_option (\<lambda>b. b\<lparr>bk_policy := []\<rparr>) (s bucketName))))"

definition setExpirationPolicy ::
  "(store_call \<Rightarrow> string option) \<Rightarrow> string \<Rightarrow> int \<Rightarrow> object_store \<Rightarrow> string option \<times> object_store" where
  "setExpirationPolicy ans bucketName days s =
     (case ans (SetBucketLifecycle bucketName (Some days)) of
        Some e \<Rightarrow> (Some e, s)
      | None \<Rightarrow> (None, s(bucketName := map_option (\<lambda>b. b\<lparr>bk_expiry := Some days\<rparr>) (s bucketName))))"

definition deleteExpirationPolicy ::
  "(store_call \<Rightarrow> string option) \<Rightarrow> string \<Rightarrow> object_store \<Rightarrow> string option \<times> object_store" where
  "deleteExpirationPolicy ans bucketName s =
     (case ans (SetBucketLifecycle bucketName None) of
        Some e \<Rightarrow> (if e = ''NoSuchLifecycleConfiguration'' then None else Some e, s)
      | None \<Rightarrow> (None, s(bucketName := map_option (\<lambda>b. b\<lparr>bk_expiry := None\<rparr>) (s bucketName))))"

datatype init_error = CheckFailed string | CreateFailed string | PolicyFailed string | ExpiryFailed string

definition init_bucket ::
  "(store_call \<Rightarrow> string option) \<Rightarrow> (string \<Rightarrow> string) \<Rightarrow> (string \<Rightarrow> bucket_config option) \<Rightarrow> string \<Rightarrow>
   object_store \<Rightarrow> init_error option \<times> object_store" where
  "init_bucket ans policy registry bucketType s =
     (let bucketName = registry_name registry bucketType in
      if ans (BucketExists bucketName) \<noteq> None then (Some (CheckFailed bucketName), s)
      else if s bucketName = None \<and> ans (MakeBucket bucketName) \<noteq> None then (Some (CreateFailed bucketName), s)
      else
        let s1 = (if s bucketName = None then s(bucketName \<mapsto> \<lparr>bk_policy = [], bk_expiry = None\<rparr>) else s);
            (err, s2) = (if registry_public registry bucketType
                         then setPublicReadPolicy ans policy bucketName s1
                         else (None, snd (deletePublicReadPolicy ans bucketName s1)))
        in if err \<noteq> None then (Some (PolicyFailed bucketName), s2)
        else (case registry_retention registry bucketType of
                Some days \<Rightarrow>
                  (case setExpirationPolicy ans bucketName days s2 of
                     (Some e, s3) \<Rightarrow> (Some (ExpiryFailed bucketName), s3)
                   | (None, s3) \<Rightarrow> (None, s3))
              | None \<Rightarrow> (None, snd (deleteExpirationPolicy ans bucketName s2))))"

fun init_buckets ::
  "(store_call \<Rightarrow> string option) \<Rightarrow> (string \<Rightarrow> string) \<Rightarrow> (string \<Rightarrow> bucket_config option) \<Rightarrow> string list \<Rightarrow>
   object_store \<Rightarrow> init_error option \<times> object_store" where
  "init_buckets ans policy registry [] s = (None, s)"
| "init_buckets ans policy registry (b # bs) s =
     (case init_bucket ans policy registry b s of
        (Some e, s') \<Rightarrow> (Some e, s')
      | (None, s') \<Rightarrow> init_buckets ans policy registry bs s')"

definition InitializeBuckets ::
  "(store_call \<Rightarrow> string option) \<Rightarrow> (string \<Rightarrow> string) \<Rightarrow> object_store \<Rightarrow> init_error option \<times> object_store" where
  "InitializeBuckets ans policy s =
     init_buckets ans policy NewBucketRegistry [FunctionsBucket, LogsBucket, QuarantineBucket, DrivesBucket] s"

section \<open>The state a start leaves\<close>

lemma registry_names [simp]:
  "registry_name NewBucketRegistry QuarantineBucket = ''oblak-quarantine''"
  "registry_name NewBucketRegistry FunctionsBucket = ''oblak-functions''"
  "registry_name NewBucketRegistry DrivesBucket = ''oblak-drives''"
  "registry_name NewBucketRegistry LogsBucket = ''oblak-logs''"
  by (simp_all add: registry_name_def NewBucketRegistry_def bucket_keys)

lemma registry_private [simp]: "registry_public NewBucketRegistry b = False"
  by (simp add: registry_public_def NewBucketRegistry_def split: option.splits)

lemma registry_retentions [simp]:
  "registry_retention NewBucketRegistry LogsBucket = Some 30"
  "registry_retention NewBucketRegistry QuarantineBucket = None"
  "registry_retention NewBucketRegistry FunctionsBucket = None"
  "registry_retention NewBucketRegistry DrivesBucket = None"
  by (simp_all add: registry_retention_def NewBucketRegistry_def bucket_keys)

lemmas bucket_calls = setPublicReadPolicy_def deletePublicReadPolicy_def setExpirationPolicy_def deleteExpirationPolicy_def

text \<open>One bucket is set up without touching the others.\<close>

lemma init_bucket_frame:
  "name \<noteq> registry_name r b \<Longrightarrow> snd (init_bucket ans policy r b s) name = s name"
  by (auto simp: init_bucket_def bucket_calls Let_def split: option.splits prod.splits if_splits)

definition private_now :: "(store_call \<Rightarrow> string option) \<Rightarrow> object_store \<Rightarrow> string \<Rightarrow> bucket_state \<Rightarrow> bool" where
  "private_now ans s name bs \<longleftrightarrow> bk_policy bs = [] \<or>
     ans (SetBucketPolicy name []) \<noteq> None \<and> (\<exists>old. s name = Some old \<and> bk_policy bs = bk_policy old)"

lemma init_bucket_done:
  assumes "init_bucket ans policy NewBucketRegistry b s = (None, s')"
  shows "\<exists>bs. s' (registry_name NewBucketRegistry b) = Some bs \<and>
     private_now ans s (registry_name NewBucketRegistry b) bs \<and>
     (\<forall>d. registry_retention NewBucketRegistry b = Some d \<longrightarrow> bk_expiry bs = Some d)"
  using assms
  by (auto simp: init_bucket_def bucket_calls private_now_def Let_def split: option.splits prod.splits if_splits)

lemma init_buckets_frame:
  "name \<notin> registry_name r ` set bs \<Longrightarrow> snd (init_buckets ans policy r bs s) name = s name"
proof (induction bs arbitrary: s)
  case (Cons b bs)
  have "init_bucket ans policy r b s = (e, s') \<Longrightarrow> s' name = s name" for e s'
    using init_bucket_frame[of name r b ans policy s] Cons.prems by simp
  then show ?case using Cons by (auto split: prod.splits option.splits)
qed simp

lemma initialized_buckets:
  assumes "InitializeBuckets ans policy s = (None, s')"
  shows "list_all (\<lambda>name. \<exists>bs. s' name = Some bs \<and> private_now ans s name bs)
           [''oblak-functions'', ''oblak-logs'', ''oblak-quarantine'', ''oblak-drives''] \<and>
     (\<exists>bs. s' ''oblak-logs'' = Some bs \<and> bk_expiry bs = Some 30) \<and>
     (name \<in> {''oblak-functions'', ''oblak-logs'', ''oblak-quarantine'', ''oblak-drives''} \<or> s' name = s name)"
proof -
  let ?init = "init_bucket ans policy NewBucketRegistry"
  obtain s1 where 1: "?init FunctionsBucket s = (None, s1)"
    using assms by (auto simp: InitializeBuckets_def split: prod.splits option.splits)
  with assms obtain s2 where 2: "?init LogsBucket s1 = (None, s2)"
    by (auto simp: InitializeBuckets_def split: prod.splits option.splits)
  with assms 1 obtain s3 where 3: "?init QuarantineBucket s2 = (None, s3)"
    by (auto simp: InitializeBuckets_def split: prod.splits option.splits)
  with assms 1 2 have 4: "?init DrivesBucket s3 = (None, s')"
    by (auto simp: InitializeBuckets_def split: prod.splits option.splits)
  have f1: "s1 n = s n" if "n \<noteq> ''oblak-functions''" for n
    using init_bucket_frame[of n NewBucketRegistry FunctionsBucket ans policy s] 1 that by simp
  have f2: "s2 n = s1 n" if "n \<noteq> ''oblak-logs''" for n
    using init_bucket_frame[of n NewBucketRegistry LogsBucket ans policy s1] 2 that by simp
  have f3: "s3 n = s2 n" if "n \<noteq> ''oblak-quarantine''" for n
    using init_bucket_frame[of n NewBucketRegistry QuarantineBucket ans policy s2] 3 that by simp
  have f4: "s' n = s3 n" if "n \<noteq> ''oblak-drives''" for n
    using init_bucket_frame[of n NewBucketRegistry DrivesBucket ans policy s3] 4 that by simp
  have "\<exists>bs. s' ''oblak-functions'' = Some bs \<and> private_now ans s ''oblak-functions'' bs"
    using init_bucket_done[OF 1] by (simp add: f2 f3 f4)
  moreover have "\<exists>bs. s' ''oblak-logs'' = Some bs \<and> private_now ans s ''oblak-logs'' bs \<and> bk_expiry bs = Some 30"
    using init_bucket_done[OF 2] by (auto simp: f1 f3 f4 private_now_def)
  moreover have "\<exists>bs. s' ''oblak-quarantine'' = Some bs \<and> private_now ans s ''oblak-quarantine'' bs"
    using init_bucket_done[OF 3] by (auto simp: f1 f2 f4 private_now_def)
  moreover have "\<exists>bs. s' ''oblak-drives'' = Some bs \<and> private_now ans s ''oblak-drives'' bs"
    using init_bucket_done[OF 4] by (auto simp: f1 f2 f3 private_now_def)
  moreover have "name \<in> {''oblak-functions'', ''oblak-logs'', ''oblak-quarantine'', ''oblak-drives''} \<or> s' name = s name"
    using f1[of name] f2[of name] f3[of name] f4[of name] by (simp only: insert_iff empty_iff) metis
  ultimately show ?thesis by simp blast
qed

text \<open>
  When the initialisation reports no error, the four buckets exist, the logs expire after 30
  days, no bucket has been given a policy (a policy a bucket already had is gone, or its removal was
  refused), and no other bucket of the store was touched.
\<close>

theorem buckets_initialized:
  assumes "InitializeBuckets ans policy s = (None, s')"
  shows "list_all (\<lambda>name. \<exists>bs. s' name = Some bs \<and> private_now ans s name bs)
           [''oblak-functions'', ''oblak-logs'', ''oblak-quarantine'', ''oblak-drives''] \<and>
     (\<exists>bs. s' ''oblak-logs'' = Some bs \<and> bk_expiry bs = Some 30) \<and>
     (name \<in> {''oblak-functions'', ''oblak-logs'', ''oblak-quarantine'', ''oblak-drives''} \<or> s' name = s name)"
  by (rule initialized_buckets[OF assms])

definition sample_store :: object_store where
  "sample_store = [''oblak-drives'' \<mapsto> \<lparr>bk_policy = ''open'', bk_expiry = Some 3\<rparr>, ''other'' \<mapsto> \<lparr>bk_policy = ''p'', bk_expiry = None\<rparr>]"

theorem buckets_initialized_witness:
  "(snd (InitializeBuckets (\<lambda>_. None) (\<lambda>_. ''{}'') sample_store)) ''other'' = Some \<lparr>bk_policy = ''p'', bk_expiry = None\<rparr>"
proof -
  obtain s' where r: "InitializeBuckets (\<lambda>_. None) (\<lambda>_. ''{}'') sample_store = (None, s')"
    by (simp add: InitializeBuckets_def init_bucket_def bucket_calls Let_def)
  have "s' ''other'' = sample_store ''other''" using buckets_initialized[OF r, of "''other''"] by simp
  then show ?thesis using arg_cong[OF r, of snd] by (simp add: sample_store_def)
qed

text \<open>
  The removal of a public policy is not checked: any error of the call, and not only that there
  was no policy, is logged and passed over, and the bucket stays public.
\<close>

lemma public_bucket_stays:
  "InitializeBuckets (\<lambda>c. if c = SetBucketPolicy ''oblak-drives'' [] then Some ''AccessDenied'' else None)
      (\<lambda>_. ''{}'') sample_store = (None, s') \<Longrightarrow> map_option bk_policy (s' ''oblak-drives'') = Some ''open''"
  by (auto simp: InitializeBuckets_def init_bucket_def bucket_calls Let_def sample_store_def)

text \<open>
  When every call succeeds the result does not depend on what was there, so that initialising a
  store again changes nothing.
\<close>

lemma init_bucket_all_ok:
  "init_bucket (\<lambda>_. None) policy NewBucketRegistry b s =
     (None, s(registry_name NewBucketRegistry b \<mapsto>
        \<lparr>bk_policy = [], bk_expiry = registry_retention NewBucketRegistry b\<rparr>))"
proof (cases "s (registry_name NewBucketRegistry b)")
  case (Some bs)
  then show ?thesis
    by (cases bs) (auto simp: init_bucket_def bucket_calls Let_def fun_upd_def split: option.splits)
qed (auto simp: init_bucket_def bucket_calls Let_def fun_upd_def split: option.splits)

lemma initialize_all_ok:
  "InitializeBuckets (\<lambda>_. None) policy s =
     (None, s(''oblak-functions'' \<mapsto> \<lparr>bk_policy = [], bk_expiry = None\<rparr>,
              ''oblak-logs'' \<mapsto> \<lparr>bk_policy = [], bk_expiry = Some 30\<rparr>,
              ''oblak-quarantine'' \<mapsto> \<lparr>bk_policy = [], bk_expiry = None\<rparr>,
              ''oblak-drives'' \<mapsto> \<lparr>bk_policy = [], bk_expiry = None\<rparr>))"
  by (simp add: InitializeBuckets_def init_bucket_all_ok)

lemma initialize_idempotent:
  "InitializeBuckets (\<lambda>_. None) policy (snd (InitializeBuckets (\<lambda>_. None) policy s)) =
   InitializeBuckets (\<lambda>_. None) policy s"
  by (auto simp: initialize_all_ok)

end
