(* ===== verification/Wiring.thy ===== *)
theory Wiring
  imports Sandbox Listener ArchiveCheck EnvConfig Buckets QueueRouter
begin

text \<open>
  How the analyzer is put together: \<open>wireDependencies\<close> and \<open>StartListener\<close> of
  \<open>internal/analyzer/message/listener.go\<close>, \<open>NewOrchestrator\<close>, \<open>Download\<close> of \<open>filestore.go\<close> and
  \<open>cmd/analyzer/main.go\<close>. The pipeline of \<open>Orchestrator\<close> is instantiated with the models of the
  implementations it is given; what is outside the repository is the record \<open>analyzer_host\<close>.
\<close>

section \<open>The stages the pipeline is wired with\<close>

record analyzer_host =
  ah_get_object :: "string \<Rightarrow> string \<Rightarrow> string \<Rightarrow> bool"
  ah_open :: "string \<Rightarrow> tar_item list option option"
  ah_os :: "fs_op \<Rightarrow> bool"
  ah_absent :: "string \<Rightarrow> bool"
  ah_run :: "string \<Rightarrow> string list \<Rightarrow> bool \<times> string"
  ah_multiscan :: "string \<Rightarrow> string \<Rightarrow> clam_status list option"
  ah_abs :: "string \<Rightarrow> string option"
  ah_setenv :: "string \<Rightarrow> bool"
  ah_parse_semgrep :: "string \<Rightarrow> semgrep_result list option"
  ah_post_sast :: "string \<Rightarrow> string \<Rightarrow> string \<Rightarrow> string \<Rightarrow> judge_error + string"
  ah_docker :: "string \<Rightarrow> docker_env"
  ah_report_ok :: "report_op \<Rightarrow> bool"
  ah_report_json :: "execution_result \<Rightarrow> string"
  ah_read :: "string \<Rightarrow> string option"
  ah_parse_report :: "string \<Rightarrow> behavior_report option"
  ah_behavior_json :: "behavior_report \<Rightarrow> string option"
  ah_post_logs :: "string \<Rightarrow> string \<Rightarrow> string \<Rightarrow> ollama_reply option"
  ah_parse_verdict :: "string \<Rightarrow> string option"

text \<open>
  \<open>ah_open\<close>: the archive cannot be opened, or is no gzip stream, or holds the entries. The judge's model
  is the one \<open>NewQwenJudge\<close> sets.
\<close>

definition NewQwenJudge_model :: string where
  "NewQwenJudge_model = ''qwen2.5:3b''"

definition FileStore_Download ::
  "(string \<Rightarrow> string \<Rightarrow> string \<Rightarrow> bool) \<Rightarrow> (uuid \<Rightarrow> string) \<Rightarrow> string \<Rightarrow> string \<Rightarrow> uuid \<Rightarrow> string option" where
  "FileStore_Download get ustr bucketName fileName functionId =
     (let localPath = ''/tmp/quarantine/'' @ ustr functionId @ ''/'' @ fileName in
      if get bucketName fileName localPath then Some localPath else None)"

definition unzip_local :: "analyzer_host \<Rightarrow> string \<Rightarrow> string \<Rightarrow> unzip_error option \<times> fs_op list" where
  "unzip_local H localPath targetDir =
     (case ah_open H localPath of
        None \<Rightarrow> Extract (ah_os H) False False (NewUnzipper (-1)) [] targetDir
      | Some None \<Rightarrow> Extract (ah_os H) True False (NewUnzipper (-1)) [] targetDir
      | Some (Some items) \<Rightarrow> Extract (ah_os H) True True (NewUnzipper (-1)) items targetDir)"

definition wireDependencies :: "analyzer_host \<Rightarrow> (uuid \<Rightarrow> string) \<Rightarrow> analyzer_config \<Rightarrow> pipeline" where
  "wireDependencies H ustr cfg =
     \<lparr>p_download = FileStore_Download (ah_get_object H) ustr (registry_name NewBucketRegistry QuarantineBucket),
      p_extract = (\<lambda>localPath target. fst (unzip_local H localPath target)),
      p_audit = Audit (ah_absent H) (\<lambda>args. fst (ah_run H (ac_audit_path cfg) args)),
      p_scan = ScanLocalPath (ah_multiscan H (ac_antivirus_url cfg)),
      p_sast = SemgrepRun (ah_abs H) (ah_setenv H (ac_semgrep_token cfg)) (ah_run H (ac_sast_path cfg)) (ah_parse_semgrep H),
      p_ask_sast = AskForSAST (ah_post_sast H (judge_url (ac_ollama_url cfg)) NewQwenJudge_model),
      p_detonate = box_detonate (ah_docker H),
      p_write_report = (\<lambda>r p. fst (WriteJSONReport (ah_report_ok H) (ah_report_json H) (r, []) p) = None),
      p_ask_logs = AskForLogs (ah_read H) (ah_parse_report H) (ah_behavior_json H) (ah_post_logs H) (ah_parse_verdict H)
                     (ac_ollama_url cfg) NewQwenJudge_model\<rparr>"

definition analyze :: "analyzer_host \<Rightarrow> (uuid \<Rightarrow> string) \<Rightarrow> analyzer_config \<Rightarrow> string \<Rightarrow> uuid \<Rightarrow> analysis" where
  "analyze H ustr cfg = AnalyzeFile ustr (ac_report_path cfg) (wireDependencies H ustr cfg)"

section \<open>What SAFE means\<close>

lemma audit_passes:
  "\<not> Audit absent run dir \<longleftrightarrow>
     absent (path_join dir ''requirements.txt'') \<or> run (audit_args (path_join dir ''requirements.txt''))"
  by (simp add: Audit_def Let_def)

lemma scan_passes:
  "ScanLocalPath multiscan dir = Inr True \<longleftrightarrow> (\<exists>rs. multiscan dir = Some rs \<and> RES_FOUND \<notin> set rs \<and> RES_ERROR \<notin> set rs)"
  by (auto simp: ScanLocalPath_def scan_local_results_iff split: option.splits)

lemma finding_malicious:
  "AskForSAST post msg code = (SastMalicious, None) \<longleftrightarrow> post msg code = Inr ''MALICIOUS''"
  by (auto simp: AskForSAST_def split: sum.splits if_splits)

lemma log_judge_passes:
  "(\<exists>v. AskForLogs read unm mar post parse url model p = Inr v \<and> v \<noteq> ''MALICIOUS'') \<longleftrightarrow>
   (\<exists>log reply response v. read p = Some log \<and> post (judge_url url) (judge_model model) (optimized_log unm mar log) = Some reply \<and>
      or_status reply = 200 \<and> or_envelope reply = Some response \<and> parse response = Some v \<and>
      v \<noteq> ''MALICIOUS'' \<and> v \<noteq> ''SUSPICIOUS'')"
  by (auto simp: AskForLogs_def split: option.splits if_splits)

lemma report_written:
  "fst (WriteJSONReport ok enc x p) \<noteq> None \<longleftrightarrow>
     ok (ReportMkdirAll (path_dir p)) \<and> ok (CreateReport p) \<and> ok (EncodeReport p (enc (fst x)))"
  by (simp add: WriteJSONReport_def step_def deferred_def)

lemma box_result: "box_detonate env dir = Some r \<longleftrightarrow> (\<exists>raw. fst (Detonate (env dir) dir) = Inr (r, raw))"
  by (auto simp: box_detonate_def split: sum.splits prod.splits)

lemma wired_simps [simp]:
  "p_download (wireDependencies H ustr cfg) =
     FileStore_Download (ah_get_object H) ustr (registry_name NewBucketRegistry QuarantineBucket)"
  "p_extract (wireDependencies H ustr cfg) = (\<lambda>localPath target. fst (unzip_local H localPath target))"
  "p_audit (wireDependencies H ustr cfg) = Audit (ah_absent H) (\<lambda>args. fst (ah_run H (ac_audit_path cfg) args))"
  "p_scan (wireDependencies H ustr cfg) = ScanLocalPath (ah_multiscan H (ac_antivirus_url cfg))"
  "p_sast (wireDependencies H ustr cfg) =
     SemgrepRun (ah_abs H) (ah_setenv H (ac_semgrep_token cfg)) (ah_run H (ac_sast_path cfg)) (ah_parse_semgrep H)"
  "p_ask_sast (wireDependencies H ustr cfg) = AskForSAST (ah_post_sast H (judge_url (ac_ollama_url cfg)) NewQwenJudge_model)"
  "p_detonate (wireDependencies H ustr cfg) = box_detonate (ah_docker H)"
  "p_write_report (wireDependencies H ustr cfg) =
     (\<lambda>r p. fst (WriteJSONReport (ah_report_ok H) (ah_report_json H) (r, []) p) = None)"
  "p_ask_logs (wireDependencies H ustr cfg) =
     AskForLogs (ah_read H) (ah_parse_report H) (ah_behavior_json H) (ah_post_logs H) (ah_parse_verdict H)
       (ac_ollama_url cfg) NewQwenJudge_model"
  by (simp_all add: wireDependencies_def)


text \<open>A machine on which an archive of one file gets through every stage, with one finding the judge lets pass.\<close>

definition safe_host :: analyzer_host where
  "safe_host =
     \<lparr>ah_get_object = (\<lambda>bucket name _. bucket = ''oblak-quarantine'' \<and> name = ''f.tar.gz''),
      ah_open = (\<lambda>p. Some (Some [Entry \<lparr>te_name = ''handler.py'', te_type = TypeReg, te_content = ''pass'', te_broken = False\<rparr>])),
      ah_os = (\<lambda>_. True), ah_absent = (\<lambda>_. True), ah_run = (\<lambda>_ _. (True, ''[]'')),
      ah_multiscan = (\<lambda>_ _. Some [RES_OK]), ah_abs = Some, ah_setenv = (\<lambda>_. True),
      ah_parse_semgrep = (\<lambda>_. Some [\<lparr>sr_check_id = ''exec'', sr_message = ''subprocess'', sr_lines = ''run(x)''\<rparr>]),
      ah_post_sast = (\<lambda>_ _ _ _. Inr ''SAFE''), ah_docker = (\<lambda>_. sample_docker\<lparr>de_wait := ContainerExited\<rparr>),
      ah_report_ok = (\<lambda>_. True), ah_report_json = (\<lambda>_. ''{}''), ah_read = (\<lambda>_. Some ''{}''),
      ah_parse_report = (\<lambda>_. None), ah_behavior_json = (\<lambda>_. None),
      ah_post_logs = (\<lambda>_ _ _. Some \<lparr>or_status = 200, or_envelope = Some ''e''\<rparr>), ah_parse_verdict = (\<lambda>_. Some ''SAFE'')\<rparr>"

lemma safe_host_extracts: "fst (unzip_local safe_host p ''/tmp/quarantine/id/extracted'') = None"
proof -
  let ?es = "[\<lparr>te_name = ''handler.py'', te_type = TypeReg, te_content = ''pass'', te_broken = False\<rparr>]"
  have "Unzip (Some (map (\<lambda>e. Some (header_of e)) ?es)) = None" by code_simp
  moreover have "is_abs ''/tmp/quarantine/id/extracted''" and "path_clean ''/tmp/quarantine/id/extracted'' \<noteq> ''/''"
    by code_simp+
  ultimately have "fst (Extract (\<lambda>_. True) True True (NewUnzipper 0) (map Entry ?es) ''/tmp/quarantine/id/extracted'') = None"
    by (intro accepted_extracts) simp_all
  then show ?thesis by (simp add: unzip_local_def safe_host_def NewUnzipper_def)
qed

lemma safe_host_detonates: "\<exists>r raw. fst (Detonate (ah_docker safe_host dir) dir) = Inr (r, raw)"
proof -
  let ?E = "ah_docker safe_host dir"
  let ?raw = "raw_strace (de_read ?E) (findNewBootLog {''old.boot.txt''} (de_listings ?E))"
  have "fst (Detonate ?E dir) =
      Inr (\<lparr>er_stdout = ''out'', er_stderr = ''err'', er_behavior = parseBehaviorReport ?raw\<rparr>, ?raw)"
    by (simp only: detonation_result_iff) (simp add: safe_host_def sample_docker_def)
  then show ?thesis by blast
qed


end
