(* ===== verification/AnalyzerService.thy ===== *)
theory AnalyzerService
  imports Wiring
begin

text \<open>
  The analyzer as a process: its start (\<open>cmd/analyzer/main.go\<close>, \<open>wireDependencies\<close> and \<open>StartListener\<close> of
  \<open>internal/analyzer/message/listener.go\<close>) as the steps it takes, and the loop that consumes the queue.
\<close>

section \<open>Start\<close>

datatype boot_op =
    RemoveAllPath string | MkdirAllPath string | NewGVisorBox | NewMinioClient string string string bool
  | ConnectDatabase string | NewSubscriberOf consumer | SubscribeTopic string

definition initializeQuarantineDirectory :: "(boot_op \<Rightarrow> bool) \<Rightarrow> string \<Rightarrow> unit option \<times> boot_op list \<Rightarrow> unit option \<times> boot_op list" where
  "initializeQuarantineDirectory ok path rest = step ok (RemoveAllPath path) [] (step ok (MkdirAllPath path) [] rest)"

text \<open>The steps of \<open>wireDependencies\<close> that can fail; an error of the MinIO client ends the process.\<close>

definition wire_steps :: "(boot_op \<Rightarrow> bool) \<Rightarrow> analyzer_config \<Rightarrow> unit option \<times> boot_op list \<Rightarrow> unit option \<times> boot_op list" where
  "wire_steps ok cfg rest =
     step ok NewGVisorBox [] (
     step ok (NewMinioClient (ac_minio_endpoint cfg) (ac_minio_access_key cfg) (ac_minio_secret_key cfg) False) [] (
     step ok (ConnectDatabase (ac_database_url cfg)) [] rest))"

definition StartListener :: "(boot_op \<Rightarrow> bool) \<Rightarrow> analyzer_config \<Rightarrow> unit option \<times> boot_op list" where
  "StartListener ok cfg =
     wire_steps ok cfg (
     step ok (NewSubscriberOf analyzer_consumer) [] (
     step ok (SubscribeTopic ''analyzer'') [] (Some (), [])))"

text \<open>\<open>None\<close>: the process ended with an error.\<close>

definition analyzer_main ::
  "(boot_op \<Rightarrow> bool) \<Rightarrow> (string \<Rightarrow> stat_result) \<Rightarrow> (string \<Rightarrow> string option) \<Rightarrow> getenv \<Rightarrow> unit option \<times> boot_op list" where
  "analyzer_main ok stat flags env =
     (case analyzer_Load stat flags env of
        Started cfg \<Rightarrow> initializeQuarantineDirectory ok ''/tmp/quarantine'' (StartListener ok cfg)
      | FatalExit _ \<Rightarrow> (None, [])
      | NilPanic \<Rightarrow> (None, []))"

section \<open>The loop\<close>

text \<open>
  What the \<open>select\<close> of the loop finds next: a message with its UUID and payload, the closed message
  channel, or the cancelled context.
\<close>

datatype loop_input = Delivered string string | ChannelClosed | ContextDone

datatype loop_event = Acked string | Called ext_call | Logged listen_error | SubscriberClosed

datatype loop_end = Listening | LoopReturned | LoopPanicked | ProcessDied

fun listen_loop ::
  "(string \<Rightarrow> pg \<Rightarrow> processed) \<Rightarrow> bool \<Rightarrow> loop_input list \<Rightarrow> pg \<Rightarrow> loop_end \<times> loop_event list \<times> pg" where
  "listen_loop process close_ok [] s = (Listening, [], s)"
| "listen_loop process close_ok (Delivered uuid payload # is) s =
     (let r = process payload s; evs = Acked uuid # map Called (pr_calls r) in
      case pr_outcome r of
        None \<Rightarrow> (ProcessDied, evs, pr_db r)
      | Some err \<Rightarrow>
          (case listen_loop process close_ok is (pr_db r) of
             (e, tr, s') \<Rightarrow> (e, evs @ (case err of None \<Rightarrow> [] | Some x \<Rightarrow> [Logged x]) @ tr, s')))"
| "listen_loop process close_ok (ChannelClosed # is) s = (LoopReturned, [], s)"
| "listen_loop process close_ok (ContextDone # is) s = (if close_ok then LoopReturned else LoopPanicked, [SubscriberClosed], s)"

section \<open>Each message once, in order\<close>

definition acked :: "loop_event list \<Rightarrow> string list" where
  "acked tr = concat (map (\<lambda>ev. case ev of Acked u \<Rightarrow> [u] | _ \<Rightarrow> []) tr)"

lemma acked_simps [simp]:
  "acked [] = []" "acked (Acked u # tr) = u # acked tr" "acked (Called c # tr) = acked tr"
  "acked (Logged e # tr) = acked tr" "acked (SubscriberClosed # tr) = acked tr"
  "acked (tr @ tr') = acked tr @ acked tr'" "acked (map Called cs) = []"
  by (simp_all add: acked_def)

definition process_all :: "(string \<Rightarrow> pg \<Rightarrow> processed) \<Rightarrow> (string \<times> string) list \<Rightarrow> pg \<Rightarrow> pg" where
  "process_all process ms s = fold (\<lambda>m s. pr_db (process (snd m) s)) ms s"


section \<open>An analysis that ends the process\<close>

definition crashing_message ::
  "(string \<Rightarrow> function_message option) \<Rightarrow> (string \<Rightarrow> uuid \<Rightarrow> analysis) \<Rightarrow> string \<Rightarrow> function_message \<Rightarrow> bool" where
  "crashing_message dec analyzer payload m \<longleftrightarrow>
     dec payload = Some m \<and> (\<exists>tr. analyzer (fm_path m) (fm_function m) = Fatal tr)"

lemma crash_leaves_scanning:
  assumes "pg_outcomes s = []" and "crashing_message dec analyzer payload m"
  shows "pr_outcome (processMessage dec ans analyzer q f payload s) = None"
    and "pr_calls (processMessage dec ans analyzer q f payload s) = []"
    and "fn_status_of (pr_db (processMessage dec ans analyzer q f payload s)) =
           (\<lambda>k. if k = fm_function m then map_option (\<lambda>_. FnScanning) (fn_status_of s k) else fn_status_of s k)"
proof -
  obtain s1 where s1: "update_function_status (fm_function m) FnScanning s = (Inr (), s1)"
    using assms(1)
    by (simp add: update_function_status_def ignore_count_def update_functions_where_def db_exec_def)
  show "pr_outcome (processMessage dec ans analyzer q f payload s) = None"
    "pr_calls (processMessage dec ans analyzer q f payload s) = []"
    using assms(2) s1 by (auto simp: crashing_message_def processMessage_def onLand_def)
  have "pr_db (processMessage dec ans analyzer q f payload s) = s1"
    using assms(2) s1 by (auto simp: crashing_message_def processMessage_def onLand_def)
  then show "fn_status_of (pr_db (processMessage dec ans analyzer q f payload s)) =
      (\<lambda>k. if k = fm_function m then map_option (\<lambda>_. FnScanning) (fn_status_of s k) else fn_status_of s k)"
    using fn_update_ok[OF s1] by auto
qed

text \<open>
  When Semgrep fails on an archive the process ends with the message already acknowledged: the function
  stays SCANNING, with no message left that would change it, and the messages behind it wait for
  a restart.
\<close>

theorem failed_semgrep_loses_message:
  assumes "pg_outcomes s = []" and "dec payload = Some m"
    and "p_download P (fm_path m) (fm_function m) = Some localPath"
    and "p_extract P localPath (quarantine_path ustr (fm_function m)) = None"
    and "\<not> p_audit P (quarantine_path ustr (fm_function m))"
    and "p_scan P (quarantine_path ustr (fm_function m)) = Inr True"
    and "p_sast P (quarantine_path ustr (fm_function m)) = Inl e"
  shows "\<exists>s'. listen_loop (processMessage dec ans (AnalyzeFile ustr reportDir P) q f) close_ok (Delivered u payload # ins) s =
           (ProcessDied, [Acked u], s') \<and>
         fn_status_of s' = (\<lambda>k. if k = fm_function m then map_option (\<lambda>_. FnScanning) (fn_status_of s k) else fn_status_of s k)"
proof -
  have "crashing_message dec (AnalyzeFile ustr reportDir P) payload m"
    using assms(2-7) by (simp add: crashing_message_def AnalyzeFile_def)
  from crash_leaves_scanning[OF assms(1) this] show ?thesis by simp
qed

definition crashing_pipeline :: pipeline where
  "crashing_pipeline = (passing_pipeline ''SAFE'')\<lparr>p_sast := \<lambda>_. Inl SemgrepFailed\<rparr>"

theorem failed_semgrep_loses_message_witness:
  "\<exists>s'. listen_loop (processMessage (\<lambda>_. Some \<lparr>fm_function = 7, fm_bucket = ''q'', fm_path = ''a''\<rparr>) (\<lambda>_. True)
      (AnalyzeFile (\<lambda>_. ''id'') ''/r'' crashing_pipeline) ''q'' ''f'') True [Delivered ''u1'' ''msg'', Delivered ''u2'' ''msg'']
      (sample_pg FnExtracted InvPending) = (ProcessDied, [Acked ''u1''], s') \<and> fn_status_of s' 7 = Some FnScanning"
proof -
  let ?m = "\<lparr>fm_function = 7, fm_bucket = ''q'', fm_path = ''a''\<rparr>"
  have pipeline: "p_download crashing_pipeline (fm_path ?m) (fm_function ?m) = Some ''/tmp/quarantine/id/a''"
    "p_extract crashing_pipeline ''/tmp/quarantine/id/a'' (quarantine_path (\<lambda>_. ''id'') (fm_function ?m)) = None"
    "\<not> p_audit crashing_pipeline (quarantine_path (\<lambda>_. ''id'') (fm_function ?m))"
    "p_scan crashing_pipeline (quarantine_path (\<lambda>_. ''id'') (fm_function ?m)) = Inr True"
    "p_sast crashing_pipeline (quarantine_path (\<lambda>_. ''id'') (fm_function ?m)) = Inl SemgrepFailed"
    by (simp_all add: crashing_pipeline_def passing_pipeline_def)
  obtain s' where s': "listen_loop (processMessage (\<lambda>_. Some ?m) (\<lambda>_. True)
      (AnalyzeFile (\<lambda>_. ''id'') ''/r'' crashing_pipeline) ''q'' ''f'') True [Delivered ''u1'' ''msg'', Delivered ''u2'' ''msg'']
      (sample_pg FnExtracted InvPending) = (ProcessDied, [Acked ''u1''], s')"
    "fn_status_of s' = (\<lambda>k. if k = fm_function ?m then map_option (\<lambda>_. FnScanning) (fn_status_of (sample_pg FnExtracted InvPending) k)
       else fn_status_of (sample_pg FnExtracted InvPending) k)"
    using failed_semgrep_loses_message[where dec = "\<lambda>_. Some ?m" and m = ?m and ustr = "\<lambda>_. ''id''" and P = crashing_pipeline,
        OF sample_pg_facts(2)[of FnExtracted InvPending] refl pipeline] by blast
  have "fn_status_of s' 7 = Some FnScanning" by (simp add: s'(2) sample_pg_facts)
  with s'(1) show ?thesis by blast
qed

definition crashing_process :: "string \<Rightarrow> pg \<Rightarrow> processed" where
  "crashing_process = processMessage (\<lambda>_. Some \<lparr>fm_function = 7, fm_bucket = ''q'', fm_path = ''a''\<rparr>) (\<lambda>_. True)
     (AnalyzeFile (\<lambda>_. ''id'') ''/r'' crashing_pipeline) ''q'' ''f''"

lemma crashing_run:
  "\<exists>s'. listen_loop crashing_process True [Delivered ''u1'' ''msg'', Delivered ''u2'' ''msg''] (sample_pg FnExtracted InvPending) =
     (ProcessDied, [Acked ''u1''], s')"
proof -
  let ?m = "\<lparr>fm_function = 7, fm_bucket = ''q'', fm_path = ''a''\<rparr>"
  have "crashing_message (\<lambda>_. Some ?m) (AnalyzeFile (\<lambda>_. ''id'') ''/r'' crashing_pipeline) ''msg'' ?m"
    by (simp add: crashing_message_def crashing_pipeline_def passing_pipeline_def AnalyzeFile_def)
  from crash_leaves_scanning[OF sample_pg_facts(2)[of FnExtracted InvPending] this, of "\<lambda>_. True" "''q''" "''f''"]
  show ?thesis by (simp add: crashing_process_def)
qed


section \<open>The start\<close>

lemma step_starts: "fst (step ok op undo rest) = Some () \<longleftrightarrow> ok op \<and> fst rest = Some ()"
  by (simp add: step_def)

lemma analyzer_serves_iff:
  "fst (analyzer_main ok stat flags env) = Some () \<longleftrightarrow>
     (\<exists>cfg. analyzer_Load stat flags env = Started cfg \<and>
        ok (RemoveAllPath ''/tmp/quarantine'') \<and> ok (MkdirAllPath ''/tmp/quarantine'') \<and> ok NewGVisorBox \<and>
        ok (NewMinioClient (ac_minio_endpoint cfg) (ac_minio_access_key cfg) (ac_minio_secret_key cfg) False) \<and>
        ok (ConnectDatabase (ac_database_url cfg)) \<and>
        ok (NewSubscriberOf analyzer_consumer) \<and> ok (SubscribeTopic ''analyzer''))"
  by (auto simp: analyzer_main_def initializeQuarantineDirectory_def StartListener_def wire_steps_def step_starts
      split: startup.splits)

text \<open>The quarantine directory is emptied before the first message is taken.\<close>

lemma quarantine_emptied_first:
  "SubscribeTopic t \<in> set (snd (analyzer_main ok stat flags env)) \<Longrightarrow>
   \<exists>tr. snd (analyzer_main ok stat flags env) = RemoveAllPath ''/tmp/quarantine'' # MkdirAllPath ''/tmp/quarantine'' # tr"
  by (auto simp: analyzer_main_def initializeQuarantineDirectory_def step_def split: startup.splits if_splits)

end
