(* ===== verification/Services.thy ===== *)
theory Services
  imports Signing Buckets QueueRouter Events
begin

text \<open>
  The server and the VM service as processes: \<open>cmd/server/main.go\<close>, \<open>cmd/vm/main.go\<close>,
  \<open>internal/server/database\<close>, \<open>httpserver/server.go\<close> and \<open>middleware/rate_limit.go\<close>. A start is the
  sequence of its steps with \<open>ok\<close> for their success; \<open>None\<close> is a process that ended with an error,
  by \<open>log.Fatalf\<close> or a panic, which runs no deferred function.
\<close>

section \<open>Steps\<close>

datatype service_op =
    NewPool string | PingPool | ClosePool | MinioConnect string string string bool
  | StartQuarantineWorker | StartExtractionWorker | InitBuckets | NewLimiter string | ListenOn string
  | SetUpRouter | RunRouter | CloseVmRouter

definition database_Connect :: "(service_op \<Rightarrow> bool) \<Rightarrow> string \<Rightarrow> unit option \<times> service_op list \<Rightarrow> unit option \<times> service_op list" where
  "database_Connect ok url rest = step ok (NewPool url) [] (step ok PingPool [ClosePool] rest)"

text \<open>\<open>parse_rate\<close> reads the limit and the period of the third-party limiter; its error is a panic.\<close>

definition RateLimitByIP ::
  "(string \<Rightarrow> 'rate option) \<Rightarrow> string \<Rightarrow> string \<Rightarrow> ('rate \<Rightarrow> unit option \<times> service_op list) \<Rightarrow> unit option \<times> service_op list" where
  "RateLimitByIP parse_rate requestLimit timeLimit rest =
     (case parse_rate (requestLimit @ ''-'' @ timeLimit) of
        None \<Rightarrow> (None, [NewLimiter (requestLimit @ ''-'' @ timeLimit)])
      | Some rate \<Rightarrow> (case rest rate of (r, tr) \<Rightarrow> (r, NewLimiter (requestLimit @ ''-'' @ timeLimit) # tr)))"

definition server_main ::
  "(service_op \<Rightarrow> bool) \<Rightarrow> (store_call \<Rightarrow> string option) \<Rightarrow> (string \<Rightarrow> string) \<Rightarrow> (string \<Rightarrow> 'rate option) \<Rightarrow> getenv \<Rightarrow>
   object_store \<Rightarrow> (unit option \<times> service_op list) \<times> object_store" where
  "server_main ok ans policy parse_rate env store =
     (let cfg = server_Load env;
          (bucket_err, store') = InitializeBuckets ans policy store;
          r = database_Connect ok (sc_database_url cfg) (
              step ok (MinioConnect (sc_minio_endpoint cfg) (sc_minio_access_key cfg) (sc_minio_secret_key cfg) (sc_minio_use_ssl cfg)) [] (
              step (\<lambda>_. True) StartQuarantineWorker [] (
              step (\<lambda>_. True) StartExtractionWorker [] (
              step (\<lambda>_. bucket_err = None) InitBuckets [] (
              RateLimitByIP parse_rate (sc_max_token_size cfg) (sc_time_interval cfg) (\<lambda>_.
              step ok (ListenOn ('':'' @ sc_port cfg)) [] (Some (), [])))))))
      in (r, if InitBuckets \<in> set (snd r) then store' else store))"

definition vm_main :: "(service_op \<Rightarrow> bool) \<Rightarrow> (router_op \<Rightarrow> bool) \<Rightarrow> getenv \<Rightarrow> unit option \<times> service_op list" where
  "vm_main ok router_ok env =
     (let cfg = vm_Load env in
      database_Connect ok (vc_database_url cfg) (
      step ok (MinioConnect (vc_minio_endpoint cfg) (vc_minio_access_key cfg) (vc_minio_secret_key cfg) (vc_minio_use_ssl cfg)) [] (
      step (\<lambda>_. fst (NewVmRouter router_ok cfg) \<noteq> None) SetUpRouter [] (
      step ok RunRouter [] (Some (), [CloseVmRouter, ClosePool])))))"

text \<open>
  \<open>ListenOn\<close> succeeding means that the server is serving: \<open>gin\<close>'s \<open>Run\<close> returns only with an error. A router
  that was run until its context was cancelled is closed by the deferred functions, and the pool
  after it.
\<close>

text \<open>
  The handlers behind \<open>s.router.Use(rateLimit, auth)\<close>: a request over the limit is aborted with 429 before
  the authentication sees it.
\<close>

definition server_chain ::
  "(request \<Rightarrow> bool) \<Rightarrow> (string \<Rightarrow> int option) \<Rightarrow> (string \<Rightarrow> key_error + key_row) \<Rightarrow> int \<Rightarrow> request \<Rightarrow> auth_call list" where
  "server_chain over_limit parse store now r =
     (if over_limit r then [AbortStatus 429] else RequireAuth parse store now r)"

section \<open>What a running service can rely on\<close>

lemma step_trace: "op' \<in> set (snd (step ok op undo rest)) \<longleftrightarrow>
   op' = op \<or> (if ok op then op' \<in> set (snd rest) else op' \<in> set undo)"
  by (auto simp: step_def)

text \<open>
  The server listens only when its database answered, the four buckets exist, the rate limit could be
  parsed and both event workers run: listening is its last step, and no upload is taken that no worker
  would see.
\<close>

theorem server_listens_ready:
  assumes "ListenOn addr \<in> set (snd (fst (server_main ok ans policy parse_rate env store)))"
  shows "let cfg = server_Load env; (r, store') = server_main ok ans policy parse_rate env store in
     addr = '':'' @ sc_port cfg \<and> ok (NewPool (sc_database_url cfg)) \<and> ok PingPool \<and>
     parse_rate (sc_max_token_size cfg @ ''-'' @ sc_time_interval cfg) \<noteq> None \<and>
     (\<exists>before. snd r = before @ [ListenOn addr] \<and> {StartQuarantineWorker, StartExtractionWorker, InitBuckets} \<subseteq> set before) \<and>
     list_all (\<lambda>name. store' name \<noteq> None) [''oblak-functions'', ''oblak-logs'', ''oblak-quarantine'', ''oblak-drives'']"
proof -
  obtain e store' where init: "InitializeBuckets ans policy store = (e, store')" by fastforce
  let ?cfg = "server_Load env"
  have ok: "addr = '':'' @ sc_port ?cfg" "ok (NewPool (sc_database_url ?cfg))" "ok PingPool" "e = None"
    "ok (MinioConnect (sc_minio_endpoint ?cfg) (sc_minio_access_key ?cfg) (sc_minio_secret_key ?cfg) (sc_minio_use_ssl ?cfg))"
    and rate: "\<exists>rate. parse_rate (sc_max_token_size ?cfg @ ''-'' @ sc_time_interval ?cfg) = Some rate"
    using assms
    by (auto simp: server_main_def init Let_def database_Connect_def RateLimitByIP_def step_trace split_beta
        split: if_splits option.splits)
  from rate obtain rate where rate: "parse_rate (sc_max_token_size ?cfg @ ''-'' @ sc_time_interval ?cfg) = Some rate" ..
  let ?before = "[NewPool (sc_database_url ?cfg), PingPool,
      MinioConnect (sc_minio_endpoint ?cfg) (sc_minio_access_key ?cfg) (sc_minio_secret_key ?cfg) (sc_minio_use_ssl ?cfg),
      StartQuarantineWorker, StartExtractionWorker, InitBuckets,
      NewLimiter (sc_max_token_size ?cfg @ ''-'' @ sc_time_interval ?cfg)]"
  have run: "\<exists>res. server_main ok ans policy parse_rate env store = ((res, ?before @ [ListenOn addr]), store')"
    using ok rate by (auto simp: server_main_def init Let_def database_Connect_def RateLimitByIP_def step_def)
  have "list_all (\<lambda>name. store' name \<noteq> None) [''oblak-functions'', ''oblak-logs'', ''oblak-quarantine'', ''oblak-drives'']"
    using initialized_buckets[OF init[unfolded ok(4)]] by auto
  then show ?thesis using run ok rate by auto
qed

theorem server_listens_ready_witness:
  "snd (server_main (\<lambda>_. True) (\<lambda>_. None) (\<lambda>_. ''{}'') (\<lambda>r. if r = ''10-S'' then Some () else None) (\<lambda>_. []) Map.empty) ''oblak-logs'' \<noteq> None"
proof -
  have "ListenOn '':8080'' \<in> set (snd (fst (server_main (\<lambda>_. True) (\<lambda>_. None) (\<lambda>_. ''{}'')
      (\<lambda>r. if r = ''10-S'' then Some () else None) (\<lambda>_. []) Map.empty)))"
    by (simp add: server_main_def initialize_all_ok Let_def database_Connect_def RateLimitByIP_def step_def
        server_Load_def server_env.lookup_eq)
  from server_listens_ready[OF this] show ?thesis by (auto simp: Let_def split_beta)
qed

text \<open>A configured rate the limiter cannot parse stops the server, after its workers were started.\<close>

lemma bad_rate_stops_server:
  assumes "parse_rate (sc_max_token_size (server_Load env) @ ''-'' @ sc_time_interval (server_Load env)) = None"
  shows "fst (fst (server_main ok ans policy parse_rate env store)) = None"
  using assms by (auto simp: server_main_def Let_def split_beta database_Connect_def RateLimitByIP_def step_def)

text \<open>The VM service takes work only with a database that answered and a router that is complete.\<close>

lemma vm_runs_ready:
  "RunRouter \<in> set (snd (vm_main ok router_ok env)) \<Longrightarrow>
   ok PingPool \<and> fst (NewVmRouter router_ok (vm_Load env)) = Some ()"
  by (auto simp: vm_main_def Let_def database_Connect_def step_trace split: if_splits)

text \<open>A pool whose database does not answer is closed.\<close>

lemma unanswered_pool_closed:
  assumes "ok (NewPool url)" and "\<not> ok PingPool"
  shows "database_Connect ok url rest = (None, [NewPool url, PingPool, ClosePool])"
  using assms by (simp add: database_Connect_def step_def)

lemma limited_request_stops:
  assumes "abort_stops gin" and "over_limit r"
  shows "\<not> gin (server_chain over_limit parse store now r)"
proof
  assume "gin (server_chain over_limit parse store now r)"
  with assms obtain pre post where "[AbortStatus 429] = pre @ CallNext # post" unfolding abort_stops_def server_chain_def by auto
  then show False by (cases pre) auto
qed

end
