(* ===== verification/ApiServer.thy ===== *)
theory ApiServer
  imports Handlers AuthKeys Services
begin

text \<open>
  The server half of \<open>internal/api/api.gen.go\<close> and \<open>httpserver/routes.go\<close>: the routes, the wrappers that
  bind path parameters, the strict handlers that decode a request, call a handler of \<open>Handlers\<close> and
  write what it returns, and the options the server installs. Together with the middlewares of
  \<open>Signing\<close> and \<open>Services\<close> they make \<open>serve\<close>, the server as a function of a request.
\<close>

section \<open>What is written to the client\<close>

text \<open>
  \<open>JSONMap\<close> is \<open>ctx.JSON\<close> of a map of one entry, \<open>JSONBody\<close> an encoded object under the content type
  \<open>application/json\<close>.
\<close>

datatype response_write = JSONMap nat string string | JSONBody nat string | StatusOnly nat

fun write_status :: "response_write \<Rightarrow> nat" where
  "write_status (JSONMap st _ _) = st"
| "write_status (JSONBody st _) = st"
| "write_status (StatusOnly st) = st"

text \<open>The status line is sent once, by the first write; without one it is 200.\<close>

definition status_sent :: "response_write list \<Rightarrow> nat" where
  "status_sent ws = (case ws of [] \<Rightarrow> 200 | w # _ \<Rightarrow> write_status w)"

section \<open>Options of the strict handler\<close>

record strict_options =
  RequestErrorHandlerFunc :: "(string \<Rightarrow> response_write) option"
  HandlerErrorFunc :: "(handler_error \<Rightarrow> response_write) option"
  ResponseErrorHandlerFunc :: "(handler_error option \<Rightarrow> response_write) option"

record strict_handler =
  sh_request_error :: "string \<Rightarrow> response_write"
  sh_handler_error :: "handler_error \<Rightarrow> response_write"
  sh_response_error :: "handler_error option \<Rightarrow> response_write"

text \<open>
  \<open>txt\<close> is \<open>err.Error()\<close> of a handler's error, \<open>werr\<close> that of a response that could not be written, which is
  \<open>None\<close> as an argument of \<open>ResponseErrorHandlerFunc\<close>.
\<close>

definition NewStrictHandlerWithOptions :: "(handler_error \<Rightarrow> string) \<Rightarrow> string \<Rightarrow> strict_options \<Rightarrow> strict_handler" where
  "NewStrictHandlerWithOptions txt werr options =
     \<lparr>sh_request_error = (case RequestErrorHandlerFunc options of None \<Rightarrow> JSONMap 400 ''msg'' | Some f \<Rightarrow> f),
      sh_handler_error = (case HandlerErrorFunc options of None \<Rightarrow> (\<lambda>e. JSONMap 500 ''msg'' (txt e)) | Some f \<Rightarrow> f),
      sh_response_error = (case ResponseErrorHandlerFunc options of
        None \<Rightarrow> (\<lambda>e. JSONMap 500 ''msg'' (case e of None \<Rightarrow> werr | Some e \<Rightarrow> txt e)) | Some f \<Rightarrow> f)\<rparr>"

definition NewStrictHandler :: "(handler_error \<Rightarrow> string) \<Rightarrow> string \<Rightarrow> strict_handler" where
  "NewStrictHandler txt werr =
     \<lparr>sh_request_error = JSONMap 400 ''msg'', sh_handler_error = (\<lambda>e. JSONMap 500 ''msg'' (txt e)),
      sh_response_error = (\<lambda>e. JSONMap 500 ''msg'' (case e of None \<Rightarrow> werr | Some e \<Rightarrow> txt e))\<rparr>"

text \<open>\<open>registerRoutes\<close>: only the third option is set.\<close>

definition server_options :: strict_options where
  "server_options =
     \<lparr>RequestErrorHandlerFunc = None, HandlerErrorFunc = None,
      ResponseErrorHandlerFunc = Some (\<lambda>e. case e of
        None \<Rightarrow> JSONMap 500 ''error'' ''internal server error''
      | Some e \<Rightarrow> JSONMap (fst (error_response e)) ''error'' (snd (error_response e)))\<rparr>"

section \<open>Response objects\<close>

datatype 'a response_object = JSON200 'a | JSON400 string | JSON404 string

text \<open>
  One \<open>Visit\<close> method: the object is encoded before anything is written; the flag is the error of either
  step. \<open>write_ok\<close>: writing to the client works.
\<close>

definition visit_json :: "bool \<Rightarrow> nat \<Rightarrow> string option \<Rightarrow> bool \<times> response_write list" where
  "visit_json write_ok code encoded =
     (case encoded of None \<Rightarrow> (True, []) | Some buf \<Rightarrow> (\<not> write_ok, [JSONBody code buf]))"

definition visit_object ::
  "('a \<Rightarrow> string option) \<Rightarrow> (string \<Rightarrow> string option) \<Rightarrow> bool \<Rightarrow> 'a response_object \<Rightarrow> bool \<times> response_write list" where
  "visit_object encode encode_error write_ok r =
     (case r of
        JSON200 x \<Rightarrow> visit_json write_ok 200 (encode x)
      | JSON400 e \<Rightarrow> visit_json write_ok 400 (encode_error e)
      | JSON404 e \<Rightarrow> visit_json write_ok 404 (encode_error e))"

text \<open>\<open>encoding/json\<close> on the response types.\<close>

record api_json =
  aj_status :: "string \<Rightarrow> string option"
  aj_error :: "string \<Rightarrow> string option"
  aj_upload :: "uuid \<Rightarrow> string option"
  aj_functions :: "function_entity list \<Rightarrow> string option"
  aj_invocations :: "invocation_response list \<Rightarrow> string option"
  aj_details :: "details_response \<Rightarrow> string option"

definition VisitExecuteLambdaResponse :: "api_json \<Rightarrow> bool \<Rightarrow> string \<Rightarrow> bool \<times> response_write list" where
  "VisitExecuteLambdaResponse J write_ok response = visit_json write_ok 200 (aj_status J response)"

definition VisitGetFunctionInvocationsResponse ::
  "api_json \<Rightarrow> bool \<Rightarrow> invocation_response list response_object \<Rightarrow> bool \<times> response_write list" where
  "VisitGetFunctionInvocationsResponse J = visit_object (aj_invocations J) (aj_error J)"

definition VisitGetFunctionStatusResponse ::
  "api_json \<Rightarrow> bool \<Rightarrow> string response_object \<Rightarrow> bool \<times> response_write list" where
  "VisitGetFunctionStatusResponse J = visit_object (aj_status J) (aj_error J)"

definition VisitGetHealthResponse :: "api_json \<Rightarrow> bool \<Rightarrow> string \<Rightarrow> bool \<times> response_write list" where
  "VisitGetHealthResponse J write_ok response = visit_json write_ok 200 (aj_status J response)"

definition VisitGetInvocationDetailsResponse ::
  "api_json \<Rightarrow> bool \<Rightarrow> details_response response_object \<Rightarrow> bool \<times> response_write list" where
  "VisitGetInvocationDetailsResponse J = visit_object (aj_details J) (aj_error J)"

definition VisitGetUserFunctionsResponse ::
  "api_json \<Rightarrow> bool \<Rightarrow> function_entity list response_object \<Rightarrow> bool \<times> response_write list" where
  "VisitGetUserFunctionsResponse J = visit_object (aj_functions J) (aj_error J)"

definition VisitUploadLambdaResponse :: "api_json \<Rightarrow> bool \<Rightarrow> uuid \<Rightarrow> bool \<times> response_write list" where
  "VisitUploadLambdaResponse J write_ok response = visit_json write_ok 200 (aj_upload J response)"

lemmas visit_defs = VisitExecuteLambdaResponse_def VisitGetFunctionInvocationsResponse_def
  VisitGetFunctionStatusResponse_def VisitGetHealthResponse_def VisitGetInvocationDetailsResponse_def
  VisitGetUserFunctionsResponse_def VisitUploadLambdaResponse_def

section \<open>The strict handlers\<close>

text \<open>
  The end of every method: the handler's error, the visited response or the error of visiting it. A panic
  unwinds to gin's recovery, which answers 500. The object of a reply is the one its status names.
\<close>

definition strict_respond ::
  "strict_handler \<Rightarrow> (nat \<Rightarrow> 'a \<Rightarrow> bool \<times> response_write list) \<Rightarrow> 'a reply \<Rightarrow> response_write list" where
  "strict_respond sh visit r =
     (case r of
        Error e \<Rightarrow> [sh_handler_error sh e]
      | Reply status x \<Rightarrow> (case visit status x of (err, ws) \<Rightarrow> if err then ws @ [sh_response_error sh None] else ws)
      | Panic \<Rightarrow> [StatusOnly 500])"

definition status_object :: "nat \<Rightarrow> string \<Rightarrow> string response_object" where
  "status_object status text = (if status = 404 then JSON404 text else if status = 400 then JSON400 text else JSON200 text)"

text \<open>What \<open>ShouldBindJSON\<close> makes of the body: end of input, an error, or a value.\<close>

datatype 'j bound = BindEOF | BindError string | BoundTo 'j

definition strict_ExecuteLambda ::
  "strict_handler \<Rightarrow> api_json \<Rightarrow> bool \<Rightarrow> (string \<Rightarrow> 'j option \<Rightarrow> 's \<Rightarrow> unit reply \<times> 's) \<Rightarrow> 'j bound \<Rightarrow> string \<Rightarrow> 's \<Rightarrow>
   response_write list \<times> 's" where
  "strict_ExecuteLambda sh J write_ok ssi body functionId s =
     (let run = (\<lambda>b. case ssi functionId b s of
            (r, s') \<Rightarrow> (strict_respond sh (\<lambda>_ _. VisitExecuteLambdaResponse J write_ok ''ok'') r, s'))
      in case body of
           BindError e \<Rightarrow> ([sh_request_error sh e], s)
         | BindEOF \<Rightarrow> run None
         | BoundTo j \<Rightarrow> run (Some j))"

definition strict_GetFunctionInvocations ::
  "strict_handler \<Rightarrow> api_json \<Rightarrow> bool \<Rightarrow> (uuid \<Rightarrow> 's \<Rightarrow> invocation_response list reply \<times> 's) \<Rightarrow> uuid \<Rightarrow> 's \<Rightarrow>
   response_write list \<times> 's" where
  "strict_GetFunctionInvocations sh J write_ok ssi functionId s =
     (case ssi functionId s of
        (r, s') \<Rightarrow> (strict_respond sh (\<lambda>_ x. VisitGetFunctionInvocationsResponse J write_ok (JSON200 x)) r, s'))"

definition strict_GetFunctionStatus ::
  "strict_handler \<Rightarrow> api_json \<Rightarrow> bool \<Rightarrow> (uuid \<Rightarrow> 's \<Rightarrow> string reply \<times> 's) \<Rightarrow> uuid \<Rightarrow> 's \<Rightarrow>
   response_write list \<times> 's" where
  "strict_GetFunctionStatus sh J write_ok ssi functionId s =
     (case ssi functionId s of
        (r, s') \<Rightarrow>
          (strict_respond sh (\<lambda>st x. VisitGetFunctionStatusResponse J write_ok (status_object st x)) r, s'))"

definition strict_GetHealth ::
  "strict_handler \<Rightarrow> api_json \<Rightarrow> bool \<Rightarrow> string reply \<Rightarrow> 's \<Rightarrow> response_write list \<times> 's" where
  "strict_GetHealth sh J write_ok ssi s = (strict_respond sh (\<lambda>_. VisitGetHealthResponse J write_ok) ssi, s)"

definition strict_GetInvocationDetails ::
  "strict_handler \<Rightarrow> api_json \<Rightarrow> bool \<Rightarrow> (uuid \<Rightarrow> 's \<Rightarrow> details_response reply \<times> 's) \<Rightarrow> uuid \<Rightarrow> 's \<Rightarrow>
   response_write list \<times> 's" where
  "strict_GetInvocationDetails sh J write_ok ssi invocationId s =
     (case ssi invocationId s of
        (r, s') \<Rightarrow> (strict_respond sh (\<lambda>_ x. VisitGetInvocationDetailsResponse J write_ok (JSON200 x)) r, s'))"

definition strict_GetUserFunctions ::
  "strict_handler \<Rightarrow> api_json \<Rightarrow> bool \<Rightarrow> ('s \<Rightarrow> function_entity list reply \<times> 's) \<Rightarrow> 's \<Rightarrow> response_write list \<times> 's" where
  "strict_GetUserFunctions sh J write_ok ssi s =
     (case ssi s of
        (r, s') \<Rightarrow> (strict_respond sh (\<lambda>_ x. VisitGetUserFunctionsResponse J write_ok (JSON200 x)) r, s'))"

text \<open>\<open>MultipartReader\<close> fails with a text or gives the parts.\<close>

definition strict_UploadLambda ::
  "strict_handler \<Rightarrow> api_json \<Rightarrow> bool \<Rightarrow> (part option list \<Rightarrow> 's \<Rightarrow> uuid reply \<times> 's) \<Rightarrow> string + part option list \<Rightarrow> 's \<Rightarrow>
   response_write list \<times> 's" where
  "strict_UploadLambda sh J write_ok ssi multipart s =
     (case multipart of
        Inl e \<Rightarrow> ([sh_request_error sh e], s)
      | Inr body \<Rightarrow>
          (case ssi body s of
             (r, s') \<Rightarrow> (strict_respond sh (\<lambda>_. VisitUploadLambdaResponse J write_ok) r, s')))"

lemmas strict_defs = strict_ExecuteLambda_def strict_GetFunctionInvocations_def strict_GetFunctionStatus_def
  strict_GetHealth_def strict_GetInvocationDetails_def strict_GetUserFunctions_def strict_UploadLambda_def


section \<open>The wrappers and the routes\<close>

text \<open>
  \<open>bind\<close> is the runtime library's reading of a path parameter: an error text or the value.
  \<open>RegisterHandlers\<close> passes no options, so the error handler is the default one and there are no handler
  middlewares. \<open>registerRoutes\<close> passes no strict middlewares either; the loop over those is left out.
\<close>

definition wrapper_ErrorHandler :: "string \<Rightarrow> nat \<Rightarrow> response_write" where
  "wrapper_ErrorHandler err statusCode = JSONMap statusCode ''msg'' err"

definition bind_param ::
  "(string \<Rightarrow> string + 'p) \<Rightarrow> string \<Rightarrow> ('p \<Rightarrow> 's \<Rightarrow> response_write list \<times> 's) \<Rightarrow> (string \<rightharpoonup> string) \<Rightarrow> 's \<Rightarrow>
   response_write list \<times> 's" where
  "bind_param bind name handler params s =
     (case bind (case params name of None \<Rightarrow> [] | Some v \<Rightarrow> v) of
        Inl e \<Rightarrow> ([wrapper_ErrorHandler (''Invalid format for parameter '' @ name @ '': '' @ e) 400], s)
      | Inr p \<Rightarrow> handler p s)"

text \<open>The loop over the handler middlewares: what each writes, whether it aborts, and the state after it.\<close>

fun run_middlewares ::
  "('s \<Rightarrow> response_write list \<times> bool \<times> 's) list \<Rightarrow> ('s \<Rightarrow> response_write list \<times> 's) \<Rightarrow> 's \<Rightarrow> response_write list \<times> 's" where
  "run_middlewares [] handler s = handler s"
| "run_middlewares (middleware # ms) handler s =
     (case middleware s of
        (ws, aborted, s') \<Rightarrow>
          if aborted then (ws, s') else (case run_middlewares ms handler s' of (ws', s'') \<Rightarrow> (ws @ ws', s'')))"

definition wrapper_ExecuteLambda ::
  "(string \<Rightarrow> string + string) \<Rightarrow> ('s \<Rightarrow> response_write list \<times> bool \<times> 's) list \<Rightarrow> (string \<Rightarrow> 's \<Rightarrow> response_write list \<times> 's) \<Rightarrow> (string \<rightharpoonup> string) \<Rightarrow> 's \<Rightarrow>
   response_write list \<times> 's" where
  "wrapper_ExecuteLambda bind mws handler = bind_param bind ''functionId'' (\<lambda>p. run_middlewares mws (handler p))"

definition wrapper_GetFunctionInvocations ::
  "(string \<Rightarrow> string + uuid) \<Rightarrow> ('s \<Rightarrow> response_write list \<times> bool \<times> 's) list \<Rightarrow> (uuid \<Rightarrow> 's \<Rightarrow> response_write list \<times> 's) \<Rightarrow> (string \<rightharpoonup> string) \<Rightarrow> 's \<Rightarrow>
   response_write list \<times> 's" where
  "wrapper_GetFunctionInvocations bind mws handler = bind_param bind ''function_id'' (\<lambda>p. run_middlewares mws (handler p))"

definition wrapper_GetFunctionStatus ::
  "(string \<Rightarrow> string + uuid) \<Rightarrow> ('s \<Rightarrow> response_write list \<times> bool \<times> 's) list \<Rightarrow> (uuid \<Rightarrow> 's \<Rightarrow> response_write list \<times> 's) \<Rightarrow> (string \<rightharpoonup> string) \<Rightarrow> 's \<Rightarrow>
   response_write list \<times> 's" where
  "wrapper_GetFunctionStatus bind mws handler = bind_param bind ''function_id'' (\<lambda>p. run_middlewares mws (handler p))"

definition wrapper_GetInvocationDetails ::
  "(string \<Rightarrow> string + uuid) \<Rightarrow> ('s \<Rightarrow> response_write list \<times> bool \<times> 's) list \<Rightarrow> (uuid \<Rightarrow> 's \<Rightarrow> response_write list \<times> 's) \<Rightarrow> (string \<rightharpoonup> string) \<Rightarrow> 's \<Rightarrow>
   response_write list \<times> 's" where
  "wrapper_GetInvocationDetails bind mws handler = bind_param bind ''invocation_id'' (\<lambda>p. run_middlewares mws (handler p))"

definition wrapper_GetHealth ::
  "('s \<Rightarrow> response_write list \<times> bool \<times> 's) list \<Rightarrow> ('s \<Rightarrow> response_write list \<times> 's) \<Rightarrow> 's \<Rightarrow> response_write list \<times> 's" where
  "wrapper_GetHealth mws handler = run_middlewares mws handler"

definition wrapper_GetUserFunctions ::
  "('s \<Rightarrow> response_write list \<times> bool \<times> 's) list \<Rightarrow> ('s \<Rightarrow> response_write list \<times> 's) \<Rightarrow> 's \<Rightarrow> response_write list \<times> 's" where
  "wrapper_GetUserFunctions mws handler = run_middlewares mws handler"

definition wrapper_UploadLambda ::
  "('s \<Rightarrow> response_write list \<times> bool \<times> 's) list \<Rightarrow> ('s \<Rightarrow> response_write list \<times> 's) \<Rightarrow> 's \<Rightarrow> response_write list \<times> 's" where
  "wrapper_UploadLambda mws handler = run_middlewares mws handler"

lemma run_middlewares_none: "run_middlewares [] handler = handler"
  by (rule ext) simp

lemma wrappers_plain [simp]:
  "wrapper_ExecuteLambda bind [] h1 = bind_param bind ''functionId'' h1"
  "wrapper_GetFunctionInvocations bind' [] h2 = bind_param bind' ''function_id'' h2"
  "wrapper_GetFunctionStatus bind' [] h2 = bind_param bind' ''function_id'' h2"
  "wrapper_GetInvocationDetails bind' [] h2 = bind_param bind' ''invocation_id'' h2"
  "wrapper_GetHealth [] h = h" "wrapper_GetUserFunctions [] h = h" "wrapper_UploadLambda [] h = h"
  by (simp_all add: run_middlewares_none wrapper_ExecuteLambda_def wrapper_GetFunctionInvocations_def
      wrapper_GetFunctionStatus_def wrapper_GetInvocationDetails_def wrapper_GetHealth_def wrapper_GetUserFunctions_def
      wrapper_UploadLambda_def)

datatype operation =
    OpExecuteLambda | OpGetFunctionInvocations | OpGetFunctionStatus | OpGetHealth
  | OpGetInvocationDetails | OpGetUserFunctions | OpUploadLambda

type_synonym route = "string \<times> string \<times> operation"

definition RegisterHandlersWithOptions :: "string \<Rightarrow> route list" where
  "RegisterHandlersWithOptions baseURL =
     [(''POST'', baseURL @ ''/execute/:functionId'', OpExecuteLambda),
      (''GET'', baseURL @ ''/functions/:function_id/invocations'', OpGetFunctionInvocations),
      (''GET'', baseURL @ ''/functions/:function_id/status'', OpGetFunctionStatus),
      (''GET'', baseURL @ ''/health'', OpGetHealth),
      (''GET'', baseURL @ ''/invocations/:invocation_id'', OpGetInvocationDetails),
      (''GET'', baseURL @ ''/list-functions'', OpGetUserFunctions),
      (''POST'', baseURL @ ''/upload-lambda'', OpUploadLambda)]"

definition RegisterHandlers :: "route list" where
  "RegisterHandlers = RegisterHandlersWithOptions []"

text \<open>
  gin's documented matching: a segment \<open>:name\<close> takes one segment that is not empty, any other segment
  only itself. A router is documented to take the route of the table that matches when it is the only one.
\<close>

fun segments_match :: "string list \<Rightarrow> string list \<Rightarrow> (string \<rightharpoonup> string) option" where
  "segments_match [] [] = Some (\<lambda>_. None)"
| "segments_match (p # ps) (x # xs) =
     (case segments_match ps xs of
        None \<Rightarrow> None
      | Some m \<Rightarrow>
          if has_prefix p '':'' then (if x = [] then None else Some (m(drop 1 p \<mapsto> x)))
          else if p = x then Some m else None)"
| "segments_match _ _ = None"

definition route_match :: "string \<Rightarrow> string \<Rightarrow> route \<Rightarrow> (string \<rightharpoonup> string) option" where
  "route_match verb path r =
     (case r of (m, pattern, _) \<Rightarrow>
        if m = verb then segments_match (str_split pattern ''/'') (str_split path ''/'') else None)"

type_synonym router = "route list \<Rightarrow> string \<Rightarrow> string \<Rightarrow> (route \<times> (string \<rightharpoonup> string)) option"

definition router_documented :: "router \<Rightarrow> bool" where
  "router_documented gin \<longleftrightarrow>
     (\<forall>table verb path r m. filter (\<lambda>r. route_match verb path r \<noteq> None) table = [r] \<longrightarrow>
        route_match verb path r = Some m \<longrightarrow> gin table verb path = Some (r, m)) \<and>
     (\<forall>table verb path. list_all (\<lambda>r. route_match verb path r = None) table \<longrightarrow> gin table verb path = None)"

section \<open>The server\<close>

text \<open>What the server changes: the database, the event bus, and the messages and objects it sent.\<close>

record world =
  w_db :: pg
  w_bus :: "event bus"
  w_sent :: "execute_message list"
  w_objects :: "string list"

text \<open>
  Around it: the router and the runner of the middlewares, the clock, the identifiers it makes up next,
  the object store, the broker, and the libraries that encode and decode.
\<close>

record 'j server_env =
  se_gin :: router
  se_gin_runs :: "auth_call list \<Rightarrow> bool"
  se_over_limit :: "request \<Rightarrow> bool"
  se_parse_time :: "string \<Rightarrow> int option"
  se_clock :: int
  se_aes :: "string \<Rightarrow> string \<Rightarrow> string"
  se_kek :: string
  se_ustr :: "uuid \<Rightarrow> string"
  se_parse_uuid :: "string \<Rightarrow> uuid option"
  se_bind_string :: "string \<Rightarrow> string + string"
  se_bind_uuid :: "string \<Rightarrow> string + uuid"
  se_fresh_object :: uuid
  se_fresh :: uuid
  se_now :: timestamp
  se_put_object :: "string \<Rightarrow> string \<Rightarrow> bool"
  se_get_object :: "string \<Rightarrow> string option"
  se_publish :: "execute_message \<Rightarrow> bool"
  se_bind_json :: "string \<Rightarrow> 'j bound"
  se_marshal :: "'j option \<Rightarrow> string option"
  se_multipart :: "request \<Rightarrow> string + part option list"
  se_json :: api_json
  se_write_ok :: bool
  se_err_text :: "handler_error \<Rightarrow> string"
  se_write_err :: string

definition server_strict :: "'j server_env \<Rightarrow> strict_handler" where
  "server_strict E = NewStrictHandlerWithOptions (se_err_text E) (se_write_err E) server_options"

text \<open>A handler that only uses the database, on the server's state.\<close>

definition on_db :: "(pg \<Rightarrow> 'a \<times> pg) \<Rightarrow> world \<Rightarrow> 'a \<times> world" where
  "on_db f w = (case f (w_db w) of (r, s') \<Rightarrow> (r, w\<lparr>w_db := s'\<rparr>))"

definition run_operation ::
  "'j server_env \<Rightarrow> uuid option \<Rightarrow> request \<Rightarrow> operation \<Rightarrow> (string \<rightharpoonup> string) \<Rightarrow> world \<Rightarrow> response_write list \<times> world" where
  "run_operation E user r op params w =
     (let sh = server_strict E; J = se_json E; ok = se_write_ok E in
      case op of
        OpExecuteLambda \<Rightarrow>
          wrapper_ExecuteLambda (se_bind_string E) []
            (strict_ExecuteLambda sh J ok
               (\<lambda>fid body w.
                  case ExecuteLambda (se_parse_uuid E) (se_fresh E) (se_now E) (se_publish E) (se_marshal E body) fid (w_db w) of
                    (rep, sent, s') \<Rightarrow>
                      (rep, w\<lparr>w_db := s', w_sent := w_sent w @ (case sent of None \<Rightarrow> [] | Some m \<Rightarrow> [m])\<rparr>))
               (se_bind_json E (case rq_body r of None \<Rightarrow> [] | Some b \<Rightarrow> b))) params w
      | OpGetFunctionInvocations \<Rightarrow>
          wrapper_GetFunctionInvocations (se_bind_uuid E) []
            (strict_GetFunctionInvocations sh J ok (\<lambda>k. on_db (GetFunctionInvocations user k))) params w
      | OpGetFunctionStatus \<Rightarrow>
          wrapper_GetFunctionStatus (se_bind_uuid E) []
            (strict_GetFunctionStatus sh J ok (\<lambda>k. on_db (GetFunctionStatus k))) params w
      | OpGetHealth \<Rightarrow> wrapper_GetHealth [] (strict_GetHealth sh J ok GetHealth) w
      | OpGetInvocationDetails \<Rightarrow>
          wrapper_GetInvocationDetails (se_bind_uuid E) []
            (strict_GetInvocationDetails sh J ok (\<lambda>k. on_db (GetInvocationDetails (se_get_object E) user k))) params w
      | OpGetUserFunctions \<Rightarrow>
          wrapper_GetUserFunctions [] (strict_GetUserFunctions sh J ok (on_db (GetUserFunctions (se_ustr E) user))) w
      | OpUploadLambda \<Rightarrow>
          wrapper_UploadLambda [] (strict_UploadLambda sh J ok
            (\<lambda>body w.
               let u = UploadLambda (se_ustr E) (se_fresh_object E) (se_fresh E) (se_now E) (se_put_object E)
                         ''oblak-quarantine'' user body (w_bus w) (w_db w)
               in (up_reply u, w\<lparr>w_db := up_db u, w_bus := up_bus u,
                     w_objects := w_objects w @ (case up_object u of None \<Rightarrow> [] | Some p \<Rightarrow> [p])\<rparr>))
            (se_multipart E r)) w)"

text \<open>The user the middleware set, and what an aborting middleware writes.\<close>

fun user_of :: "auth_call list \<Rightarrow> uuid option" where
  "user_of [] = None"
| "user_of (c # cs) = (case user_of cs of Some u \<Rightarrow> Some u | None \<Rightarrow> (case c of SetUser u \<Rightarrow> Some u | _ \<Rightarrow> None))"

definition abort_writes :: "auth_call list \<Rightarrow> response_write list" where
  "abort_writes calls = concat (map (\<lambda>c. case c of
      AbortJSON st \<Rightarrow> [JSONMap st ''error'' ''unauthorized''] | AbortStatus st \<Rightarrow> [StatusOnly st] | _ \<Rightarrow> []) calls)"

text \<open>The key lookup is a statement of its own, made whenever the authentication is reached on a private route.\<close>

definition serve :: "'j server_env \<Rightarrow> request \<Rightarrow> world \<Rightarrow> response_write list \<times> world" where
  "serve E r w =
     (case se_gin E RegisterHandlers (rq_method r) (rq_path r) of
        None \<Rightarrow> ([StatusOnly 404], w)
      | Some ((_, pattern, op), params) \<Rightarrow>
          let r' = r\<lparr>rq_full_path := pattern\<rparr>;
              lookup = (\<lambda>c. GetAuthKey (se_aes E) (se_kek E) c (w_db w));
              calls = server_chain (se_over_limit E) (se_parse_time E) (\<lambda>c. fst (lookup c)) (se_clock E) r';
              w' = (if se_over_limit E r' \<or> isPublic pattern then w
                    else w\<lparr>w_db := snd (lookup (fst (credentials_of r')))\<rparr>) in
          if se_gin_runs E calls then run_operation E (user_of calls) r' op params w'
          else (abort_writes calls, w'))"


section \<open>Routing\<close>

lemma route_segments:
  "str_split ''/execute/:functionId'' ''/'' = ['''', ''execute'', '':functionId'']"
  "str_split ''/functions/:function_id/invocations'' ''/'' = ['''', ''functions'', '':function_id'', ''invocations'']"
  "str_split ''/functions/:function_id/status'' ''/'' = ['''', ''functions'', '':function_id'', ''status'']"
  "str_split ''/health'' ''/'' = ['''', ''health'']"
  "str_split ''/invocations/:invocation_id'' ''/'' = ['''', ''invocations'', '':invocation_id'']"
  "str_split ''/list-functions'' ''/'' = ['''', ''list-functions'']"
  "str_split ''/upload-lambda'' ''/'' = ['''', ''upload-lambda'']"
  by (simp_all add: str_split_byte)

lemma has_colon: "has_prefix (c # s) '':'' \<longleftrightarrow> c = CHR '':''" "\<not> has_prefix [] '':''"
  by (auto simp: has_prefix_def)

lemma param_segments:
  assumes "CHR ''/'' \<notin> set x"
  shows "str_split (''/functions/'' @ x @ ''/invocations'') ''/'' = ['''', ''functions'', x, ''invocations'']"
    and "str_split (''/functions/'' @ x @ ''/status'') ''/'' = ['''', ''functions'', x, ''status'']"
    and "str_split (''/invocations/'' @ x) ''/'' = ['''', ''invocations'', x]"
    and "str_split (''/execute/'' @ x) ''/'' = ['''', ''execute'', x]"
  using assms split_byte_append[of "CHR ''/''" x] split_byte_idle[of "CHR ''/''" x]
  by (simp_all add: str_split_byte)

lemma table: "RegisterHandlers =
     [(''POST'', ''/execute/:functionId'', OpExecuteLambda),
      (''GET'', ''/functions/:function_id/invocations'', OpGetFunctionInvocations),
      (''GET'', ''/functions/:function_id/status'', OpGetFunctionStatus),
      (''GET'', ''/health'', OpGetHealth),
      (''GET'', ''/invocations/:invocation_id'', OpGetInvocationDetails),
      (''GET'', ''/list-functions'', OpGetUserFunctions),
      (''POST'', ''/upload-lambda'', OpUploadLambda)]"
  by (simp add: RegisterHandlers_def RegisterHandlersWithOptions_def)

lemmas routing = table route_match_def route_segments has_colon

text \<open>The routes of the table do not overlap: every path of an operation has its route and no other.\<close>

lemma routes_taken:
  assumes "router_documented gin" and "CHR ''/'' \<notin> set x" and "x \<noteq> []"
  shows
    "gin RegisterHandlers ''GET'' (''/functions/'' @ x @ ''/invocations'') =
       Some ((''GET'', ''/functions/:function_id/invocations'', OpGetFunctionInvocations), [''function_id'' \<mapsto> x])"
    "gin RegisterHandlers ''GET'' (''/functions/'' @ x @ ''/status'') =
       Some ((''GET'', ''/functions/:function_id/status'', OpGetFunctionStatus), [''function_id'' \<mapsto> x])"
    "gin RegisterHandlers ''GET'' ''/health'' = Some ((''GET'', ''/health'', OpGetHealth), Map.empty)"
    "gin RegisterHandlers ''GET'' (''/invocations/'' @ x) =
       Some ((''GET'', ''/invocations/:invocation_id'', OpGetInvocationDetails), [''invocation_id'' \<mapsto> x])"
    "gin RegisterHandlers ''GET'' ''/list-functions'' = Some ((''GET'', ''/list-functions'', OpGetUserFunctions), Map.empty)"
    "gin RegisterHandlers ''POST'' ''/upload-lambda'' = Some ((''POST'', ''/upload-lambda'', OpUploadLambda), Map.empty)"
    "gin RegisterHandlers ''POST'' (''/execute/'' @ x) =
       Some ((''POST'', ''/execute/:functionId'', OpExecuteLambda), [''functionId'' \<mapsto> x])"
proof -
  note seg = param_segments[OF assms(2), simplified] route_segments(4,6,7)
  have taken: "filter (\<lambda>r. route_match verb path r \<noteq> None) RegisterHandlers = [r] \<Longrightarrow>
      route_match verb path r = Some m \<Longrightarrow> gin RegisterHandlers verb path = Some (r, m)" for verb path r m
    using assms(1) unfolding router_documented_def by blast
  show
    "gin RegisterHandlers ''GET'' (''/functions/'' @ x @ ''/invocations'') =
       Some ((''GET'', ''/functions/:function_id/invocations'', OpGetFunctionInvocations), [''function_id'' \<mapsto> x])"
    "gin RegisterHandlers ''GET'' (''/functions/'' @ x @ ''/status'') =
       Some ((''GET'', ''/functions/:function_id/status'', OpGetFunctionStatus), [''function_id'' \<mapsto> x])"
    "gin RegisterHandlers ''GET'' ''/health'' = Some ((''GET'', ''/health'', OpGetHealth), Map.empty)"
    "gin RegisterHandlers ''GET'' (''/invocations/'' @ x) =
       Some ((''GET'', ''/invocations/:invocation_id'', OpGetInvocationDetails), [''invocation_id'' \<mapsto> x])"
    "gin RegisterHandlers ''GET'' ''/list-functions'' = Some ((''GET'', ''/list-functions'', OpGetUserFunctions), Map.empty)"
    "gin RegisterHandlers ''POST'' ''/upload-lambda'' = Some ((''POST'', ''/upload-lambda'', OpUploadLambda), Map.empty)"
    "gin RegisterHandlers ''POST'' (''/execute/'' @ x) =
       Some ((''POST'', ''/execute/:functionId'', OpExecuteLambda), [''functionId'' \<mapsto> x])"
    by (rule taken; simp add: routing seg assms(3))+
qed


section \<open>Authentication in front of the operations\<close>

definition gin_runs_documented :: "(auth_call list \<Rightarrow> bool) \<Rightarrow> bool" where
  "gin_runs_documented runs \<longleftrightarrow>
     abort_stops runs \<and> (\<forall>calls. CallNext \<in> set calls \<and> \<not> list_ex is_abort calls \<longrightarrow> runs calls)"

definition authentic :: "'j server_env \<Rightarrow> request \<Rightarrow> world \<Rightarrow> bool" where
  "authentic E r w \<longleftrightarrow>
     (\<exists>credential t k body.
        parseAuthHeader (rq_authorization r) =
          Some (credential, Sign (rq_method r) (rq_path r) body (rq_date r) (k_secret k)) \<and>
        se_parse_time E (rq_date r) = Some t \<and> \<bar>se_clock E - t\<bar> \<le> max_skew \<and>
        fst (GetAuthKey (se_aes E) (se_kek E) credential (w_db w)) = Inr k \<and> rq_body r = Some body)"

lemma key_lookup_keeps:
  "pg_functions (snd (GetAuthKey aes kek c s)) = pg_functions s \<and>
   pg_invocations (snd (GetAuthKey aes kek c s)) = pg_invocations s"
  by (auto simp: GetAuthKey_def db_exec_def split: list.splits option.splits if_splits prod.splits sum.splits)

lemma abort_statuses:
  "AbortJSON st \<in> set (RequireAuth parse store now r) \<Longrightarrow> st = 401"
  "AbortStatus st \<in> set (RequireAuth parse store now r) \<Longrightarrow> st = 500"
  by (auto simp: RequireAuth_def Let_def split: prod.splits if_splits sum.splits key_error.splits option.splits)

fun abort_status :: "auth_call \<Rightarrow> nat" where
  "abort_status (AbortJSON st) = st"
| "abort_status (AbortStatus st) = st"
| "abort_status _ = 0"

lemma first_abort:
  "list_ex is_abort calls \<Longrightarrow> \<exists>c\<in>set calls. is_abort c \<and> status_sent (abort_writes calls) = abort_status c"
proof (induction calls)
  case (Cons c cs)
  show ?case
  proof (cases "is_abort c")
    case True
    then show ?thesis by (cases c) (auto simp: abort_writes_def status_sent_def)
  next
    case False
    then have "abort_writes (c # cs) = abort_writes cs" by (cases c) (auto simp: abort_writes_def)
    then show ?thesis using Cons False by auto
  qed
qed simp

lemma unauthentic_aborts:
  assumes "\<not> isPublic (rq_full_path r)" and "\<not> authentic E r w"
  shows "list_ex is_abort (RequireAuth (se_parse_time E) (\<lambda>c. fst (GetAuthKey (se_aes E) (se_kek E) c (w_db w))) (se_clock E) r)"
proof (rule ccontr)
  assume run: "\<not> ?thesis"
  show False
    by (rule accepted_trace[OF assms(1) run]) (use assms(2)[unfolded authentic_def] in blast)
qed

lemma abort_status_range:
  "c \<in> set (server_chain over parse store now r) \<Longrightarrow> is_abort c \<Longrightarrow> abort_status c \<in> {401, 429, 500}"
  by (cases c) (auto simp: server_chain_def dest: abort_statuses split: if_splits)

lemma chain_not_run:
  assumes "gin_runs_documented runs" and "\<not> isPublic (rq_full_path r)"
    and "list_ex is_abort (RequireAuth parse store now r)"
  shows "\<not> runs (server_chain over parse store now r)"
    and "status_sent (abort_writes (server_chain over parse store now r)) \<in> {401, 429, 500}"
proof -
  let ?calls = "server_chain over parse store now r"
  have stops: "abort_stops runs" using assms(1) by (simp add: gin_runs_documented_def)
  show "\<not> runs ?calls"
  proof (cases "over r")
    case True
    then show ?thesis using limited_request_stops[of runs over r] stops by simp
  next
    case False
    then show ?thesis
      using next_only_after_abort[of parse store now r] assms(2,3) stops
      by (auto simp: server_chain_def abort_stops_def)
  qed
  have "list_ex is_abort ?calls" using assms(3) by (simp add: server_chain_def)
  then show "status_sent (abort_writes ?calls) \<in> {401, 429, 500}"
    using first_abort[of ?calls] abort_status_range[of _ over parse store now r] by metis
qed

lemma authentic_full_path: "authentic E (r\<lparr>rq_full_path := p\<rparr>) w = authentic E r w"
  by (simp add: authentic_def)

text \<open>
  C6: A request to a route that is not public whose signature, date and key do not check out is answered
  with 401, 429 or 500, and changes no function and no invocation, and publishes no event, message or object.
\<close>

theorem unauthenticated_changes_nothing:
  assumes "gin_runs_documented (se_gin_runs E)"
    and "se_gin E RegisterHandlers (rq_method r) (rq_path r) = Some ((verb, pattern, op), params)"
    and "\<not> isPublic pattern" and "\<not> authentic E r w"
  shows "status_sent (fst (serve E r w)) \<in> {401, 429, 500} \<and>
     pg_functions (w_db (snd (serve E r w))) = pg_functions (w_db w) \<and>
     pg_invocations (w_db (snd (serve E r w))) = pg_invocations (w_db w) \<and>
     w_bus (snd (serve E r w)) = w_bus w \<and> w_sent (snd (serve E r w)) = w_sent w \<and>
     w_objects (snd (serve E r w)) = w_objects w"
proof -
  let ?r = "r\<lparr>rq_full_path := pattern\<rparr>"
  let ?store = "\<lambda>c. fst (GetAuthKey (se_aes E) (se_kek E) c (w_db w))"
  let ?auth = "RequireAuth (se_parse_time E) ?store (se_clock E) ?r"
  let ?calls = "server_chain (se_over_limit E) (se_parse_time E) ?store (se_clock E) ?r"
  have "list_ex is_abort ?auth"
    using unauthentic_aborts[of ?r E w] assms(3,4) by (simp add: authentic_full_path)
  then have "\<not> se_gin_runs E ?calls" and "status_sent (abort_writes ?calls) \<in> {401, 429, 500}"
    using chain_not_run[OF assms(1), of ?r "se_parse_time E" ?store "se_clock E" "se_over_limit E"] assms(3) by simp_all
  then show ?thesis
    using assms(2) key_lookup_keeps by (simp add: serve_def Let_def)
qed


lemma key_lookup_up: "pg_outcomes s = [] \<Longrightarrow> snd (GetAuthKey aes kek c s) = s"
  by (auto simp: GetAuthKey_def db_exec_def split: option.splits)

text \<open>A request signed with a stored key gets to its operation, under the key's user.\<close>

lemma serve_signed:
  assumes "gin_runs_documented (se_gin_runs E)" and "pg_outcomes (w_db w) = []"
    and "se_gin E RegisterHandlers (rq_method r) (rq_path r) = Some ((verb, pattern, op), params)"
    and "\<not> isPublic pattern" and "\<not> se_over_limit E (r\<lparr>rq_full_path := pattern\<rparr>)"
    and "signingEditor fmt authID (k_secret k) sent req = Some r" and "token authID"
    and "fst (GetAuthKey (se_aes E) (se_kek E) authID (w_db w)) = Inr k"
    and "se_parse_time E (fmt sent) = Some t" and "\<bar>se_clock E - t\<bar> \<le> max_skew"
  shows "serve E r w = run_operation E (Some (k_user k)) (r\<lparr>rq_full_path := pattern\<rparr>) op params w"
proof -
  have signed: "signingEditor fmt authID (k_secret k) sent (req\<lparr>rq_full_path := pattern\<rparr>) = Some (r\<lparr>rq_full_path := pattern\<rparr>)"
    using assms(6) by (auto simp: signingEditor_def Let_def split: option.splits)
  have "RequireAuth (se_parse_time E) (\<lambda>c. fst (GetAuthKey (se_aes E) (se_kek E) c (w_db w))) (se_clock E)
      (r\<lparr>rq_full_path := pattern\<rparr>) = [SetUser (k_user k), CallNext]"
    using signed_accepted[where parse = "se_parse_time E" and store = "\<lambda>c. fst (GetAuthKey (se_aes E) (se_kek E) c (w_db w))", OF signed assms(7-10)] assms(4)
    by simp
  moreover have "se_gin_runs E [SetUser (k_user k), CallNext]"
    using assms(1) by (simp add: gin_runs_documented_def)
  ultimately show ?thesis
    using assms(3-5) key_lookup_up[OF assms(2)] by (simp add: serve_def server_chain_def Let_def)
qed

section \<open>Status codes\<close>

lemma server_strict_simps [simp]:
  "sh_request_error (server_strict E) = JSONMap 400 ''msg''"
  "sh_handler_error (server_strict E) = (\<lambda>e. JSONMap 500 ''msg'' (se_err_text E e))"
  "sh_response_error (server_strict E) None = JSONMap 500 ''error'' ''internal server error''"
  by (simp_all add: server_strict_def NewStrictHandlerWithOptions_def server_options_def)

text \<open>
  An error a handler returns is answered with 500 and the error's own text, whichever error it is: the
  mapping of \<open>apperr\<close> errors to their status is installed where only errors of writing a response arrive.
\<close>

lemma handler_error_written:
  "strict_respond (server_strict E) visit (Error e) = [JSONMap 500 ''msg'' (se_err_text E e)]"
  by (simp add: strict_respond_def)

lemma respond_status:
  assumes "\<And>st x. r = Reply st x \<Longrightarrow> list_all (\<lambda>w. write_status w \<in> S) (snd (visit st x))"
    and "\<And>st x. r = Reply st x \<Longrightarrow> snd (visit st x) = [] \<Longrightarrow> fst (visit st x)" and "500 \<in> S"
  shows "status_sent (strict_respond (server_strict E) visit r) \<in> S"
proof (cases r)
  case (Reply st x)
  then show ?thesis
    using assms(1,2)[OF Reply] assms(3)
    by (cases "visit st x"; cases "snd (visit st x)") (auto simp: strict_respond_def status_sent_def)
qed (use assms(3) in \<open>simp_all add: strict_respond_def status_sent_def\<close>)

lemma visit_json_cases:
  "snd (visit_json ok c e) = [] \<and> fst (visit_json ok c e) \<or> (\<exists>b. snd (visit_json ok c e) = [JSONBody c b])"
  by (auto simp: visit_json_def split: option.splits)

lemma visit_json_status:
  "c \<in> S \<Longrightarrow> list_all (\<lambda>w. write_status w \<in> S) (snd (visit_json ok c e))"
  "snd (visit_json ok c e) = [] \<Longrightarrow> fst (visit_json ok c e)"
  using visit_json_cases[of ok c e] by auto

lemma visit_object_200:
  "visit_object enc enc_error ok (JSON200 x) = visit_json ok 200 (enc x)"
  by (simp add: visit_object_def)

lemma bound_status:
  assumes "\<And>p. status_sent (fst (handler p s)) \<in> S" and "400 \<in> S"
  shows "status_sent (fst (bind_param bind name handler params s)) \<in> S"
  using assms by (auto simp: bind_param_def status_sent_def wrapper_ErrorHandler_def split: sum.splits)

definition codes_of :: "operation \<Rightarrow> nat set" where
  "codes_of op = (case op of
     OpGetFunctionStatus \<Rightarrow> {200, 400, 404, 500}
   | OpGetHealth \<Rightarrow> {200, 500}
   | OpGetUserFunctions \<Rightarrow> {200, 500}
   | _ \<Rightarrow> {200, 400, 500})"

text \<open>Each strict handler, with whatever handler behind it.\<close>

lemma strict_statuses:
  assumes "200 \<in> S" and "500 \<in> S"
  shows "status_sent (fst (strict_GetFunctionInvocations (server_strict E) J ok ssi k s)) \<in> S"
    and "status_sent (fst (strict_GetInvocationDetails (server_strict E) J ok ssi' k s)) \<in> S"
    and "status_sent (fst (strict_GetUserFunctions (server_strict E) J ok ssi'' s)) \<in> S"
    and "status_sent (fst (strict_GetHealth (server_strict E) J ok h s)) \<in> S"
    and "400 \<in> S \<Longrightarrow> status_sent (fst (strict_UploadLambda (server_strict E) J ok up parts s)) \<in> S"
    and "400 \<in> S \<Longrightarrow> status_sent (fst (strict_ExecuteLambda (server_strict E) J ok ex body fid s)) \<in> S"
    and "400 \<in> S \<Longrightarrow> 404 \<in> S \<Longrightarrow> status_sent (fst (strict_GetFunctionStatus (server_strict E) J ok st k s)) \<in> S"
proof -
  have json: "status_sent (strict_respond (server_strict E) (\<lambda>st x. visit_json ok (f st) (e st x)) r) \<in> S"
    if "range f \<subseteq> S" for f e and r :: "'x reply"
    using that assms(2) by (intro respond_status visit_json_status) auto
  have eta: "VisitGetHealthResponse J ok = (\<lambda>x. visit_json ok 200 (aj_status J x))"
    "VisitUploadLambdaResponse J ok = (\<lambda>x. visit_json ok 200 (aj_upload J x))"
    by (simp_all add: fun_eq_iff visit_defs)
  note simps = strict_defs eta visit_defs visit_object_200 split_beta
  show "status_sent (fst (strict_GetFunctionInvocations (server_strict E) J ok ssi k s)) \<in> S"
    "status_sent (fst (strict_GetInvocationDetails (server_strict E) J ok ssi' k s)) \<in> S"
    "status_sent (fst (strict_GetUserFunctions (server_strict E) J ok ssi'' s)) \<in> S"
    "status_sent (fst (strict_GetHealth (server_strict E) J ok h s)) \<in> S"
    using json[of "\<lambda>_. 200"] assms by (simp_all add: simps)
  show "status_sent (fst (strict_UploadLambda (server_strict E) J ok up parts s)) \<in> S" if "400 \<in> S"
    using json[of "\<lambda>_. 200"] assms that by (cases parts) (simp_all add: simps status_sent_def[of "[_]"])
  show "status_sent (fst (strict_ExecuteLambda (server_strict E) J ok ex body fid s)) \<in> S" if "400 \<in> S"
    using json[of "\<lambda>_. 200"] assms that by (cases body) (simp_all add: simps Let_def status_sent_def[of "[_]"])
  have "visit_object enc enc_error ok (status_object st x) =
      visit_json ok (if st = 404 then 404 else if st = 400 then 400 else 200)
        (if st = 404 \<or> st = 400 then enc_error x else enc x)" for enc enc_error st x
    by (simp add: visit_object_def status_object_def)
  then show "status_sent (fst (strict_GetFunctionStatus (server_strict E) J ok st k s)) \<in> S" if "400 \<in> S" "404 \<in> S"
    using json[of "\<lambda>st. if st = 404 then 404 else if st = 400 then 400 else 200"] assms that
    by (auto simp: simps image_subset_iff)
qed

lemma operation_status: "status_sent (fst (run_operation E user r op params w)) \<in> codes_of op"
proof -
  have codes: "200 \<in> codes_of op" "500 \<in> codes_of op" by (auto simp: codes_of_def split: operation.splits)
  note st = strict_statuses[OF codes]
  show ?thesis
  proof (cases op)
    case OpExecuteLambda
    show ?thesis
      using st unfolding OpExecuteLambda run_operation_def Let_def operation.case wrappers_plain
      by (intro bound_status; simp add: codes_of_def)
  next
    case OpGetFunctionInvocations
    show ?thesis
      using st unfolding OpGetFunctionInvocations run_operation_def Let_def operation.case wrappers_plain
      by (intro bound_status; simp add: codes_of_def)
  next
    case OpGetFunctionStatus
    show ?thesis
      using st unfolding OpGetFunctionStatus run_operation_def Let_def operation.case wrappers_plain
      by (intro bound_status; simp add: codes_of_def)
  next
    case OpGetHealth
    show ?thesis
      using st unfolding OpGetHealth run_operation_def Let_def operation.case 
      by (simp add: codes_of_def)
  next
    case OpGetInvocationDetails
    show ?thesis
      using st unfolding OpGetInvocationDetails run_operation_def Let_def operation.case wrappers_plain
      by (intro bound_status; simp add: codes_of_def)
  next
    case OpGetUserFunctions
    show ?thesis
      using st unfolding OpGetUserFunctions run_operation_def Let_def operation.case 
      by (simp add: codes_of_def)
  next
    case OpUploadLambda
    show ?thesis
      using st unfolding OpUploadLambda run_operation_def Let_def operation.case 
      by (simp add: codes_of_def)
  qed
qed

lemma chain_aborts_or_calls:
  "list_ex is_abort (server_chain over parse store now r) \<or> CallNext \<in> set (server_chain over parse store now r)"
  by (auto simp: server_chain_def RequireAuth_def Let_def split: prod.splits sum.splits key_error.splits option.splits)



section \<open>The public route\<close>

lemma execution_stored:
  assumes "pg_outcomes s = []" and "find_function s k = Some f" and "f_drive_path f = Some drive"
    and "inv_status_of s fresh = None" and "parse text = Some k" and "length payload \<le> 1048576"
    and "publish \<lparr>em_invocation = fresh, em_code_object = f_archive_path f, em_deps_object = drive, em_payload = payload\<rparr>"
  obtains s' where
    "ExecuteLambda parse fresh now publish (Some payload) text s = (Reply 200 (),
       Some \<lparr>em_invocation = fresh, em_code_object = f_archive_path f, em_deps_object = drive, em_payload = payload\<rparr>, s')"
    "inv_status_of s' = (inv_status_of s)(fresh \<mapsto> InvPending)"
proof -
  have f: "f \<in> set (pg_functions s)" "f_id f = k"
    using assms(2) by (auto simp: find_function_def find_Some_iff)
  have new: "\<forall>r\<in>set (pg_invocations s). i_id r \<noteq> fresh"
    using assms(4) by (auto simp: inv_status_of_def status_in_def find_None_iff)
  let ?i = "\<lparr>i_id = fresh, i_function = k, i_status = InvPending, i_time = now, i_end_time = None, i_log_path = None\<rparr>"
  have created: "create_invocation fresh k now s = (Inr ?i, s\<lparr>pg_invocations := pg_invocations s @ [?i]\<rparr>)"
    using f new assms(1) by (auto simp: create_invocation_def db_exec_def Let_def)
  then have "ExecuteLambda parse fresh now publish (Some payload) text s = (Reply 200 (),
       Some \<lparr>em_invocation = fresh, em_code_object = f_archive_path f, em_deps_object = drive, em_payload = payload\<rparr>,
       s\<lparr>pg_invocations := pg_invocations s @ [?i]\<rparr>)"
    using assms f(2) by (simp add: ExecuteLambda_def validatePayload_def MaxPayloadSize_def get_function_by_id_def db_exec_def)
  then show thesis using that created_pending[OF created] by blast
qed

text \<open>Without a look at the headers, a request for the route gets to its operation.\<close>

lemma execute_route:
  fixes E :: "'j server_env"
  assumes "router_documented (se_gin E)" and "gin_runs_documented (se_gin_runs E)" and "\<And>q. \<not> se_over_limit E q"
    and "rq_method r = ''POST''" and "rq_path r = ''/execute/'' @ x" and "CHR ''/'' \<notin> set x" and "x \<noteq> []"
  shows "serve E r w = run_operation E None (r\<lparr>rq_full_path := ''/execute/:functionId''\<rparr>) OpExecuteLambda [''functionId'' \<mapsto> x] w"
proof -
  have public: "isPublic ''/execute/:functionId''" by (simp add: isPublic_def has_prefix_def)
  then have "server_chain (se_over_limit E) (se_parse_time E) store (se_clock E) (r\<lparr>rq_full_path := ''/execute/:functionId''\<rparr>) = [CallNext]"
    for store using assms(3) by (simp add: server_chain_def RequireAuth_def)
  moreover have "se_gin_runs E [CallNext]" using assms(2) by (simp add: gin_runs_documented_def)
  ultimately show ?thesis using routes_taken(7)[OF assms(1,6,7)] assms(3-5) public by (simp add: serve_def Let_def)
qed

text \<open>
  C39: Executing is open to everyone: whatever the headers of a request to \<open>/execute/:functionId\<close> say, and whoever
  owns the function, the server stores a PENDING invocation, sends the message that runs it, and answers 200.
\<close>

theorem anonymous_request_executes:
  fixes E :: "'j server_env"
  assumes "router_documented (se_gin E)" and "gin_runs_documented (se_gin_runs E)" and "\<And>q. \<not> se_over_limit E q"
    and "rq_method r = ''POST''" and "rq_path r = ''/execute/'' @ x" and "CHR ''/'' \<notin> set x" and "x \<noteq> []"
    and "se_bind_string E x = Inr x" and "se_parse_uuid E x = Some k"
    and "rq_body r = Some body" and "se_bind_json E body = BoundTo j" and "se_marshal E (Some j) = Some payload"
    and "length payload \<le> 1048576" and "pg_outcomes (w_db w) = []"
    and "find_function (w_db w) k = Some f" and "f_drive_path f = Some drive"
    and "inv_status_of (w_db w) (se_fresh E) = None"
    and "m = \<lparr>em_invocation = se_fresh E, em_code_object = f_archive_path f, em_deps_object = drive, em_payload = payload\<rparr>"
    and "se_publish E m" and "se_write_ok E" and "aj_status (se_json E) ''ok'' = Some answer"
  shows "fst (serve E r w) = [JSONBody 200 answer] \<and> w_sent (snd (serve E r w)) = w_sent w @ [m] \<and>
     inv_status_of (w_db (snd (serve E r w))) = (inv_status_of (w_db w))(se_fresh E \<mapsto> InvPending)"
proof -
  note served = execute_route[OF assms(1-7)]
  obtain s' where run: "ExecuteLambda (se_parse_uuid E) (se_fresh E) (se_now E) (se_publish E) (Some payload) x (w_db w) =
        (Reply 200 (), Some m, s')" "inv_status_of s' = (inv_status_of (w_db w))(se_fresh E \<mapsto> InvPending)"
    using execution_stored[of "w_db w" k f drive "se_fresh E" "se_parse_uuid E" x payload "se_publish E"] assms(9,13-19) by blast
  show ?thesis
    using assms(8,10-12,20,21) run
    by (simp add: served run_operation_def Let_def bind_param_def strict_ExecuteLambda_def strict_respond_def
        VisitExecuteLambdaResponse_def visit_json_def)
qed


section \<open>A server at work\<close>

text \<open>A router and a runner of middlewares as documented, and a server made of them.\<close>

definition first_route :: router where
  "first_route routes verb path =
     (case filter (\<lambda>r. route_match verb path r \<noteq> None) routes of
        [] \<Rightarrow> None
      | r # _ \<Rightarrow> map_option (Pair r) (route_match verb path r))"

lemma first_route_documented: "router_documented first_route"
  by (auto simp: router_documented_def first_route_def list_all_iff filter_empty_conv split: list.splits)

lemma sample_gin_documented: "gin_runs_documented sample_gin"
proof -
  have "CallNext \<in> set calls \<Longrightarrow> \<not> list_ex is_abort calls \<Longrightarrow> sample_gin calls" for calls
    by (induction calls) auto
  then show ?thesis using sample_gin_stops by (simp add: gin_runs_documented_def)
qed

text \<open>Identifiers are written as decimal numbers.\<close>

definition sample_json :: api_json where
  "sample_json = \<lparr>aj_status = Some, aj_error = Some, aj_upload = (\<lambda>k. Some (nat_digits (unat k))),
     aj_functions = (\<lambda>fs. Some (replicate (length fs) CHR ''f'')), aj_invocations = (\<lambda>is. Some []), aj_details = (\<lambda>_. Some [])\<rparr>"

definition sample_server :: "nat server_env" where
  "sample_server =
     \<lparr>se_gin = first_route, se_gin_runs = sample_gin, se_over_limit = (\<lambda>_. False), se_parse_time = (\<lambda>_. Some 0),
      se_clock = 60, se_aes = (\<lambda>_ b. b), se_kek = ''kek'', se_ustr = (\<lambda>k. nat_digits (unat k)),
      se_parse_uuid = (\<lambda>s. Some (of_int (digits_value s))), se_bind_string = Inr, se_bind_uuid = (\<lambda>s. Inr (of_int (digits_value s))),
      se_fresh_object = 2, se_fresh = 8, se_now = 50, se_put_object = (\<lambda>_ _. True), se_get_object = (\<lambda>_. None),
      se_publish = (\<lambda>_. True), se_bind_json = (\<lambda>s. if s = [] then BindEOF else BoundTo (length s)),
      se_marshal = (\<lambda>_. Some ''{}''), se_multipart = (\<lambda>_. Inr [Some \<lparr>pt_form = ''function'', pt_file = ''f.tar.gz''\<rparr>]),
      se_json = sample_json, se_write_ok = True, se_err_text = (\<lambda>_. ''failed''), se_write_err = ''broken pipe''\<rparr>"

definition sample_world :: world where
  "sample_world = \<lparr>w_db = sample_pg FnReady InvDone, w_bus = [[]], w_sent = [], w_objects = []\<rparr>"

definition bare_request :: "string \<Rightarrow> string \<Rightarrow> request" where
  "bare_request verb path = \<lparr>rq_full_path = [], rq_method = verb, rq_path = path, rq_authorization = [], rq_date = [], rq_body = Some []\<rparr>"

lemma sample_server_gin: "se_gin sample_server = first_route" "se_gin_runs sample_server = sample_gin"
  by (simp_all add: sample_server_def)

theorem unauthenticated_changes_nothing_witness:
  "w_objects (snd (serve sample_server (bare_request ''POST'' ''/upload-lambda'') sample_world)) = [] \<and>
   status_sent (fst (serve sample_server (bare_request ''POST'' ''/upload-lambda'') sample_world)) \<in> {401, 429, 500}"
proof -
  let ?r = "bare_request ''POST'' ''/upload-lambda''"
  have route: "se_gin sample_server RegisterHandlers (rq_method ?r) (rq_path ?r) =
      Some ((''POST'', ''/upload-lambda'', OpUploadLambda), Map.empty)"
    using routes_taken(6)[OF first_route_documented, of "''a''"] by (simp add: sample_server_gin bare_request_def)
  have "\<not> isPublic ''/upload-lambda''" by (simp add: isPublic_def has_prefix_def)
  moreover have "\<not> authentic sample_server ?r sample_world"
    by (simp add: authentic_def bare_request_def parseAuthHeader_def has_prefix_def)
  ultimately show ?thesis
    using unauthenticated_changes_nothing[OF _ route, of sample_world] sample_gin_documented
    by (simp add: sample_server_gin sample_world_def)
qed


text \<open>A world whose one function is ready.\<close>

definition ready_world :: world where
  "ready_world = sample_world\<lparr>w_db := (sample_pg FnReady InvDone)\<lparr>pg_functions :=
     [\<lparr>f_id = 7, f_user = 1, f_status = FnReady, f_archive_path = ''a'', f_drive_path = Some ''d''\<rparr>]\<rparr>\<rparr>"

theorem anonymous_request_executes_witness:
  "w_sent (snd (serve sample_server ((bare_request ''POST'' ''/execute/7'')\<lparr>rq_body := Some ''{}''\<rparr>) ready_world)) =
   [\<lparr>em_invocation = 8, em_code_object = ''a'', em_deps_object = ''d'', em_payload = ''{}''\<rparr>]"
  using anonymous_request_executes[of sample_server "(bare_request ''POST'' ''/execute/7'')\<lparr>rq_body := Some ''{}''\<rparr>" "''7''" 7
      "''{}''" 2 "''{}''" ready_world
      "\<lparr>f_id = 7, f_user = 1, f_status = FnReady, f_archive_path = ''a'', f_drive_path = Some ''d''\<rparr>" "''d''"
      "\<lparr>em_invocation = 8, em_code_object = ''a'', em_deps_object = ''d'', em_payload = ''{}''\<rparr>" "''ok''"]
    first_route_documented sample_gin_documented
  by (simp add: sample_server_def sample_json_def bare_request_def ready_world_def sample_world_def sample_pg_def
      digits_value_def find_function_def inv_status_of_def status_in_def)

end
