(* ===== verification/ApiClient.thy ===== *)
theory ApiClient
  imports Handlers CliConfig
begin

text \<open>
  The client half of \<open>internal/api/api.gen.go\<close> and \<open>NewSignedClient\<close> of \<open>internal/cli/client/client.go\<close>: how
  a request is built for an operation, edited and sent, and how its response is parsed. The resolution
  of the operation's path against the server's URL is that of \<open>net/url\<close>; parsing a URL, the styling of path
  parameters, the transport and JSON are parameters.
\<close>

section \<open>URLs\<close>

record url =
  u_scheme :: string
  u_host :: string
  u_path :: string

fun resolve_elems :: "string list \<Rightarrow> string list \<Rightarrow> string list" where
  "resolve_elems kept [] = kept"
| "resolve_elems kept (e # es) =
     (if e = ''.'' then resolve_elems kept es
      else if e = ''..'' then resolve_elems (butlast kept) es
      else resolve_elems (kept @ [e]) es)"

text \<open>\<open>resolvePath\<close> of \<open>net/url\<close>: a relative reference replaces what follows the last slash of the base.\<close>

definition up_to_last_slash :: "string \<Rightarrow> string" where
  "up_to_last_slash base = rev (dropWhile (\<lambda>c. c \<noteq> CHR ''/'') (rev base))"

definition resolve_path :: "string \<Rightarrow> string \<Rightarrow> string" where
  "resolve_path base ref =
     (let full = (if ref = [] then base else if hd ref \<noteq> CHR ''/'' then up_to_last_slash base @ ref else ref);
          elems = str_split full ''/'';
          r = CHR ''/'' # str_join (resolve_elems [] elems) ''/'' @ (if last elems \<in> {''.'', ''..''} then ''/'' else [])
      in if full = [] then []
         else if prefix ''//'' r then drop 1 r else r)"

text \<open>\<open>URL.Parse\<close> of a reference without a scheme or a host.\<close>

definition url_Parse :: "(string \<Rightarrow> url option) \<Rightarrow> url \<Rightarrow> string \<Rightarrow> url option" where
  "url_Parse parse u ref =
     (case parse ref of
        None \<Rightarrow> None
      | Some v \<Rightarrow>
          Some (if u_scheme v \<noteq> [] \<or> u_host v \<noteq> [] then v else u\<lparr>u_path := resolve_path (u_path u) (u_path v)\<rparr>))"

section \<open>Building requests\<close>

record client_request =
  cr_url :: url
  cr_content_type :: "string option"
  cr_request :: request

record client_env =
  ce_parse_url :: "string \<Rightarrow> url option"
  ce_style_string :: "string \<Rightarrow> string \<Rightarrow> string option"
  ce_style_uuid :: "string \<Rightarrow> uuid \<Rightarrow> string option"
  ce_new_request_ok :: "string \<Rightarrow> url \<Rightarrow> bool"

text \<open>
  The part the builders share, from \<open>url.Parse(server)\<close> on. The body of a request without one is the empty
  text, as the editor that signs it takes it to be.
\<close>

definition build_request ::
  "client_env \<Rightarrow> string \<Rightarrow> string \<Rightarrow> string \<Rightarrow> string \<Rightarrow> string option \<Rightarrow> client_request option" where
  "build_request C server operationPath verb body contentType =
     (case ce_parse_url C server of
        None \<Rightarrow> None
      | Some serverURL \<Rightarrow>
          let operationPath' = (if has_prefix operationPath ''/'' then ''.'' @ operationPath else operationPath) in
          (case url_Parse (ce_parse_url C) serverURL operationPath' of
             None \<Rightarrow> None
           | Some queryURL \<Rightarrow>
               if \<not> ce_new_request_ok C verb queryURL then None
               else Some \<lparr>cr_url = queryURL, cr_content_type = contentType,
                      cr_request = \<lparr>rq_full_path = [], rq_method = verb, rq_path = u_path queryURL,
                        rq_authorization = [], rq_date = [], rq_body = Some body\<rparr>\<rparr>))"

definition NewExecuteLambdaRequestWithBody ::
  "client_env \<Rightarrow> string \<Rightarrow> string \<Rightarrow> string \<Rightarrow> string \<Rightarrow> client_request option" where
  "NewExecuteLambdaRequestWithBody C server functionId contentType body =
     (case ce_style_string C ''functionId'' functionId of
        None \<Rightarrow> None
      | Some pathParam0 \<Rightarrow> build_request C server (''/execute/'' @ pathParam0) ''POST'' body (Some contentType))"

definition NewExecuteLambdaRequest ::
  "client_env \<Rightarrow> ('j \<Rightarrow> string option) \<Rightarrow> string \<Rightarrow> string \<Rightarrow> 'j \<Rightarrow> client_request option" where
  "NewExecuteLambdaRequest C marshal server functionId body =
     (case marshal body of
        None \<Rightarrow> None
      | Some buf \<Rightarrow> NewExecuteLambdaRequestWithBody C server functionId ''application/json'' buf)"

definition NewGetFunctionInvocationsRequest :: "client_env \<Rightarrow> string \<Rightarrow> uuid \<Rightarrow> client_request option" where
  "NewGetFunctionInvocationsRequest C server functionId =
     (case ce_style_uuid C ''function_id'' functionId of
        None \<Rightarrow> None
      | Some pathParam0 \<Rightarrow> build_request C server (''/functions/'' @ pathParam0 @ ''/invocations'') ''GET'' [] None)"

definition NewGetFunctionStatusRequest :: "client_env \<Rightarrow> string \<Rightarrow> uuid \<Rightarrow> client_request option" where
  "NewGetFunctionStatusRequest C server functionId =
     (case ce_style_uuid C ''function_id'' functionId of
        None \<Rightarrow> None
      | Some pathParam0 \<Rightarrow> build_request C server (''/functions/'' @ pathParam0 @ ''/status'') ''GET'' [] None)"

definition NewGetHealthRequest :: "client_env \<Rightarrow> string \<Rightarrow> client_request option" where
  "NewGetHealthRequest C server = build_request C server ''/health'' ''GET'' [] None"

definition NewGetInvocationDetailsRequest :: "client_env \<Rightarrow> string \<Rightarrow> uuid \<Rightarrow> client_request option" where
  "NewGetInvocationDetailsRequest C server invocationId =
     (case ce_style_uuid C ''invocation_id'' invocationId of
        None \<Rightarrow> None
      | Some pathParam0 \<Rightarrow> build_request C server (''/invocations/'' @ pathParam0) ''GET'' [] None)"

definition NewGetUserFunctionsRequest :: "client_env \<Rightarrow> string \<Rightarrow> client_request option" where
  "NewGetUserFunctionsRequest C server = build_request C server ''/list-functions'' ''GET'' [] None"

definition NewUploadLambdaRequestWithBody :: "client_env \<Rightarrow> string \<Rightarrow> string \<Rightarrow> string \<Rightarrow> client_request option" where
  "NewUploadLambdaRequestWithBody C server contentType body =
     build_request C server ''/upload-lambda'' ''POST'' body (Some contentType)"

lemmas request_defs = NewExecuteLambdaRequestWithBody_def NewGetFunctionInvocationsRequest_def
  NewGetFunctionStatusRequest_def NewGetHealthRequest_def NewGetInvocationDetailsRequest_def
  NewGetUserFunctionsRequest_def NewUploadLambdaRequestWithBody_def

section \<open>The client\<close>

record http_response =
  hs_status :: nat
  hs_content_type :: string
  hs_body :: "string option"

datatype client_error = NotBuilt | EditorFailed | NotSent | BodyUnreadable | BadJson

type_synonym editor = "client_request \<Rightarrow> client_request option"

record client =
  cl_server :: string
  cl_do :: "(client_request \<Rightarrow> http_response option) option"
  cl_editors :: "editor list"

type_synonym client_option = "client \<Rightarrow> client option"

definition WithHTTPClient :: "(client_request \<Rightarrow> http_response option) \<Rightarrow> client_option" where
  "WithHTTPClient doer c = Some (c\<lparr>cl_do := Some doer\<rparr>)"

definition WithRequestEditorFn :: "editor \<Rightarrow> client_option" where
  "WithRequestEditorFn fn c = Some (c\<lparr>cl_editors := cl_editors c @ [fn]\<rparr>)"

definition WithBaseURL :: "(string \<Rightarrow> url option) \<Rightarrow> (url \<Rightarrow> string) \<Rightarrow> string \<Rightarrow> client_option" where
  "WithBaseURL parse text baseURL c =
     (case parse baseURL of None \<Rightarrow> None | Some newBaseURL \<Rightarrow> Some (c\<lparr>cl_server := text newBaseURL\<rparr>))"

fun apply_options :: "client_option list \<Rightarrow> client \<Rightarrow> client option" where
  "apply_options [] c = Some c"
| "apply_options (opt # opts) c = (case opt c of None \<Rightarrow> None | Some c' \<Rightarrow> apply_options opts c')"

text \<open>\<open>std\<close> is Go's own HTTP client.\<close>

definition NewClient ::
  "(client_request \<Rightarrow> http_response option) \<Rightarrow> string \<Rightarrow> client_option list \<Rightarrow> client option" where
  "NewClient std server opts =
     (case apply_options opts \<lparr>cl_server = server, cl_do = None, cl_editors = []\<rparr> of
        None \<Rightarrow> None
      | Some c \<Rightarrow>
          let c' = (if has_suffix (cl_server c) ''/'' then c else c\<lparr>cl_server := cl_server c @ ''/''\<rparr>) in
          Some (if cl_do c' = None then c'\<lparr>cl_do := Some std\<rparr> else c'))"

definition NewClientWithResponses ::
  "(client_request \<Rightarrow> http_response option) \<Rightarrow> string \<Rightarrow> client_option list \<Rightarrow> client option" where
  "NewClientWithResponses std server opts =
     (case NewClient std server opts of None \<Rightarrow> None | Some c \<Rightarrow> Some c)"

definition sign_request :: "(int \<Rightarrow> string) \<Rightarrow> string \<Rightarrow> string \<Rightarrow> int \<Rightarrow> editor" where
  "sign_request fmt authID secretKey now q =
     (case signingEditor fmt authID secretKey now (cr_request q) of
        None \<Rightarrow> None | Some r \<Rightarrow> Some (q\<lparr>cr_request := r\<rparr>))"

definition NewSignedClient ::
  "(client_request \<Rightarrow> http_response option) \<Rightarrow> (int \<Rightarrow> string) \<Rightarrow> int \<Rightarrow> profile \<Rightarrow> client option" where
  "NewSignedClient std fmt now p =
     NewClientWithResponses std (''http://'' @ pf_endpoint p)
       [WithRequestEditorFn (sign_request fmt (pf_auth_id p) (pf_secret_key p) now)]"

fun run_editors :: "editor list \<Rightarrow> client_request \<Rightarrow> client_request option" where
  "run_editors [] q = Some q"
| "run_editors (e # es) q = (case e q of None \<Rightarrow> None | Some q' \<Rightarrow> run_editors es q')"

definition applyEditors :: "client \<Rightarrow> editor list \<Rightarrow> client_request \<Rightarrow> client_request option" where
  "applyEditors c additionalEditors q =
     (case run_editors (cl_editors c) q of None \<Rightarrow> None | Some q' \<Rightarrow> run_editors additionalEditors q')"


text \<open>What every method does with the request its builder made.\<close>

definition client_send ::
  "client \<Rightarrow> editor list \<Rightarrow> client_request option \<Rightarrow> client_error + http_response" where
  "client_send c reqEditors built =
     (case built of
        None \<Rightarrow> Inl NotBuilt
      | Some q \<Rightarrow>
          (case applyEditors c reqEditors q of
             None \<Rightarrow> Inl EditorFailed
           | Some q' \<Rightarrow>
               (case Option.bind (cl_do c) (\<lambda>doer. doer q') of None \<Rightarrow> Inl NotSent | Some rsp \<Rightarrow> Inr rsp)))"

definition client_ExecuteLambdaWithBody ::
  "client_env \<Rightarrow> client \<Rightarrow> string \<Rightarrow> string \<Rightarrow> string \<Rightarrow> editor list \<Rightarrow> client_error + http_response" where
  "client_ExecuteLambdaWithBody C c functionId contentType body reqEditors =
     client_send c reqEditors (NewExecuteLambdaRequestWithBody C (cl_server c) functionId contentType body)"

definition client_ExecuteLambda ::
  "client_env \<Rightarrow> ('j \<Rightarrow> string option) \<Rightarrow> client \<Rightarrow> string \<Rightarrow> 'j \<Rightarrow> editor list \<Rightarrow> client_error + http_response" where
  "client_ExecuteLambda C marshal c functionId body reqEditors =
     client_send c reqEditors (NewExecuteLambdaRequest C marshal (cl_server c) functionId body)"

definition client_GetFunctionInvocations ::
  "client_env \<Rightarrow> client \<Rightarrow> uuid \<Rightarrow> editor list \<Rightarrow> client_error + http_response" where
  "client_GetFunctionInvocations C c functionId reqEditors =
     client_send c reqEditors (NewGetFunctionInvocationsRequest C (cl_server c) functionId)"

definition client_GetFunctionStatus :: "client_env \<Rightarrow> client \<Rightarrow> uuid \<Rightarrow> editor list \<Rightarrow> client_error + http_response" where
  "client_GetFunctionStatus C c functionId reqEditors =
     client_send c reqEditors (NewGetFunctionStatusRequest C (cl_server c) functionId)"

definition client_GetHealth :: "client_env \<Rightarrow> client \<Rightarrow> editor list \<Rightarrow> client_error + http_response" where
  "client_GetHealth C c reqEditors = client_send c reqEditors (NewGetHealthRequest C (cl_server c))"

definition client_GetInvocationDetails :: "client_env \<Rightarrow> client \<Rightarrow> uuid \<Rightarrow> editor list \<Rightarrow> client_error + http_response" where
  "client_GetInvocationDetails C c invocationId reqEditors =
     client_send c reqEditors (NewGetInvocationDetailsRequest C (cl_server c) invocationId)"

definition client_GetUserFunctions :: "client_env \<Rightarrow> client \<Rightarrow> editor list \<Rightarrow> client_error + http_response" where
  "client_GetUserFunctions C c reqEditors = client_send c reqEditors (NewGetUserFunctionsRequest C (cl_server c))"

definition client_UploadLambdaWithBody ::
  "client_env \<Rightarrow> client \<Rightarrow> string \<Rightarrow> string \<Rightarrow> editor list \<Rightarrow> client_error + http_response" where
  "client_UploadLambdaWithBody C c contentType body reqEditors =
     client_send c reqEditors (NewUploadLambdaRequestWithBody C (cl_server c) contentType body)"

lemmas client_defs = client_ExecuteLambdaWithBody_def client_ExecuteLambda_def client_GetFunctionInvocations_def
  client_GetFunctionStatus_def client_GetHealth_def client_GetInvocationDetails_def client_GetUserFunctions_def
  client_UploadLambdaWithBody_def

section \<open>Parsing responses\<close>

record 'a parsed =
  ps_body :: string
  ps_status :: nat
  ps_json200 :: "'a option"
  ps_json400 :: "string option"
  ps_json404 :: "string option"

definition is_json :: "http_response \<Rightarrow> bool" where
  "is_json rsp \<longleftrightarrow> str_contains (hs_content_type rsp) ''json''"

text \<open>
  The accessors of the response types, which take the response behind the parsed one when there is one; the text of a
  status (\<open>200 OK\<close>) is the HTTP library's.
\<close>

definition StatusCode :: "http_response option \<Rightarrow> nat" where
  "StatusCode httpResponse = (case httpResponse of Some rsp \<Rightarrow> hs_status rsp | None \<Rightarrow> 0)"

definition StatusText :: "(http_response \<Rightarrow> string) \<Rightarrow> http_response option \<Rightarrow> string" where
  "StatusText text_of httpResponse = (case httpResponse of Some rsp \<Rightarrow> text_of rsp | None \<Rightarrow> [])"

definition ContentType :: "http_response option \<Rightarrow> string" where
  "ContentType httpResponse = (case httpResponse of Some rsp \<Rightarrow> hs_content_type rsp | None \<Rightarrow> [])"

text \<open>A response type that has only the object of status 200.\<close>

definition parse_only_200 :: "(string \<Rightarrow> 'a option) \<Rightarrow> http_response \<Rightarrow> client_error + 'a parsed" where
  "parse_only_200 decode rsp =
     (case hs_body rsp of
        None \<Rightarrow> Inl BodyUnreadable
      | Some bodyBytes \<Rightarrow>
          let response = \<lparr>ps_body = bodyBytes, ps_status = hs_status rsp, ps_json200 = None, ps_json400 = None, ps_json404 = None\<rparr> in
          if is_json rsp \<and> hs_status rsp = 200 then
            (case decode bodyBytes of None \<Rightarrow> Inl BadJson | Some dest \<Rightarrow> Inr (response\<lparr>ps_json200 := Some dest\<rparr>))
          else Inr response)"

text \<open>A response type that has objects of status 200, 400 and 404.\<close>

definition parse_all ::
  "(string \<Rightarrow> 'a option) \<Rightarrow> (string \<Rightarrow> string option) \<Rightarrow> http_response \<Rightarrow> client_error + 'a parsed" where
  "parse_all decode decode_error rsp =
     (case hs_body rsp of
        None \<Rightarrow> Inl BodyUnreadable
      | Some bodyBytes \<Rightarrow>
          let response = \<lparr>ps_body = bodyBytes, ps_status = hs_status rsp, ps_json200 = None, ps_json400 = None, ps_json404 = None\<rparr> in
          if is_json rsp \<and> hs_status rsp = 200 then
            (case decode bodyBytes of None \<Rightarrow> Inl BadJson | Some dest \<Rightarrow> Inr (response\<lparr>ps_json200 := Some dest\<rparr>))
          else if is_json rsp \<and> hs_status rsp = 400 then
            (case decode_error bodyBytes of None \<Rightarrow> Inl BadJson | Some dest \<Rightarrow> Inr (response\<lparr>ps_json400 := Some dest\<rparr>))
          else if is_json rsp \<and> hs_status rsp = 404 then
            (case decode_error bodyBytes of None \<Rightarrow> Inl BadJson | Some dest \<Rightarrow> Inr (response\<lparr>ps_json404 := Some dest\<rparr>))
          else Inr response)"

text \<open>\<open>encoding/json\<close> on the response types, in the other direction.\<close>

record api_decode =
  ad_status :: "string \<Rightarrow> string option"
  ad_error :: "string \<Rightarrow> string option"
  ad_upload :: "string \<Rightarrow> string option"
  ad_functions :: "string \<Rightarrow> function_entity list option"
  ad_invocations :: "string \<Rightarrow> invocation_response list option"
  ad_details :: "string \<Rightarrow> details_response option"

text \<open>A parsed response has the body and the code of the response it was parsed from.\<close>

lemma parsed_status_code:
  "parse_only_200 dec rsp = Inr rep \<Longrightarrow> ps_status rep = StatusCode (Some rsp) \<and> hs_body rsp = Some (ps_body rep)"
  "parse_all dec dec_err rsp = Inr rep' \<Longrightarrow> ps_status rep' = StatusCode (Some rsp) \<and> hs_body rsp = Some (ps_body rep')"
  by (auto simp: parse_only_200_def parse_all_def StatusCode_def Let_def split: option.splits if_splits)

definition ParseExecuteLambdaResponse :: "api_decode \<Rightarrow> http_response \<Rightarrow> client_error + string parsed" where
  "ParseExecuteLambdaResponse D = parse_only_200 (ad_status D)"

definition ParseGetFunctionInvocationsResponse ::
  "api_decode \<Rightarrow> http_response \<Rightarrow> client_error + invocation_response list parsed" where
  "ParseGetFunctionInvocationsResponse D = parse_all (ad_invocations D) (ad_error D)"

definition ParseGetFunctionStatusResponse :: "api_decode \<Rightarrow> http_response \<Rightarrow> client_error + string parsed" where
  "ParseGetFunctionStatusResponse D = parse_all (ad_status D) (ad_error D)"

definition ParseGetHealthResponse :: "api_decode \<Rightarrow> http_response \<Rightarrow> client_error + string parsed" where
  "ParseGetHealthResponse D = parse_only_200 (ad_status D)"

definition ParseGetInvocationDetailsResponse ::
  "api_decode \<Rightarrow> http_response \<Rightarrow> client_error + details_response parsed" where
  "ParseGetInvocationDetailsResponse D = parse_all (ad_details D) (ad_error D)"

definition ParseGetUserFunctionsResponse ::
  "api_decode \<Rightarrow> http_response \<Rightarrow> client_error + function_entity list parsed" where
  "ParseGetUserFunctionsResponse D = parse_all (ad_functions D) (ad_error D)"

definition ParseUploadLambdaResponse :: "api_decode \<Rightarrow> http_response \<Rightarrow> client_error + string parsed" where
  "ParseUploadLambdaResponse D = parse_only_200 (ad_upload D)"

lemmas parse_defs = ParseExecuteLambdaResponse_def ParseGetFunctionInvocationsResponse_def
  ParseGetFunctionStatusResponse_def ParseGetHealthResponse_def ParseGetInvocationDetailsResponse_def
  ParseGetUserFunctionsResponse_def ParseUploadLambdaResponse_def

definition ExecuteLambdaWithBodyWithResponse ::
  "client_env \<Rightarrow> api_decode \<Rightarrow> client \<Rightarrow> string \<Rightarrow> string \<Rightarrow> string \<Rightarrow> editor list \<Rightarrow> client_error + string parsed" where
  "ExecuteLambdaWithBodyWithResponse C D c functionId contentType body eds =
     (case client_ExecuteLambdaWithBody C c functionId contentType body eds of
        Inl e \<Rightarrow> Inl e | Inr rsp \<Rightarrow> ParseExecuteLambdaResponse D rsp)"

definition ExecuteLambdaWithResponse ::
  "client_env \<Rightarrow> ('j \<Rightarrow> string option) \<Rightarrow> api_decode \<Rightarrow> client \<Rightarrow> string \<Rightarrow> 'j \<Rightarrow> editor list \<Rightarrow> client_error + string parsed" where
  "ExecuteLambdaWithResponse C marshal D c functionId body eds =
     (case client_ExecuteLambda C marshal c functionId body eds of
        Inl e \<Rightarrow> Inl e | Inr rsp \<Rightarrow> ParseExecuteLambdaResponse D rsp)"

definition GetFunctionInvocationsWithResponse ::
  "client_env \<Rightarrow> api_decode \<Rightarrow> client \<Rightarrow> uuid \<Rightarrow> editor list \<Rightarrow> client_error + invocation_response list parsed" where
  "GetFunctionInvocationsWithResponse C D c functionId eds =
     (case client_GetFunctionInvocations C c functionId eds of
        Inl e \<Rightarrow> Inl e | Inr rsp \<Rightarrow> ParseGetFunctionInvocationsResponse D rsp)"

definition GetFunctionStatusWithResponse ::
  "client_env \<Rightarrow> api_decode \<Rightarrow> client \<Rightarrow> uuid \<Rightarrow> editor list \<Rightarrow> client_error + string parsed" where
  "GetFunctionStatusWithResponse C D c functionId eds =
     (case client_GetFunctionStatus C c functionId eds of
        Inl e \<Rightarrow> Inl e | Inr rsp \<Rightarrow> ParseGetFunctionStatusResponse D rsp)"

definition GetHealthWithResponse ::
  "client_env \<Rightarrow> api_decode \<Rightarrow> client \<Rightarrow> editor list \<Rightarrow> client_error + string parsed" where
  "GetHealthWithResponse C D c eds =
     (case client_GetHealth C c eds of Inl e \<Rightarrow> Inl e | Inr rsp \<Rightarrow> ParseGetHealthResponse D rsp)"

definition GetInvocationDetailsWithResponse ::
  "client_env \<Rightarrow> api_decode \<Rightarrow> client \<Rightarrow> uuid \<Rightarrow> editor list \<Rightarrow> client_error + details_response parsed" where
  "GetInvocationDetailsWithResponse C D c invocationId eds =
     (case client_GetInvocationDetails C c invocationId eds of
        Inl e \<Rightarrow> Inl e | Inr rsp \<Rightarrow> ParseGetInvocationDetailsResponse D rsp)"

definition GetUserFunctionsWithResponse ::
  "client_env \<Rightarrow> api_decode \<Rightarrow> client \<Rightarrow> editor list \<Rightarrow> client_error + function_entity list parsed" where
  "GetUserFunctionsWithResponse C D c eds =
     (case client_GetUserFunctions C c eds of Inl e \<Rightarrow> Inl e | Inr rsp \<Rightarrow> ParseGetUserFunctionsResponse D rsp)"

definition UploadLambdaWithBodyWithResponse ::
  "client_env \<Rightarrow> api_decode \<Rightarrow> client \<Rightarrow> string \<Rightarrow> string \<Rightarrow> editor list \<Rightarrow> client_error + string parsed" where
  "UploadLambdaWithBodyWithResponse C D c contentType body eds =
     (case client_UploadLambdaWithBody C c contentType body eds of
        Inl e \<Rightarrow> Inl e | Inr rsp \<Rightarrow> ParseUploadLambdaResponse D rsp)"


section \<open>What is built\<close>

text \<open>The paths of the operations consist of lower-case letters, digits, hyphens and slashes.\<close>

definition path_char :: "char \<Rightarrow> bool" where
  "path_char c \<longleftrightarrow>
     (let n = of_char c :: nat in 48 \<le> n \<and> n \<le> 57 \<or> 97 \<le> n \<and> n \<le> 122 \<or> c = CHR ''-'' \<or> c = CHR ''/'')"

lemma path_char_no_dot: "list_all path_char p \<Longrightarrow> CHR ''.'' \<notin> set p \<and> CHR '':'' \<notin> set p"
  by (auto simp: list_all_iff path_char_def Let_def)

lemma split_byte_subset: "x \<in> set (split_byte c s) \<Longrightarrow> set x \<subseteq> set s"
proof (induction s arbitrary: x)
  case (Cons a s)
  then show ?case by (cases "split_byte c s") (fastforce split: if_splits)+
qed simp

lemma plain_no_dot_segments:
  assumes "list_all path_char p" and "x \<in> set (str_split p ''/'')"
  shows "x \<noteq> ''.'' \<and> x \<noteq> ''..''"
  using assms path_char_no_dot[of p] split_byte_subset[of x "CHR ''/''" p] by (auto simp: str_split_byte)

lemma resolve_elems_plain:
  "(\<And>x. x \<in> set es \<Longrightarrow> x \<noteq> ''.'' \<and> x \<noteq> ''..'') \<Longrightarrow> resolve_elems kept es = kept @ es"
  by (induction es arbitrary: kept) auto

lemma str_split_slash: "str_split (''/'' @ p) ''/'' = [] # str_split p ''/''" "str_split (''./'' @ p) ''/'' = ''.'' # str_split p ''/''"
  using str_split_at[of "''/''" "CHR ''/''" "[]" "[]" p] str_split_at[of "''/''" "CHR ''/''" "[]" "''.''" p] by simp_all

text \<open>A plain path taken from the root of the server stays what it is.\<close>

lemma resolve_path_root:
  assumes "list_all path_char p"
  shows "resolve_path ''/'' (''./'' @ p) = ''/'' @ p"
proof -
  note plain = plain_no_dot_segments[OF assms]
  have split: "str_split (CHR ''/'' # CHR ''.'' # CHR ''/'' # p) ''/'' = [] # ''.'' # str_split p ''/''"
    using str_split_slash(1)[of "''./'' @ p"] str_split_slash(2)[of p] by simp
  have kept: "resolve_elems [] ([] # ''.'' # str_split p ''/'') = [] # str_split p ''/''"
    using resolve_elems_plain[of "str_split p ''/''" "[[]]", OF plain] by simp
  have join: "str_join ([] # str_split p ''/'') ''/'' = CHR ''/'' # p"
    by (simp add: str_join_Cons str_join_split)
  have last: "last ([] # ''.'' # str_split p ''/'') \<notin> {''.'', ''..''}"
    using plain[OF last_in_set[OF str_split_nonempty]] by auto
  have up: "up_to_last_slash ''/'' @ ''./'' @ p = CHR ''/'' # CHR ''.'' # CHR ''/'' # p"
    by (simp add: up_to_last_slash_def)
  have "resolve_path ''/'' (''./'' @ p) =
      (let r = CHR ''/'' # str_join (resolve_elems [] ([] # ''.'' # str_split p ''/'')) ''/'' in
       if prefix ''//'' r then drop 1 r else r)"
    unfolding resolve_path_def Let_def using last up split by (simp del: resolve_elems.simps)
  then show ?thesis by (simp only: kept join Let_def) simp
qed

text \<open>
  What is relied on: the URL of a server at the root of a host and a plain relative path parse as
  themselves, a parameter that is a UUID is styled as its text, and a request to a plain URL can be made.
\<close>

definition urls_documented :: "(string \<Rightarrow> url option) \<Rightarrow> string \<Rightarrow> bool" where
  "urls_documented parse endpoint \<longleftrightarrow>
     parse (''http://'' @ endpoint @ ''/'') = Some \<lparr>u_scheme = ''http'', u_host = endpoint, u_path = ''/''\<rparr> \<and>
     (\<forall>p. list_all path_char p \<longrightarrow> parse (''./'' @ p) = Some \<lparr>u_scheme = [], u_host = [], u_path = ''./'' @ p\<rparr>)"

definition client_documented :: "client_env \<Rightarrow> (uuid \<Rightarrow> string) \<Rightarrow> string \<Rightarrow> bool" where
  "client_documented C ustr endpoint \<longleftrightarrow>
     urls_documented (ce_parse_url C) endpoint \<and> (\<forall>name k. ce_style_uuid C name k = Some (ustr k)) \<and>
     (\<forall>verb u. ce_new_request_ok C verb u)"

definition uuid_texts :: "(uuid \<Rightarrow> string) \<Rightarrow> bool" where
  "uuid_texts ustr \<longleftrightarrow> (\<forall>k. ustr k \<noteq> [] \<and> list_all path_char (ustr k) \<and> CHR ''/'' \<notin> set (ustr k))"

definition plain_request :: "string \<Rightarrow> string \<Rightarrow> string \<Rightarrow> string \<Rightarrow> string option \<Rightarrow> client_request" where
  "plain_request endpoint verb path body contentType =
     \<lparr>cr_url = \<lparr>u_scheme = ''http'', u_host = endpoint, u_path = path\<rparr>, cr_content_type = contentType,
      cr_request = \<lparr>rq_full_path = [], rq_method = verb, rq_path = path, rq_authorization = [], rq_date = [],
        rq_body = Some body\<rparr>\<rparr>"

lemma build_request_plain:
  assumes "client_documented C ustr endpoint" and "list_all path_char p"
  shows "build_request C (''http://'' @ endpoint @ ''/'') (''/'' @ p) verb body ct =
     Some (plain_request endpoint verb (''/'' @ p) body ct)"
proof -
  have "ce_parse_url C (''http://'' @ endpoint @ ''/'') = Some \<lparr>u_scheme = ''http'', u_host = endpoint, u_path = ''/''\<rparr>"
    and "ce_parse_url C (''./'' @ p) = Some \<lparr>u_scheme = [], u_host = [], u_path = ''./'' @ p\<rparr>"
    and "ce_new_request_ok C v u" for v u
    using assms by (simp_all add: client_documented_def urls_documented_def)
  then show ?thesis
    using resolve_path_root[OF assms(2)]
    by (simp add: build_request_def url_Parse_def plain_request_def has_prefix_def)
qed

lemma requests_built:
  assumes "client_documented C ustr endpoint" and "uuid_texts ustr"
  shows
    "NewGetFunctionInvocationsRequest C (''http://'' @ endpoint @ ''/'') k =
       Some (plain_request endpoint ''GET'' (''/functions/'' @ ustr k @ ''/invocations'') [] None)"
    "NewGetFunctionStatusRequest C (''http://'' @ endpoint @ ''/'') k =
       Some (plain_request endpoint ''GET'' (''/functions/'' @ ustr k @ ''/status'') [] None)"
    "NewGetHealthRequest C (''http://'' @ endpoint @ ''/'') = Some (plain_request endpoint ''GET'' ''/health'' [] None)"
    "NewGetInvocationDetailsRequest C (''http://'' @ endpoint @ ''/'') k =
       Some (plain_request endpoint ''GET'' (''/invocations/'' @ ustr k) [] None)"
    "NewGetUserFunctionsRequest C (''http://'' @ endpoint @ ''/'') =
       Some (plain_request endpoint ''GET'' ''/list-functions'' [] None)"
    "NewUploadLambdaRequestWithBody C (''http://'' @ endpoint @ ''/'') ct body =
       Some (plain_request endpoint ''POST'' ''/upload-lambda'' body (Some ct))"
proof -
  have style: "ce_style_uuid C name k = Some (ustr k)" for name
    using assms(1) by (simp add: client_documented_def)
  have plain: "list_all path_char (ustr k)" using assms(2) by (simp add: uuid_texts_def)
  note built = build_request_plain[OF assms(1)]
  show
    "NewGetFunctionInvocationsRequest C (''http://'' @ endpoint @ ''/'') k =
       Some (plain_request endpoint ''GET'' (''/functions/'' @ ustr k @ ''/invocations'') [] None)"
    "NewGetFunctionStatusRequest C (''http://'' @ endpoint @ ''/'') k =
       Some (plain_request endpoint ''GET'' (''/functions/'' @ ustr k @ ''/status'') [] None)"
    "NewGetInvocationDetailsRequest C (''http://'' @ endpoint @ ''/'') k =
       Some (plain_request endpoint ''GET'' (''/invocations/'' @ ustr k) [] None)"
    using built[of "''functions/'' @ ustr k @ ''/invocations''"] built[of "''functions/'' @ ustr k @ ''/status''"]
      built[of "''invocations/'' @ ustr k"] plain
    by (simp_all add: request_defs style path_char_def)
  show
    "NewGetHealthRequest C (''http://'' @ endpoint @ ''/'') = Some (plain_request endpoint ''GET'' ''/health'' [] None)"
    "NewGetUserFunctionsRequest C (''http://'' @ endpoint @ ''/'') =
       Some (plain_request endpoint ''GET'' ''/list-functions'' [] None)"
    "NewUploadLambdaRequestWithBody C (''http://'' @ endpoint @ ''/'') ct body =
       Some (plain_request endpoint ''POST'' ''/upload-lambda'' body (Some ct))"
    using built[of "''health''"] built[of "''list-functions''"] built[of "''upload-lambda''"]
    by (simp_all add: request_defs path_char_def)
qed

text \<open>The client the CLI makes: its server ends with a slash, its one editor signs.\<close>

lemma signed_client:
  assumes "pf_endpoint p \<noteq> []" and "last (pf_endpoint p) \<noteq> CHR ''/''"
  shows "NewSignedClient std fmt now p =
     Some \<lparr>cl_server = ''http://'' @ pf_endpoint p @ ''/'', cl_do = Some std,
       cl_editors = [sign_request fmt (pf_auth_id p) (pf_secret_key p) now]\<rparr>"
proof -
  have "last (''http://'' @ pf_endpoint p) \<noteq> CHR ''/''" using assms by simp
  then have "\<not> has_suffix (''http://'' @ pf_endpoint p) ''/''"
    by (auto simp only: has_suffix_def suffix_def last_snoc)
  then show ?thesis
    by (simp add: NewSignedClient_def NewClientWithResponses_def NewClient_def WithRequestEditorFn_def)
qed

lemma client_send_signed:
  "client_send \<lparr>cl_server = srv, cl_do = Some std, cl_editors = [sign_request fmt authID secret now]\<rparr> [] (Some q) =
     (case signingEditor fmt authID secret now (cr_request q) of
        None \<Rightarrow> Inl EditorFailed
      | Some r \<Rightarrow> (case std (q\<lparr>cr_request := r\<rparr>) of None \<Rightarrow> Inl NotSent | Some rsp \<Rightarrow> Inr rsp))"
  by (simp add: client_send_def applyEditors_def sign_request_def split: option.splits)

end
