(* ===== verification/ApiCalls.thy ===== *)
theory ApiCalls
  imports ApiServer ApiClient CliCommands QueueRouter
begin

text \<open>
  Calls from the CLI to the server through both halves of \<open>internal/api/api.gen.go\<close>: the client builds and
  signs a request, the server routes, authenticates and answers it, the client parses the answer. The
  transport delivers requests and responses as they are.
\<close>

section \<open>The transport\<close>

fun write_type :: "response_write \<Rightarrow> string" where
  "write_type (JSONMap _ _ _) = ''application/json; charset=utf-8''"
| "write_type (JSONBody _ _) = ''application/json''"
| "write_type (StatusOnly _) = []"

text \<open>\<open>enc_map\<close> encodes a map of one entry.\<close>

fun write_text :: "(string \<Rightarrow> string \<Rightarrow> string) \<Rightarrow> response_write \<Rightarrow> string" where
  "write_text enc_map (JSONMap _ key text) = enc_map key text"
| "write_text enc_map (JSONBody _ buf) = buf"
| "write_text enc_map (StatusOnly _) = []"

definition response_of :: "(string \<Rightarrow> string \<Rightarrow> string) \<Rightarrow> response_write list \<Rightarrow> http_response" where
  "response_of enc_map ws =
     \<lparr>hs_status = status_sent ws, hs_content_type = (case ws of [] \<Rightarrow> [] | w # _ \<Rightarrow> write_type w),
      hs_body = Some (concat (map (write_text enc_map) ws))\<rparr>"

definition deliver :: "'j server_env \<Rightarrow> (string \<Rightarrow> string \<Rightarrow> string) \<Rightarrow> world \<Rightarrow> client_request \<Rightarrow> http_response option" where
  "deliver E enc_map w q = Some (response_of enc_map (fst (serve E (cr_request q) w)))"

section \<open>What the two sides rely on\<close>

definition json_documented :: "api_json \<Rightarrow> api_decode \<Rightarrow> (uuid \<Rightarrow> string) \<Rightarrow> bool" where
  "json_documented J D ustr \<longleftrightarrow>
     codec (aj_status J) (ad_status D) \<and> codec (aj_error J) (ad_error D) \<and>
     codec (aj_functions J) (ad_functions D) \<and> codec (aj_invocations J) (ad_invocations D) \<and>
     codec (aj_details J) (ad_details D) \<and> (\<forall>k b. aj_upload J k = Some b \<longrightarrow> ad_upload D b = Some (ustr k))"

definition libraries_documented :: "'j server_env \<Rightarrow> client_env \<Rightarrow> api_decode \<Rightarrow> string \<Rightarrow> bool" where
  "libraries_documented E C D endpoint \<longleftrightarrow>
     router_documented (se_gin E) \<and> gin_runs_documented (se_gin_runs E) \<and>
     (\<forall>k. se_bind_uuid E (se_ustr E k) = Inr k) \<and> uuid_texts (se_ustr E) \<and>
     client_documented C (se_ustr E) endpoint \<and> json_documented (se_json E) D (se_ustr E) \<and>
     endpoint \<noteq> [] \<and> last endpoint \<noteq> CHR ''/''"

text \<open>
  The profile holds a key of the user, the clocks differ by at most the tolerated skew, the rate limit is not
  reached, and the server's database answers.
\<close>

definition key_works :: "'j server_env \<Rightarrow> (int \<Rightarrow> string) \<Rightarrow> int \<Rightarrow> profile \<Rightarrow> uuid \<Rightarrow> world \<Rightarrow> bool" where
  "key_works E fmt sent p u w \<longleftrightarrow>
     (\<exists>k. fst (GetAuthKey (se_aes E) (se_kek E) (pf_auth_id p) (w_db w)) = Inr k \<and>
        k_user k = u \<and> k_secret k = pf_secret_key p) \<and>
     token (pf_auth_id p) \<and> (\<exists>t. se_parse_time E (fmt sent) = Some t \<and> \<bar>se_clock E - t\<bar> \<le> max_skew) \<and>
     (\<forall>r. \<not> se_over_limit E r) \<and> pg_outcomes (w_db w) = [] \<and> se_write_ok E"

definition cli_client ::
  "'j server_env \<Rightarrow> (string \<Rightarrow> string \<Rightarrow> string) \<Rightarrow> (int \<Rightarrow> string) \<Rightarrow> int \<Rightarrow> profile \<Rightarrow> world \<Rightarrow> client option" where
  "cli_client E enc_map fmt sent p w = NewSignedClient (deliver E enc_map w) fmt sent p"

section \<open>A signed call\<close>

lemma signed_request:
  "\<exists>r. signingEditor fmt authID secret sent (cr_request (plain_request endpoint verb path body ct)) = Some r \<and>
     rq_method r = verb \<and> rq_path r = path \<and> rq_body r = Some body"
  by (simp add: signingEditor_def plain_request_def Let_def)

text \<open>
  A request the client builds for a route that is not public gets to that route's operation under the user of the
  profile's key, and what the operation writes is the response the client sees.
\<close>

lemma signed_call:
  assumes "libraries_documented E C D (pf_endpoint p)" and "key_works E fmt sent p u w"
    and "cli_client E enc_map fmt sent p w = Some c"
    and "se_gin E RegisterHandlers verb path = Some ((v, pattern, op), params)" and "\<not> isPublic pattern"
  obtains r where "rq_method r = verb" "rq_path r = path" "rq_body r = Some body"
    "client_send c [] (Some (plain_request (pf_endpoint p) verb path body ct)) = Inr (response_of enc_map (fst (serve E r w)))"
    "serve E r w = run_operation E (Some u) (r\<lparr>rq_full_path := pattern\<rparr>) op params w"
proof -
  obtain k t where k: "fst (GetAuthKey (se_aes E) (se_kek E) (pf_auth_id p) (w_db w)) = Inr k" "k_user k = u"
      "k_secret k = pf_secret_key p" and t: "se_parse_time E (fmt sent) = Some t" "\<bar>se_clock E - t\<bar> \<le> max_skew"
    and up: "token (pf_auth_id p)" "\<And>r. \<not> se_over_limit E r" "pg_outcomes (w_db w) = []"
    using assms(2) unfolding key_works_def by blast
  obtain r where signed: "signingEditor fmt (pf_auth_id p) (k_secret k) sent (cr_request (plain_request (pf_endpoint p) verb path body ct)) = Some r"
      and r: "rq_method r = verb" "rq_path r = path" "rq_body r = Some body"
    using signed_request by blast
  have "serve E r w = run_operation E (Some u) (r\<lparr>rq_full_path := pattern\<rparr>) op params w"
    using serve_signed[of E w r v pattern op params fmt "pf_auth_id p" k sent, OF _ up(3) _ assms(5) up(2) signed up(1) k(1) t]
      assms(1,4) r k(2) by (simp add: libraries_documented_def)
  moreover have "c = \<lparr>cl_server = ''http://'' @ pf_endpoint p @ ''/'', cl_do = Some (deliver E enc_map w),
      cl_editors = [sign_request fmt (pf_auth_id p) (pf_secret_key p) sent]\<rparr>"
    using assms(1,3) by (simp add: cli_client_def signed_client libraries_documented_def)
  ultimately show thesis
    using that[of r] r signed k(3) by (simp add: client_send_signed deliver_def)
qed

lemma cli_client_server:
  assumes "libraries_documented E C D (pf_endpoint p)" and "cli_client E enc_map fmt sent p w = Some c"
  shows "cl_server c = ''http://'' @ pf_endpoint p @ ''/''"
  using assms by (auto simp: cli_client_def signed_client libraries_documented_def)

lemma param_written:
  assumes "libraries_documented E C D endpoint"
  shows "se_ustr E k \<noteq> []" and "CHR ''/'' \<notin> set (se_ustr E k)"
    and "bind_param (se_bind_uuid E) name handler [name \<mapsto> se_ustr E k] s = handler k s"
  using assms by (simp_all add: libraries_documented_def uuid_texts_def bind_param_def)

lemma response_json [simp]:
  "is_json (response_of enc_map [JSONBody st b])" "hs_status (response_of enc_map [JSONBody st b]) = st"
  "hs_body (response_of enc_map [JSONBody st b]) = Some b"
  "is_json (response_of enc_map [JSONMap st key text])" "hs_status (response_of enc_map [JSONMap st key text]) = st"
  "hs_body (response_of enc_map [JSONMap st key text]) = Some (enc_map key text)"
  by (simp_all add: response_of_def status_sent_def is_json_def) (simp_all add: str_contains_def)


section \<open>Calls of the CLI\<close>

text \<open>What a strict handler writes for a reply that can be encoded.\<close>

lemmas respond_defs = strict_respond_def visit_object_def visit_json_def status_object_def

lemma written_200:
  assumes "enc x = Some b"
  shows "strict_respond sh (\<lambda>_ x. visit_object enc enc_error True (JSON200 x)) (Reply 200 x) = [JSONBody 200 b]"
  using assms by (simp add: respond_defs)

text \<open>
  The call of \<open>oblak list\<close> returns, as the object of a 200 response, the functions of the key's user with their
  statuses, and no function of another user.
\<close>

lemma list_call_returns_own_functions:
  assumes "libraries_documented E C D (pf_endpoint p)" and "key_works E fmt sent p u w"
    and "cli_client E enc_map fmt sent p w = Some c"
    and "\<And>fs. fst (GetUserFunctions (se_ustr E) (Some u) (w_db w)) = Reply 200 fs \<Longrightarrow> aj_functions (se_json E) fs \<noteq> None"
  shows "\<exists>rep fs. GetUserFunctionsWithResponse C D c [] = Inr rep \<and> ps_status rep = 200 \<and> ps_json200 rep = Some fs \<and>
     aj_functions (se_json E) fs = Some (ps_body rep) \<and>
     map (\<lambda>e. (fe_id e, fe_status e)) fs =
     map (\<lambda>f. (se_ustr E (f_id f), fn_status_text (f_status f))) (filter (\<lambda>f. f_user f = u) (pg_functions (w_db w)))"
proof -
  have route: "se_gin E RegisterHandlers ''GET'' ''/list-functions'' = Some ((''GET'', ''/list-functions'', OpGetUserFunctions), Map.empty)"
    using routes_taken(5)[of "se_gin E" "''a''"] assms(1) by (simp add: libraries_documented_def)
  have closed: "\<not> isPublic ''/list-functions''" by (simp add: isPublic_def has_prefix_def)
  obtain fs where h: "GetUserFunctions (se_ustr E) (Some u) (w_db w) = (Reply 200 fs, w_db w)"
    using assms(2) by (simp add: key_works_def GetUserFunctions_def get_functions_by_user_with_latest_def db_exec_up)
  have listed: "map (\<lambda>e. (fe_id e, fe_status e)) fs =
      map (\<lambda>f. (se_ustr E (f_id f), fn_status_text (f_status f))) (filter (\<lambda>f. f_user f = u) (pg_functions (w_db w)))"
    using h by (auto simp: GetUserFunctions_def get_functions_by_user_with_latest_def createGetUserFunctionsResponse_def
      with_latest_def db_exec_def Let_def split: list.splits if_splits)
  obtain b where b: "aj_functions (se_json E) fs = Some b" using assms(4)[of fs] h by auto
  obtain r where r: "client_send c [] (Some (plain_request (pf_endpoint p) ''GET'' ''/list-functions'' [] None)) =
        Inr (response_of enc_map (fst (serve E r w)))"
      "serve E r w = run_operation E (Some u) (r\<lparr>rq_full_path := ''/list-functions''\<rparr>) OpGetUserFunctions Map.empty w"
    using signed_call[OF assms(1-3) route closed] by metis
  have "fst (serve E r w) = [JSONBody 200 b]"
    using r(2) h b assms(2) written_200[of "aj_functions (se_json E)" fs b]
    by (simp add: run_operation_def Let_def strict_GetUserFunctions_def on_db_def VisitGetUserFunctionsResponse_def key_works_def)
  moreover have "NewGetUserFunctionsRequest C (cl_server c) = Some (plain_request (pf_endpoint p) ''GET'' ''/list-functions'' [] None)"
    using requests_built(5)[of C "se_ustr E" "pf_endpoint p"] assms(1) cli_client_server[OF assms(1,3)]
    by (simp add: libraries_documented_def)
  moreover have "ad_functions D b = Some fs"
    using assms(1) b codec.decode_encode[of "aj_functions (se_json E)" "ad_functions D"]
    by (simp add: libraries_documented_def json_documented_def)
  ultimately show ?thesis
    using r(1) listed b
    by (simp add: GetUserFunctionsWithResponse_def client_GetUserFunctions_def ParseGetUserFunctionsResponse_def parse_all_def)
qed

text \<open>
  The call of \<open>oblak details\<close>: the details the handler computed, or a 500 with the text of its error, or, when the
  handler panicked, a 500 without a body.
\<close>

lemma details_call:
  assumes "libraries_documented E C D (pf_endpoint p)" and "key_works E fmt sent p u w"
    and "cli_client E enc_map fmt sent p w = Some c"
    and "fst (GetInvocationDetails (se_get_object E) (Some u) k (w_db w)) = r"
    and "\<And>d. r = Reply 200 d \<Longrightarrow> aj_details (se_json E) d \<noteq> None"
  shows "\<exists>rep. GetInvocationDetailsWithResponse C D c k [] = Inr rep \<and>
     (case r of
        Reply st d \<Rightarrow> ps_status rep = 200 \<and> ps_json200 rep = Some d
      | Error e \<Rightarrow> ps_status rep = 500 \<and> ps_json200 rep = None \<and> ps_body rep = enc_map ''msg'' (se_err_text E e)
      | Panic \<Rightarrow> ps_status rep = 500 \<and> ps_json200 rep = None \<and> ps_body rep = [])"
proof -
  let ?path = "''/invocations/'' @ se_ustr E k"
  note param = param_written[OF assms(1), where k = k]
  have route: "se_gin E RegisterHandlers ''GET'' ?path =
      Some ((''GET'', ''/invocations/:invocation_id'', OpGetInvocationDetails), [''invocation_id'' \<mapsto> se_ustr E k])"
    using routes_taken(4)[of "se_gin E" "se_ustr E k"] assms(1) param(1,2) by (simp add: libraries_documented_def)
  have closed: "\<not> isPublic ''/invocations/:invocation_id''" by (simp add: isPublic_def has_prefix_def)
  obtain q where q: "client_send c [] (Some (plain_request (pf_endpoint p) ''GET'' ?path [] None)) =
        Inr (response_of enc_map (fst (serve E q w)))"
      "serve E q w = run_operation E (Some u) (q\<lparr>rq_full_path := ''/invocations/:invocation_id''\<rparr>) OpGetInvocationDetails
         [''invocation_id'' \<mapsto> se_ustr E k] w"
    using signed_call[OF assms(1-3) route closed] by metis
  have built: "NewGetInvocationDetailsRequest C (cl_server c) k = Some (plain_request (pf_endpoint p) ''GET'' ?path [] None)"
    using requests_built(4)[of C "se_ustr E" "pf_endpoint p"] assms(1) cli_client_server[OF assms(1,3)]
    by (simp add: libraries_documented_def)
  have up: "se_write_ok E" using assms(2) by (simp add: key_works_def)
  have dec: "aj_details (se_json E) x = Some b \<Longrightarrow> ad_details D b = Some x" for x b
    using assms(1) by (auto simp: libraries_documented_def json_documented_def codec_def)
  have parsed: "GetInvocationDetailsWithResponse C D c k [] = parse_all (ad_details D) (ad_error D) (response_of enc_map (fst (serve E q w)))"
    using built q(1) by (simp add: GetInvocationDetailsWithResponse_def client_GetInvocationDetails_def ParseGetInvocationDetailsResponse_def)
  have served: "fst (serve E q w) = strict_respond (server_strict E)
      (\<lambda>_ x. visit_object (aj_details (se_json E)) (aj_error (se_json E)) True (JSON200 x)) r"
    using assms(4) up by (auto simp: q(2) run_operation_def Let_def param(3) strict_GetInvocationDetails_def on_db_def visit_defs
        split: prod.splits)
  have codes: "\<exists>d. r = Reply 200 d" if "r = Reply st d" for st d
    using assms(4) that by (auto simp: GetInvocationDetails_def split: option.splits sum.splits prod.splits)
  show ?thesis
  proof (cases r)
    case (Reply st d)
    then have "r = Reply 200 d" using codes by auto
    moreover from this obtain b where b: "aj_details (se_json E) d = Some b" using assms(5) by blast
    ultimately show ?thesis
      using dec by (simp add: parsed served respond_defs parse_all_def)
  next
    case (Error e)
    then show ?thesis by (simp add: parsed served strict_respond_def parse_all_def)
  next
    case Panic
    then show ?thesis by (simp add: parsed served strict_respond_def parse_all_def response_of_def status_sent_def is_json_def
        str_contains_def)
  qed
qed

text \<open>
  The poll loop of the CLI sees the server's table: the status call of a user with a working key returns
  200 with the status of the function, whoever it belongs to, or, when there is none, 404 without a status, at
  which the loop gives up.
\<close>

theorem status_call_reads_table:
  assumes "libraries_documented E C D (pf_endpoint p)" and "key_works E fmt sent p u w"
    and "cli_client E enc_map fmt sent p w = Some c"
    and "\<And>x. aj_status (se_json E) x \<noteq> None" and "\<And>x. aj_error (se_json E) x \<noteq> None"
  shows "\<exists>rep. GetFunctionStatusWithResponse C D c k [] = Inr rep \<and>
     (case fn_status_of (w_db w) k of
        Some st \<Rightarrow> ps_status rep = 200 \<and> ps_json200 rep = Some (fn_status_text st)
      | None \<Rightarrow> ps_status rep = 404 \<and> ps_json200 rep = None \<and> ps_json404 rep = Some ''function not found'')"
proof -
  let ?path = "''/functions/'' @ se_ustr E k @ ''/status''"
  note param = param_written[OF assms(1), where k = k]
  have route: "se_gin E RegisterHandlers ''GET'' ?path =
      Some ((''GET'', ''/functions/:function_id/status'', OpGetFunctionStatus), [''function_id'' \<mapsto> se_ustr E k])"
    using routes_taken(2)[of "se_gin E" "se_ustr E k"] assms(1) param(1,2) by (simp add: libraries_documented_def)
  have closed: "\<not> isPublic ''/functions/:function_id/status''" by (simp add: isPublic_def has_prefix_def)
  obtain r where r: "client_send c [] (Some (plain_request (pf_endpoint p) ''GET'' ?path [] None)) =
        Inr (response_of enc_map (fst (serve E r w)))"
      "serve E r w = run_operation E (Some u) (r\<lparr>rq_full_path := ''/functions/:function_id/status''\<rparr>) OpGetFunctionStatus
         [''function_id'' \<mapsto> se_ustr E k] w"
    using signed_call[OF assms(1-3) route closed] by metis
  have built: "NewGetFunctionStatusRequest C (cl_server c) k = Some (plain_request (pf_endpoint p) ''GET'' ?path [] None)"
    using requests_built(2)[of C "se_ustr E" "pf_endpoint p"] assms(1) cli_client_server[OF assms(1,3)]
    by (simp add: libraries_documented_def)
  have up: "se_write_ok E" "pg_outcomes (w_db w) = []" using assms(2) by (auto simp: key_works_def)
  have dec: "aj_status (se_json E) x = Some b \<Longrightarrow> ad_status D b = Some x" "aj_error (se_json E) x = Some b \<Longrightarrow> ad_error D b = Some x" for x b
    using assms(1) by (auto simp: libraries_documented_def json_documented_def codec_def)
  have parsed: "GetFunctionStatusWithResponse C D c k [] = parse_all (ad_status D) (ad_error D) (response_of enc_map (fst (serve E r w)))"
    using built r(1) by (simp add: GetFunctionStatusWithResponse_def client_GetFunctionStatus_def ParseGetFunctionStatusResponse_def)
  show ?thesis
  proof (cases "find_function (w_db w) k")
    case None
    then have none: "fn_status_of (w_db w) k = None" by (simp add: fn_status_of_def status_in_def find_function_def)
    obtain b where b: "aj_error (se_json E) ''function not found'' = Some b" using assms(5) by blast
    have "fst (serve E r w) = [JSONBody 404 b]"
      using None up b by (simp add: r(2) run_operation_def Let_def param(3) strict_GetFunctionStatus_def
          on_db_def GetFunctionStatus_def get_function_status_by_id_def db_exec_up visit_defs respond_defs)
    then show ?thesis using b dec none by (simp add: parsed parse_all_def)
  next
    case (Some f)
    then have st: "fn_status_of (w_db w) k = Some (f_status f)" by (simp add: fn_status_of_def status_in_def find_function_def)
    obtain b where b: "aj_status (se_json E) (fn_status_text (f_status f)) = Some b" using assms(4) by blast
    have "fst (serve E r w) = [JSONBody 200 b]"
      using Some up b by (simp add: r(2) run_operation_def Let_def param(3) strict_GetFunctionStatus_def
          on_db_def GetFunctionStatus_def get_function_status_by_id_def db_exec_up visit_defs respond_defs)
    then show ?thesis using b dec st by (simp add: parsed parse_all_def)
  qed
qed

text \<open>The request of an upload call, which gets to the server's upload operation under the user of the key.\<close>

lemma upload_request:
  assumes "libraries_documented E C D (pf_endpoint p)" and "key_works E fmt sent p u w"
    and "cli_client E enc_map fmt sent p w = Some c"
  obtains r where "rq_body r = Some body"
    "client_UploadLambdaWithBody C c ct body [] = Inr (response_of enc_map (fst (serve E r w)))"
    "serve E r w = run_operation E (Some u) (r\<lparr>rq_full_path := ''/upload-lambda''\<rparr>) OpUploadLambda Map.empty w"
proof -
  have route: "se_gin E RegisterHandlers ''POST'' ''/upload-lambda'' = Some ((''POST'', ''/upload-lambda'', OpUploadLambda), Map.empty)"
    using routes_taken(6)[of "se_gin E" "''a''"] assms(1) by (simp add: libraries_documented_def)
  have closed: "\<not> isPublic ''/upload-lambda''" by (simp add: isPublic_def has_prefix_def)
  obtain r where r: "rq_body r = Some body"
      "client_send c [] (Some (plain_request (pf_endpoint p) ''POST'' ''/upload-lambda'' body (Some ct))) =
        Inr (response_of enc_map (fst (serve E r w)))"
      "serve E r w = run_operation E (Some u) (r\<lparr>rq_full_path := ''/upload-lambda''\<rparr>) OpUploadLambda Map.empty w"
    using signed_call[OF assms(1-3) route closed] by metis
  have "NewUploadLambdaRequestWithBody C (cl_server c) ct body =
      Some (plain_request (pf_endpoint p) ''POST'' ''/upload-lambda'' body (Some ct))"
    using requests_built(6)[of C "se_ustr E" "pf_endpoint p"] assms(1) cli_client_server[OF assms(1,3)]
    by (simp add: libraries_documented_def)
  then show thesis using that[of r] r by (simp add: client_UploadLambdaWithBody_def)
qed

text \<open>
  An id the upload call hands to the CLI belongs to a function of the key's user that the server, in serving
  that very request, stored as QUARANTINED, whose archive it put into the quarantine bucket and announced to
  the event workers. The form of the request is the one \<open>uploadFile\<close> writes.
\<close>

theorem upload_call_quarantines:
  assumes "libraries_documented E C D (pf_endpoint p)" and "key_works E fmt sent p u w"
    and "cli_client E enc_map fmt sent p w = Some c"
    and "\<And>r. rq_body r = Some body \<Longrightarrow> se_multipart E r = Inr upload_form"
    and "UploadLambdaWithBodyWithResponse C D c ct body [] = Inr rep" and "ps_json200 rep = Some fid"
  shows "\<exists>r w' path. rq_body r = Some body \<and> snd (serve E r w) = w' \<and>
     client_UploadLambdaWithBody C c ct body [] = Inr (response_of enc_map (fst (serve E r w))) \<and>
     fid = se_ustr E (se_fresh E) \<and> fn_status_of (w_db w') = (fn_status_of (w_db w))(se_fresh E \<mapsto> FnQuarantined) \<and>
     w_objects w' = w_objects w @ [path] \<and> se_put_object E ''oblak-quarantine'' path \<and>
     w_bus w' = Publish \<lparr>ev_function = se_fresh E, ev_user = u, ev_bucket = ''oblak-quarantine'', ev_path = path,
       ev_time = se_now E\<rparr> (w_bus w)"
proof -
  obtain r where r: "rq_body r = Some body"
      "client_UploadLambdaWithBody C c ct body [] = Inr (response_of enc_map (fst (serve E r w)))"
      "serve E r w = run_operation E (Some u) (r\<lparr>rq_full_path := ''/upload-lambda''\<rparr>) OpUploadLambda Map.empty w"
    using upload_request[OF assms(1-3)] by metis
  note call = r(2)
  let ?u = "UploadLambda (se_ustr E) (se_fresh_object E) (se_fresh E) (se_now E) (se_put_object E) ''oblak-quarantine''
    (Some u) upload_form (w_bus w) (w_db w)"
  have form: "se_multipart E (r\<lparr>rq_full_path := ''/upload-lambda''\<rparr>) = Inr upload_form" using assms(4) r(1) by simp
  have served: "serve E r w = (strict_respond (server_strict E) (\<lambda>_. VisitUploadLambdaResponse (se_json E) (se_write_ok E)) (up_reply ?u),
      w\<lparr>w_db := up_db ?u, w_bus := up_bus ?u,
        w_objects := w_objects w @ (case up_object ?u of None \<Rightarrow> [] | Some p \<Rightarrow> [p])\<rparr>)"
    by (simp add: r(3) run_operation_def Let_def strict_UploadLambda_def form)
  have ok: "ps_json200 rep \<noteq> None \<Longrightarrow> hs_status (response_of enc_map (fst (serve E r w))) = 200"
    using assms(5) call by (auto simp: UploadLambdaWithBodyWithResponse_def ParseUploadLambdaResponse_def parse_only_200_def
        response_of_def Let_def split: if_splits option.splits)
  have "\<exists>k. up_reply ?u = Reply 200 k"
  proof (cases "up_reply ?u")
    case (Reply st k)
    then show ?thesis using upload_cases[of "se_ustr E" "se_fresh_object E" "se_fresh E" "se_now E" "se_put_object E" "''oblak-quarantine''"
        "Some u" upload_form "w_bus w" "w_db w"] by (simp add: Let_def)
  qed (use ok assms(6) served in \<open>simp_all add: strict_respond_def response_of_def status_sent_def\<close>)
  then obtain k where k: "up_reply ?u = Reply 200 k" ..
  note facts = upload_cases[of "se_ustr E" "se_fresh_object E" "se_fresh E" "se_now E" "se_put_object E" "''oblak-quarantine''"
        "Some u" upload_form "w_bus w" "w_db w", unfolded Let_def k, simplified]
  then obtain path where path: "up_object ?u = Some path" "se_put_object E ''oblak-quarantine'' path" and k': "k = se_fresh E"
    by auto
  have "fid = se_ustr E k"
    using assms(1,2,5,6) call served k
    by (auto simp: UploadLambdaWithBodyWithResponse_def ParseUploadLambdaResponse_def parse_only_200_def VisitUploadLambdaResponse_def
        key_works_def libraries_documented_def json_documented_def respond_defs response_of_def status_sent_def Let_def
        split: if_splits option.splits)
  then show ?thesis using r(1) call served facts path k' by auto
qed


section \<open>A call\<close>

text \<open>Libraries as documented, and a server that holds a key of user 1.\<close>

definition sample_entity :: function_entity where
  "sample_entity = \<lparr>fe_id = ''7'', fe_status = ''READY'', fe_last_execution = None\<rparr>"

definition call_json :: api_json where
  "call_json = sample_json\<lparr>aj_functions := (\<lambda>fs. if fs = [sample_entity] then Some ''[7]'' else None),
     aj_invocations := (\<lambda>_. None), aj_details := (\<lambda>_. None)\<rparr>"

definition call_decode :: api_decode where
  "call_decode = \<lparr>ad_status = Some, ad_error = Some, ad_upload = Some, ad_functions = (\<lambda>_. Some [sample_entity]),
     ad_invocations = (\<lambda>_. None), ad_details = (\<lambda>_. None)\<rparr>"

definition call_urls :: client_env where
  "call_urls = \<lparr>ce_parse_url = (\<lambda>s. if s = ''http://e/'' then Some \<lparr>u_scheme = ''http'', u_host = ''e'', u_path = ''/''\<rparr>
       else Some \<lparr>u_scheme = [], u_host = [], u_path = s\<rparr>),
     ce_style_string = (\<lambda>_. Some), ce_style_uuid = (\<lambda>_ k. Some (nat_digits (unat k))), ce_new_request_ok = (\<lambda>_ _. True)\<rparr>"

definition call_server :: "nat server_env" where
  "call_server = sample_server\<lparr>se_json := call_json, se_multipart := (\<lambda>_. Inr upload_form)\<rparr>"

definition call_profile :: profile where
  "call_profile = \<lparr>pf_auth_id = ''key-1'', pf_secret_key = hex_encode (replicate 32 CHR ''x''), pf_endpoint = ''e''\<rparr>"

definition call_world :: world where
  "call_world = sample_world\<lparr>w_db := snd (CreateAuthKey (\<lambda>_ b. b) ''kek'' (Some (replicate 32 CHR ''x''))
     (Some (replicate 12 CHR ''n'')) ''key-1'' 1 (sample_pg FnReady InvDone))\<rparr>"

lemma nat_digits_chars: "nat_digits n \<noteq> [] \<and> list_all path_char (nat_digits n) \<and> CHR ''/'' \<notin> set (nat_digits n)"
proof (induction n rule: nat_digits.induct)
  case (1 n)
  have digit: "path_char (char_of (48 + d)) \<and> CHR ''/'' \<noteq> char_of (48 + d)" if "d < 10" for d :: nat
  proof -
    have "(of_char (char_of (48 + d)) :: nat) = 48 + d" using that by simp
    moreover have "CHR ''/'' = char_of (48 + d) \<Longrightarrow> (of_char (CHR ''/'') :: nat) = of_char (char_of (48 + d) :: char)" by (rule arg_cong)
    moreover have "(of_char (CHR ''/'') :: nat) = 47" by simp
    ultimately show ?thesis using that unfolding path_char_def Let_def by linarith
  qed
  show ?case using 1 digit[of n] digit[of "n mod 10"] by (auto simp: nat_digits.simps[of n])
qed

lemma call_uuid_texts: "uuid_texts (se_ustr call_server)"
  using nat_digits_chars by (simp add: uuid_texts_def call_server_def sample_server_def)

lemma plain_urls: "list_all path_char p \<Longrightarrow> ce_parse_url call_urls (''./'' @ p) = Some \<lparr>u_scheme = [], u_host = [], u_path = ''./'' @ p\<rparr>"
  by (simp add: call_urls_def)

lemma call_libraries: "libraries_documented call_server call_urls call_decode (pf_endpoint call_profile)"
proof -
  have "client_documented call_urls (se_ustr call_server) ''e''"
    using plain_urls
    by (simp add: client_documented_def urls_documented_def call_urls_def call_server_def sample_server_def)
  moreover have "json_documented (se_json call_server) call_decode (se_ustr call_server)"
    by (auto simp: json_documented_def codec_def call_server_def call_json_def sample_server_def sample_json_def call_decode_def
        split: if_splits)
  moreover have "se_bind_uuid call_server (se_ustr call_server k) = Inr k" for k
    by (simp add: call_server_def sample_server_def digits_value_nat_digits)
  ultimately show ?thesis
    using call_uuid_texts first_route_documented sample_gin_documented
    by (simp add: libraries_documented_def call_profile_def call_server_def sample_server_gin)
qed

text \<open>A key made for user 1 works.\<close>

lemma created_key_works:
  assumes "pg_outcomes s = []" and "\<exists>u\<in>set (pg_users s). u_id u = 1" and "pg_keys s = []"
    and "w_db w = snd (CreateAuthKey (\<lambda>_ b. b) ''kek'' (Some (replicate 32 CHR ''x'')) (Some (replicate 12 CHR ''n'')) ''key-1'' 1 s)"
  shows "key_works call_server (\<lambda>_. ''d'') 0 call_profile 1 w"
proof -
  obtain k s' where *: "CreateAuthKey (\<lambda>_ b. b) ''kek'' (Some (replicate 32 CHR ''x'')) (Some (replicate 12 CHR ''n''))
      ''key-1'' 1 s = (Some k, s')" "pg_outcomes s' = []" "k_secret k = hex_encode (replicate 32 CHR ''x'')"
    using assms(1-3) by (auto simp: CreateAuthKey_def encrypt_def db_exec_def Let_def)
  have "token ''key-1''" by (simp add: token_def plain_char_def)
  then show ?thesis
    using created_key_found[OF *(1) _ _ *(2)] *
    by (auto simp: key_works_def assms(4) call_server_def sample_server_def call_profile_def gcm_nonce_size_def max_skew_def)
qed

lemma call_key_works: "key_works call_server (\<lambda>_. ''d'') 0 call_profile 1 call_world"
  using created_key_works[of "sample_pg FnReady InvDone" call_world] by (simp add: call_world_def sample_pg_def)

lemma digit_seven: "nat_digits 7 = ''7''"
  by (simp add: nat_digits.simps[of 7]) code_simp

lemma call_functions: "pg_functions (w_db call_world) = pg_functions (sample_pg FnReady InvDone)"
  "fst (GetUserFunctions (se_ustr call_server) (Some 1) (w_db call_world)) = Reply 200 [sample_entity]"
  by (simp_all add: call_world_def call_server_def sample_server_def sample_world_def CreateAuthKey_def encrypt_def db_exec_def
      sample_pg_def Let_def GetUserFunctions_def get_functions_by_user_with_latest_def createGetUserFunctionsResponse_def
      with_latest_def sample_entity_def digit_seven)

theorem status_call_reads_table_witness:
  "\<exists>c rep. cli_client call_server (\<lambda>_ _. []) (\<lambda>_. ''d'') 0 call_profile call_world = Some c \<and>
     GetFunctionStatusWithResponse call_urls call_decode c 7 [] = Inr rep \<and> ps_json200 rep = Some ''READY''"
proof -
  obtain c where c: "cli_client call_server (\<lambda>_ _. []) (\<lambda>_. ''d'') 0 call_profile call_world = Some c"
    by (simp add: cli_client_def signed_client call_profile_def)
  have "fn_status_of (w_db call_world) 7 = Some FnReady"
    using sample_pg_facts(3)[of FnReady InvDone] by (simp add: fn_status_of_def call_functions(1))
  then show ?thesis
    using status_call_reads_table[OF call_libraries call_key_works c, of 7] c
    by (auto simp: call_server_def call_json_def sample_json_def)
qed

theorem upload_call_quarantines_witness:
  "\<exists>r. fn_status_of (w_db (snd (serve call_server r call_world))) 8 = Some FnQuarantined"
proof -
  obtain c where c: "cli_client call_server (\<lambda>_ _. []) (\<lambda>_. ''d'') 0 call_profile call_world = Some c"
    by (simp add: cli_client_def signed_client call_profile_def)
  obtain r where r: "client_UploadLambdaWithBody call_urls c ''t'' ''x'' [] = Inr (response_of (\<lambda>_ _. []) (fst (serve call_server r call_world)))"
      "serve call_server r call_world =
         run_operation call_server (Some 1) (r\<lparr>rq_full_path := ''/upload-lambda''\<rparr>) OpUploadLambda Map.empty call_world"
    using upload_request[OF call_libraries call_key_works c] by metis
  have "fst (serve call_server r call_world) = [JSONBody 200 (nat_digits 8)]"
    unfolding r(2)
    by (simp add: run_operation_def Let_def strict_UploadLambda_def call_server_def sample_server_def call_json_def
        sample_json_def UploadLambda_def UploadFile_def upload_form_parsed VisitUploadLambdaResponse_def respond_defs
        create_function_def db_exec_def call_world_def sample_world_def CreateAuthKey_def encrypt_def sample_pg_def)
  then obtain rep where "UploadLambdaWithBodyWithResponse call_urls call_decode c ''t'' ''x'' [] = Inr rep"
      "ps_json200 rep = Some (nat_digits 8)"
    using r(1) by (simp add: UploadLambdaWithBodyWithResponse_def client_UploadLambdaWithBody_def ParseUploadLambdaResponse_def
        parse_only_200_def call_decode_def)
  moreover have env: "se_multipart call_server q = Inr upload_form" "se_fresh call_server = 8" for q
    by (simp_all add: call_server_def sample_server_def)
  ultimately obtain q where "fn_status_of (w_db (snd (serve call_server q call_world))) = (fn_status_of (w_db call_world))(8 \<mapsto> FnQuarantined)"
    using upload_call_quarantines[OF call_libraries call_key_works c, of "''x''" "''t''" rep "nat_digits 8"] by (auto simp: env)
  then show ?thesis by (intro exI[of _ q]) simp
qed

end
