(* ===== verification/CommandTree.thy ===== *)
theory CommandTree
  imports ApiCalls
begin

text \<open>
  The roots of the two command-line tools, \<open>cmd/cli/root.go\<close> and \<open>cmd/admin/root.go\<close>, and the commands run under
  them over the generated client: the hook that loads the configuration or connects to the database comes
  first, then the command. cobra's parsing of the arguments and flags is left out: a command is given by its
  name and its flags.
\<close>

section \<open>cmd/cli\<close>

text \<open>\<open>PersistentPreRunE\<close> of the root: the value \<open>globalCfg\<close> has when the command runs.\<close>

definition cli_pre_run :: "string \<Rightarrow> config_error + cli_config \<Rightarrow> cli_config \<Rightarrow> config_error + cli_config" where
  "cli_pre_run name load globalCfg =
     (if name = ''configure'' then Inr globalCfg
      else case load of Inl e \<Rightarrow> Inl e | Inr cfg \<Rightarrow> Inr cfg)"

text \<open>What the commands read of a response.\<close>

definition reply_of :: "client_error + 'a parsed \<Rightarrow> api_reply" where
  "reply_of r = (case r of Inl _ \<Rightarrow> ApiError | Inr rep \<Rightarrow> ApiReply (ps_status rep) (ps_json200 rep \<noteq> None) (ps_body rep))"

text \<open>
  \<open>oblak list\<close>: \<open>connect\<close> makes the signed client of a profile.
\<close>

definition oblak_list ::
  "(profile \<Rightarrow> client option) \<Rightarrow> client_env \<Rightarrow> api_decode \<Rightarrow> (string \<Rightarrow> uuid option) \<Rightarrow> (string \<Rightarrow> string option) \<Rightarrow>
   getenv \<Rightarrow> config_error + cli_config \<Rightarrow> string \<Rightarrow> command_error + string" where
  "oblak_list connect C D parseUuid indent env load flag =
     (case cli_pre_run ''list'' load fmempty of
        Inl e \<Rightarrow> Inl (ConfigError e)
      | Inr globalCfg \<Rightarrow>
          let prof = ActiveProfile env globalCfg;
              client = (case prof of Inl _ \<Rightarrow> None | Inr p \<Rightarrow> connect p);
              call = (\<lambda>f. case client of None \<Rightarrow> ApiError | Some c \<Rightarrow> f c) in
          list_command prof (client \<noteq> None) parseUuid
            (\<lambda>k. call (\<lambda>c. reply_of (GetFunctionInvocationsWithResponse C D c k [])))
            (call (\<lambda>c. reply_of (GetUserFunctionsWithResponse C D c []))) indent flag)"

definition view_of :: "(uuid \<Rightarrow> string) \<Rightarrow> details_response \<Rightarrow> invocation_view" where
  "view_of ustr d =
     \<lparr>iv_id = ustr (ir_id d), iv_status = ir_status d, iv_start = ir_time d, iv_end = ir_end_time d,
      iv_logs = map (\<lambda>l. (ll_stream l, ll_message l)) (dr_logs d)\<rparr>"

definition oblak_details ::
  "(profile \<Rightarrow> client option) \<Rightarrow> client_env \<Rightarrow> api_decode \<Rightarrow> (string \<Rightarrow> uuid option) \<Rightarrow> (uuid \<Rightarrow> string) \<Rightarrow> (int \<Rightarrow> string) \<Rightarrow>
   (int \<Rightarrow> string) \<Rightarrow> getenv \<Rightarrow> config_error + cli_config \<Rightarrow> string \<Rightarrow> command_error + string list" where
  "oblak_details connect C D parseUuid ustr fmt fmtD env load flag =
     (case cli_pre_run ''details'' load fmempty of
        Inl e \<Rightarrow> Inl (ConfigError e)
      | Inr globalCfg \<Rightarrow>
          let prof = ActiveProfile env globalCfg;
              client = (case prof of Inl _ \<Rightarrow> None | Inr p \<Rightarrow> connect p) in
          details_command prof (client \<noteq> None) parseUuid
            (\<lambda>k. case client of
                None \<Rightarrow> None
              | Some c \<Rightarrow>
                  (case GetInvocationDetailsWithResponse C D c k [] of
                     Inl _ \<Rightarrow> None
                   | Inr rep \<Rightarrow>
                       Some (case ps_json200 rep of
                           None \<Rightarrow> Inl (ps_status rep, ps_body rep)
                         | Some d \<Rightarrow> Inr (view_of ustr d))))
            fmt fmtD flag)"

text \<open>
  The poll loop of \<open>oblak upload\<close>: the body of a response is decoded once more. A poll is the client's call at a
  moment of the server, so there is one client for each poll.
\<close>

definition poll_answer_of :: "api_decode \<Rightarrow> client_error + string parsed \<Rightarrow> poll_answer" where
  "poll_answer_of D r =
     (case r of Inl _ \<Rightarrow> RequestError | Inr response \<Rightarrow> Answer (ps_status response) (ad_status D (ps_body response)))"

definition oblak_poll ::
  "client_env \<Rightarrow> api_decode \<Rightarrow> (string \<Rightarrow> uuid option) \<Rightarrow> client list \<Rightarrow> string \<Rightarrow> poll_result \<times> printed list" where
  "oblak_poll C D parseUuid polls functionId =
     PollFunctionStatus parseUuid True functionId
       (\<lambda>k. map (\<lambda>c. poll_answer_of D (GetFunctionStatusWithResponse C D c k [])) polls)"

text \<open>\<open>Execute\<close>: the exit code of the process.\<close>

definition cli_Execute :: "'e + 'a \<Rightarrow> nat" where
  "cli_Execute r = (case r of Inl _ \<Rightarrow> 1 | Inr _ \<Rightarrow> 0)"

section \<open>cmd/admin\<close>

text \<open>
  \<open>PersistentPreRunE\<close> of the root: the key-encryption key of the stores it makes, when the database can be
  reached. \<open>dotenv\<close> is godotenv's loading of the file \<open>.env\<close> into the environment, which may fail.
\<close>

definition admin_pre_run :: "(service_op \<Rightarrow> bool) \<Rightarrow> getenv \<Rightarrow> string option \<times> service_op list" where
  "admin_pre_run ok env =
     (let cfg = server_Load env in
      case database_Connect ok (sc_database_url cfg) (Some (), []) of
        (None, tr) \<Rightarrow> (None, tr)
      | (Some _, tr) \<Rightarrow> (Some (sc_key_encryption_key cfg), tr))"

definition admin_main ::
  "(service_op \<Rightarrow> bool) \<Rightarrow> (getenv \<Rightarrow> getenv option) \<Rightarrow> (string \<Rightarrow> pg \<Rightarrow> (command_error + string list) \<times> pg) \<Rightarrow> getenv \<Rightarrow> pg \<Rightarrow>
   (string list option \<times> nat) \<times> pg" where
  "admin_main ok dotenv command env s =
     (let env' = (case dotenv env of None \<Rightarrow> env | Some e \<Rightarrow> e) in
      case fst (admin_pre_run ok env') of
        None \<Rightarrow> ((None, 1), s)
      | Some kek \<Rightarrow>
          (case command kek s of
             (Inl _, s') \<Rightarrow> ((None, 1), s')
           | (Inr out, s') \<Rightarrow> ((Some out, 0), s')))"

section \<open>The commands\<close>

lemma oblak_list_unconfigured: "oblak_list connect C D parseUuid indent env (Inl e) flag = Inl (ConfigError e)"
  by (simp add: oblak_list_def cli_pre_run_def)

lemma admin_needs_database:
  "\<not> ok (NewPool (sc_database_url (server_Load env))) \<or> \<not> ok PingPool \<Longrightarrow> dotenv env = None \<Longrightarrow>
   admin_main ok dotenv command env s = ((None, 1), s)"
  by (auto simp: admin_main_def admin_pre_run_def database_Connect_def step_def Let_def)

text \<open>
  A key that \<open>oblak-admin create-key\<close> prints under the environment the server is started in is one that works
  for the calls of the CLI, as long as the database stays as the tool left it.
\<close>

lemma issued_key_works:
  assumes "admin_main ok dotenv (\<lambda>kek. create_key_command parseUuid (se_aes E) kek raw nonce authID rawID) env s =
      ((Some [''auth_id:    '' @ pf_auth_id p, ''secret_key: '' @ pf_secret_key p], 0), w_db w)"
    and "se_kek E = sc_key_encryption_key (server_Load (case dotenv env of None \<Rightarrow> env | Some e \<Rightarrow> e))"
    and "map_option length nonce = Some gcm_nonce_size" and "map_option length raw = Some 32"
    and "pg_outcomes (w_db w) = []" and "token authID"
    and "se_parse_time E (fmt sent) = Some t" and "\<bar>se_clock E - t\<bar> \<le> max_skew"
    and "\<And>r. \<not> se_over_limit E r" and "se_write_ok E"
  shows "\<exists>u. parseUuid rawID = Some u \<and> key_works E fmt sent p u w"
proof -
  have "create_key_command parseUuid (se_aes E) (se_kek E) raw nonce authID rawID s =
      (Inr [''auth_id:    '' @ pf_auth_id p, ''secret_key: '' @ pf_secret_key p], w_db w)"
    using assms(1,2) by (auto simp: admin_main_def admin_pre_run_def Let_def split: option.splits sum.splits prod.splits if_splits)
  then obtain u key where u: "parseUuid rawID = Some u"
      and made: "CreateAuthKey (se_aes E) (se_kek E) raw nonce authID u s = (Some key, w_db w)"
      and p: "pf_auth_id p = k_auth_id key" "pf_secret_key p = k_secret key"
    by (auto simp: create_key_command_def split: option.splits prod.splits)
  then show ?thesis
    using created_key_found[OF made assms(3-5)] assms(5-10) by (auto simp: key_works_def)
qed

text \<open>
  C37: \<open>oblak list\<close> with a profile whose key works prints, indented, the JSON of the server's list of exactly the
  functions of the key's user, in the order of the table and with their statuses.
\<close>

theorem list_prints_own_functions:
  assumes "libraries_documented E C D (pf_endpoint p)" and "key_works E fmt sent p u w"
    and "ActiveProfile env cfg = Inr p"
    and "\<And>fs. fst (GetUserFunctions (se_ustr E) (Some u) (w_db w)) = Reply 200 fs \<Longrightarrow> aj_functions (se_json E) fs \<noteq> None"
  shows "\<exists>fs body. aj_functions (se_json E) fs = Some body \<and>
     map (\<lambda>e. (fe_id e, fe_status e)) fs =
       map (\<lambda>f. (se_ustr E (f_id f), fn_status_text (f_status f))) (filter (\<lambda>f. f_user f = u) (pg_functions (w_db w))) \<and>
     oblak_list (\<lambda>p. cli_client E enc_map fmt sent p w) C D parseUuid indent env (Inr cfg) [] =
       (case indent body of None \<Rightarrow> Inl BadResponse | Some text \<Rightarrow> Inr text)"
proof -
  obtain c where c: "cli_client E enc_map fmt sent p w = Some c"
    using assms(1) by (simp add: cli_client_def signed_client libraries_documented_def)
  obtain rep fs where "GetUserFunctionsWithResponse C D c [] = Inr rep" "ps_json200 rep = Some fs"
      "aj_functions (se_json E) fs = Some (ps_body rep)"
      "map (\<lambda>e. (fe_id e, fe_status e)) fs =
         map (\<lambda>f. (se_ustr E (f_id f), fn_status_text (f_status f))) (filter (\<lambda>f. f_user f = u) (pg_functions (w_db w)))"
    using list_call_returns_own_functions[OF assms(1,2) c assms(4)] by blast
  then show ?thesis
    by (intro exI[of _ fs] exI[of _ "ps_body rep"])
       (simp add: oblak_list_def cli_pre_run_def list_command_def reply_of_def assms(3) c Let_def)
qed

theorem list_prints_own_functions_witness:
  "oblak_list (\<lambda>p. cli_client call_server (\<lambda>_ _. []) (\<lambda>_. ''d'') 0 p call_world) call_urls call_decode (\<lambda>_. None) Some
     (\<lambda>_. []) (Inr (fmap_of_list [(''default'', call_profile)])) [] = Inr ''[7]''"
proof -
  have prof: "ActiveProfile (\<lambda>_. []) (fmap_of_list [(''default'', call_profile)]) = Inr call_profile"
    by (simp add: ActiveProfile_def ActiveProfileName_def)
  have one: "aj_functions (se_json call_server) fs = Some body \<Longrightarrow> body = ''[7]''" for fs body
    by (simp add: call_server_def call_json_def split: if_splits)
  show ?thesis
    using list_prints_own_functions[OF call_libraries call_key_works prof, of "\<lambda>_ _. []" "\<lambda>_. None" Some] call_functions(2) one
    by (fastforce simp: call_server_def call_json_def)
qed

text \<open>
  C25: \<open>oblak details\<close> shows the logs of an invocation only to the owner of its function: it prints an invocation
  with the id asked for, of a function of the key's user, or fails with a 500. When the user has no
  such invocation, the server has panicked and the failure carries no text.
\<close>

theorem details_of_own_invocations_only:
  assumes "libraries_documented E C D (pf_endpoint p)" and "key_works E fmt sent p u w"
    and "ActiveProfile env cfg = Inr p" and "parseUuid flag = Some k"
    and "\<And>d. fst (GetInvocationDetails (se_get_object E) (Some u) k (w_db w)) = Reply 200 d \<Longrightarrow> aj_details (se_json E) d \<noteq> None"
  shows "case oblak_details (\<lambda>p. cli_client E enc_map fmt sent p w) C D parseUuid (se_ustr E) fmtT fmtD env (Inr cfg) flag of
      Inr lines \<Rightarrow> \<exists>i\<in>set (pg_invocations (w_db w)). owned_by (w_db w) u i \<and> i_id i = k \<and>
        (\<exists>v. lines = details_lines fmtT fmtD v \<and> iv_id v = se_ustr E k \<and> iv_start v = i_time i)
    | Inl e \<Rightarrow> (\<exists>text. e = RequestRejected 500 text) \<and>
        (\<not> (\<exists>i\<in>set (pg_invocations (w_db w)). owned_by (w_db w) u i \<and> i_id i = k) \<longrightarrow> e = RequestRejected 500 [])"
proof -
  let ?r = "fst (GetInvocationDetails (se_get_object E) (Some u) k (w_db w))"
  have up: "pg_outcomes (w_db w) = []" using assms(2) by (simp add: key_works_def)
  obtain c where c: "cli_client E enc_map fmt sent p w = Some c"
    using assms(1) by (simp add: cli_client_def signed_client libraries_documented_def)
  note owner = details_only_for_owner[OF up, where getObject = "se_get_object E" and u = u and k = k]
  obtain rep where rep: "GetInvocationDetailsWithResponse C D c k [] = Inr rep"
      "case ?r of
         Reply st d \<Rightarrow> ps_status rep = 200 \<and> ps_json200 rep = Some d
       | Error e \<Rightarrow> ps_status rep = 500 \<and> ps_json200 rep = None \<and> ps_body rep = enc_map ''msg'' (se_err_text E e)
       | Panic \<Rightarrow> ps_status rep = 500 \<and> ps_json200 rep = None \<and> ps_body rep = []"
    using details_call[OF assms(1,2) c refl assms(5)] by blast
  then have run: "oblak_details (\<lambda>p. cli_client E enc_map fmt sent p w) C D parseUuid (se_ustr E) fmtT fmtD env (Inr cfg) flag =
      (case ps_json200 rep of None \<Rightarrow> Inl (RequestRejected (ps_status rep) (ps_body rep))
       | Some d \<Rightarrow> Inr (details_lines fmtT fmtD (view_of (se_ustr E) d)))"
    by (simp add: oblak_details_def cli_pre_run_def details_command_def assms(3,4) c Let_def split: option.splits)
  have missing: "?r = Panic" if "\<not> (\<exists>i\<in>set (pg_invocations (w_db w)). owned_by (w_db w) u i \<and> i_id i = k)"
  proof -
    have "filter (\<lambda>i. owned_by (w_db w) u i \<and> i_id i = k) (pg_invocations (w_db w)) = []"
      using that by (auto simp: filter_empty_conv)
    then have "order_by_end_time (filter (\<lambda>i. owned_by (w_db w) u i \<and> i_id i = k) (pg_invocations (w_db w))) = []"
      using mset_order_by_end_time[of "[]"] by simp
    then show ?thesis
      using up by (simp add: GetInvocationDetails_def get_invocation_details_for_user_def db_exec_up extractLogs_def)
  qed
  show ?thesis
  proof (cases ?r)
    case (Reply st d)
    then obtain i where i: "i \<in> set (pg_invocations (w_db w))" "owned_by (w_db w) u i" "i_id i = k" "ir_id d = k" "ir_time d = i_time i"
      using owner by auto
    then show ?thesis
      using rep(2) Reply by (auto simp: run view_of_def intro!: bexI[of _ i] exI[of _ "view_of (se_ustr E) d"])
  next
    case (Error e)
    then show ?thesis using rep(2) missing by (auto simp: run)
  next
    case Panic
    then show ?thesis using rep(2) by (auto simp: run)
  qed
qed

theorem details_of_own_invocations_only_witness:
  "oblak_details (\<lambda>p. cli_client call_server (\<lambda>_ _. []) (\<lambda>_. ''d'') 0 p call_world) call_urls call_decode (\<lambda>_. Some 5)
     (se_ustr call_server) (\<lambda>_. []) (\<lambda>_. []) (\<lambda>_. []) (Inr (fmap_of_list [(''default'', call_profile)])) ''5'' =
   Inl (RequestRejected 500 [])"
proof -
  let ?run = "oblak_details (\<lambda>p. cli_client call_server (\<lambda>_ _. []) (\<lambda>_. ''d'') 0 p call_world) call_urls call_decode
     (\<lambda>_. Some 5) (se_ustr call_server) (\<lambda>_. []) (\<lambda>_. []) (\<lambda>_. []) (Inr (fmap_of_list [(''default'', call_profile)])) ''5''"
  have prof: "ActiveProfile (\<lambda>_. []) (fmap_of_list [(''default'', call_profile)]) = Inr call_profile"
    by (simp add: ActiveProfile_def ActiveProfileName_def)
  have rows: "pg_invocations (w_db call_world) = pg_invocations (sample_pg FnReady InvDone)" "pg_outcomes (w_db call_world) = []"
    by (simp_all add: call_world_def sample_world_def CreateAuthKey_def encrypt_def db_exec_def sample_pg_def Let_def)
  then have none: "\<not> (\<exists>i\<in>set (pg_invocations (w_db call_world)). owned_by (w_db call_world) 1 i \<and> i_id i = 5)"
    by (simp add: sample_pg_def)
  have panics: "fst (GetInvocationDetails (se_get_object call_server) (Some 1) 5 (w_db call_world)) \<noteq> Reply 200 d" for d
    using details_only_for_owner[OF rows(2), where getObject = "se_get_object call_server" and u = 1 and k = 5] none by auto
  show ?thesis
    using details_of_own_invocations_only[OF call_libraries call_key_works prof, where parseUuid = "\<lambda>_. Some 5" and k = 5 and
        enc_map = "\<lambda>_ _. []" and fmtT = "\<lambda>_. []" and fmtD = "\<lambda>_. []" and flag = "''5''"] panics none
    by (auto split: sum.splits)
qed

section \<open>Polling\<close>

definition final_status :: "fn_status \<Rightarrow> bool" where
  "final_status st \<longleftrightarrow> st = FnReady \<or> st = FnFailed \<or> st = FnDetected"

lemma terminal_text: "terminal (fn_status_text st) \<longleftrightarrow> final_status st"
  by (cases st) (simp_all add: terminal_def final_status_def)

lemma missing_answer [simp]: "\<not> pending_answer (Answer 404 x)" "\<not> final_answer (Answer 404 x)"
  by (cases x, simp_all)+

lemma json200_body: "parse_all dec dec_err rsp = Inr rep \<Longrightarrow> ps_json200 rep = Some x \<Longrightarrow> dec (ps_body rep) = Some x"
  by (auto simp: parse_all_def Let_def split: option.splits if_splits)

text \<open>One poll: the moment of the server it reaches, with the client of that moment.\<close>

definition poll_works ::
  "client_env \<Rightarrow> api_decode \<Rightarrow> (string \<Rightarrow> string \<Rightarrow> string) \<Rightarrow> (int \<Rightarrow> string) \<Rightarrow> profile \<Rightarrow> uuid \<Rightarrow>
   'j server_env \<times> int \<times> world \<Rightarrow> bool" where
  "poll_works C D enc_map fmt p u m =
     (case m of (E, sent, w) \<Rightarrow>
        libraries_documented E C D (pf_endpoint p) \<and> key_works E fmt sent p u w \<and>
        (\<forall>x. aj_status (se_json E) x \<noteq> None) \<and> (\<forall>x. aj_error (se_json E) x \<noteq> None))"

definition poll_client ::
  "(string \<Rightarrow> string \<Rightarrow> string) \<Rightarrow> (int \<Rightarrow> string) \<Rightarrow> profile \<Rightarrow> 'j server_env \<times> int \<times> world \<Rightarrow> client" where
  "poll_client enc_map fmt p m = (case m of (E, sent, w) \<Rightarrow> the (cli_client E enc_map fmt sent p w))"

definition polled :: "uuid \<Rightarrow> 'j server_env \<times> int \<times> world \<Rightarrow> fn_status option" where
  "polled k m = fn_status_of (w_db (snd (snd m))) k"

lemma poll_answer_working:
  assumes "poll_works C D enc_map fmt p u m"
  shows "case polled k m of
      Some st \<Rightarrow> poll_answer_of D (GetFunctionStatusWithResponse C D (poll_client enc_map fmt p m) k []) =
        Answer 200 (Some (fn_status_text st))
    | None \<Rightarrow> \<exists>text. poll_answer_of D (GetFunctionStatusWithResponse C D (poll_client enc_map fmt p m) k []) = Answer 404 text"
proof -
  obtain E sent w where m: "m = (E, sent, w)" by (metis prod.exhaust)
  have works: "libraries_documented E C D (pf_endpoint p)" "key_works E fmt sent p u w"
      "\<And>x. aj_status (se_json E) x \<noteq> None" "\<And>x. aj_error (se_json E) x \<noteq> None"
    using assms by (auto simp: poll_works_def m)
  then obtain c where c: "cli_client E enc_map fmt sent p w = Some c"
    by (auto simp: cli_client_def signed_client libraries_documented_def)
  obtain rep where rep: "GetFunctionStatusWithResponse C D c k [] = Inr rep"
      "case fn_status_of (w_db w) k of
        Some st \<Rightarrow> ps_status rep = 200 \<and> ps_json200 rep = Some (fn_status_text st)
      | None \<Rightarrow> ps_status rep = 404 \<and> ps_json200 rep = None \<and> ps_json404 rep = Some ''function not found''"
    using status_call_reads_table[OF works(1,2) c works(3,4)] by blast
  then obtain rsp where "parse_all (ad_status D) (ad_error D) rsp = Inr rep"
    by (auto simp: GetFunctionStatusWithResponse_def ParseGetFunctionStatusResponse_def split: sum.splits)
  then show ?thesis
    using rep json200_body[of "ad_status D" "ad_error D" rsp rep]
    by (auto simp: m poll_client_def polled_def c poll_answer_of_def split: option.splits)
qed

lemma polled_result:
  assumes "\<forall>m\<in>set ms. poll_works C D enc_map fmt p u m" and "parseUuid functionId = Some k"
  shows "fst (oblak_poll C D parseUuid (map (poll_client enc_map fmt p) ms) functionId) =
    (case dropWhile (\<lambda>m. \<exists>st. polled k m = Some st \<and> \<not> final_status st) ms of
       [] \<Rightarrow> StillPolling
     | m # _ \<Rightarrow> if polled k m = None then ExitFailure else Returned)"
  using assms(1)
proof (induction ms)
  case (Cons m ms)
  have answer: "case polled k m of
      Some st \<Rightarrow> poll_answer_of D (GetFunctionStatusWithResponse C D (poll_client enc_map fmt p m) k []) =
        Answer 200 (Some (fn_status_text st))
    | None \<Rightarrow> \<exists>text. poll_answer_of D (GetFunctionStatusWithResponse C D (poll_client enc_map fmt p m) k []) = Answer 404 text"
    using poll_answer_working Cons.prems by fastforce
  then show ?case
    using Cons by (auto simp: oblak_poll_def PollFunctionStatus_def assms(2) poll_loop_stops terminal_text split: option.splits)
qed (simp add: oblak_poll_def PollFunctionStatus_def assms(2))



section \<open>oblak upload\<close>

text \<open>
  The upload over the generated client: \<open>multipart\<close> writes the form with the archive and gives its content type. The
  command loads the configuration once more than the hook of the root (\<open>reload\<close>); the CLI's own response type has
  the fields of the generated one.
\<close>

definition send_upload ::
  "(profile \<Rightarrow> client option) \<Rightarrow> client_env \<Rightarrow> api_decode \<Rightarrow> (part option list \<Rightarrow> tar_entry list \<Rightarrow> string \<times> string) \<Rightarrow>
   profile \<Rightarrow> part option list \<Rightarrow> tar_entry list \<Rightarrow> http_reply" where
  "send_upload connect C D multipart p form archive =
     (case connect p of
        None \<Rightarrow> TransportError
      | Some c \<Rightarrow>
          (case UploadLambdaWithBodyWithResponse C D c (fst (multipart form archive)) (snd (multipart form archive)) [] of
             Inl _ \<Rightarrow> TransportError
           | Inr response \<Rightarrow> HttpReply (ps_status response) (ps_body response)))"

definition oblak_upload ::
  "(profile \<Rightarrow> client option) \<Rightarrow> client_env \<Rightarrow> api_decode \<Rightarrow> (part option list \<Rightarrow> tar_entry list \<Rightarrow> string \<times> string) \<Rightarrow>
   (string \<Rightarrow> uuid option) \<Rightarrow> (string \<Rightarrow> string option) \<Rightarrow> (string \<Rightarrow> stat_result) \<Rightarrow> (string \<Rightarrow> src_node) \<Rightarrow> getenv \<Rightarrow>
   config_error + cli_config \<Rightarrow> config_error + cli_config \<Rightarrow> client list \<Rightarrow> string \<Rightarrow> command_error + poll_result \<times> printed list" where
  "oblak_upload connect C D multipart parseUuid absOf stat tree env load reload polls arg =
     (case cli_pre_run ''upload'' load fmempty of
        Inl e \<Rightarrow> Inl (ConfigError e)
      | Inr _ \<Rightarrow>
          upload_command absOf stat tree reload env (\<lambda>p. connect p \<noteq> None) (ad_upload D) (send_upload connect C D multipart) parseUuid
            (\<lambda>_ k. map (\<lambda>c. poll_answer_of D (GetFunctionStatusWithResponse C D c k [])) polls) arg)"

text \<open>What the server makes of an upload it can store.\<close>

lemma upload_stored:
  assumes "pg_outcomes s = []" and "fn_status_of s ff = None" and "\<exists>x\<in>set (pg_users s). u_id x = u"
    and "put bucket (ustr fo @ ''-function.tar.gz'')"
  shows "up_reply (UploadLambda ustr fo ff now put bucket (Some u) upload_form bus s) = Reply 200 ff"
proof -
  have "\<forall>r\<in>set (pg_functions s). f_id r \<noteq> ff"
    using assms(2) by (auto simp: fn_status_of_def status_in_def find_None_iff)
  then show ?thesis
    using assms by (auto simp: UploadLambda_def UploadFile_def upload_form_parsed create_function_def db_exec_def Let_def)
qed


text \<open>The function when it is ready, on the server of the sample call.\<close>

definition built_world :: world where
  "built_world = sample_world\<lparr>w_db := snd (CreateAuthKey (\<lambda>_ b. b) ''kek'' (Some (replicate 32 CHR ''x''))
     (Some (replicate 12 CHR ''n'')) ''key-1'' 1 ((sample_pg FnReady InvDone)\<lparr>pg_functions :=
       [\<lparr>f_id = 8, f_user = 1, f_status = FnReady, f_archive_path = ''a'', f_drive_path = Some ''d''\<rparr>]\<rparr>))\<rparr>"


end
