(* ===== verification/ServedLife.thy ===== *)
theory ServedLife
  imports ApiServer Refinement
begin

text \<open>
  The server of \<open>ApiServer\<close> inside the system of \<open>Lifecycle\<close>: what a request does to the database is a sequence of
  steps of the system, whatever the request is, so everything proved of the reachable databases and of
  the abstract life cycle holds of a system whose requests come over the API.
\<close>

section \<open>Requests, one after the other\<close>

text \<open>Each request comes in its own environment.\<close>

definition serve_all :: "('j server_env \<times> request) list \<Rightarrow> world \<Rightarrow> world" where
  "serve_all rs w = foldl (\<lambda>w (E, r). snd (serve E r w)) w rs"

section \<open>What requests can do\<close>

text \<open>
  A relation between the server's state before and after that holds of what an upload, a request to execute and
  an answer of the database do holds of everything the server does.
\<close>

locale world_relation =
  fixes R :: "world \<Rightarrow> world \<Rightarrow> bool"
  assumes same: "R w w" and chain: "R w w' \<Longrightarrow> R w' w'' \<Longrightarrow> R w w''"
    and answered: "R w (w\<lparr>w_db := (w_db w)\<lparr>pg_outcomes := outcomes\<rparr>\<rparr>)"
    and uploaded: "u = UploadLambda ustr fo ff now put bucket user body (w_bus w) (w_db w) \<Longrightarrow>
      R w (w\<lparr>w_db := up_db u, w_bus := up_bus u,
        w_objects := w_objects w @ (case up_object u of None \<Rightarrow> [] | Some p \<Rightarrow> [p])\<rparr>)"
    and requested: "ExecuteLambda parseUuid fresh now publish payload fid (w_db w) = (rep, sent, s') \<Longrightarrow>
      R w (w\<lparr>w_db := s', w_sent := w_sent w @ (case sent of None \<Rightarrow> [] | Some m \<Rightarrow> [m])\<rparr>)"
begin

lemma read: "R w (w\<lparr>w_db := snd (db_exec (\<lambda>s. (g s, s)) (w_db w))\<rparr>)"
proof (cases "pg_outcomes (w_db w)")
  case (Cons ok rest)
  then show ?thesis using answered[of w rest] by (auto simp: db_exec_def)
qed (simp add: db_exec_def same)

lemma read_result: "db_exec (\<lambda>s. (g s, s)) (w_db w) = (x, s') \<Longrightarrow> R w (w\<lparr>w_db := s'\<rparr>)"
  using read[of w g] by simp

lemma get_auth_key: "R w (w\<lparr>w_db := snd (GetAuthKey aes kek c (w_db w))\<rparr>)"
  by (auto simp: GetAuthKey_def intro: read_result split: option.splits sum.splits prod.splits)

lemma get_user_functions: "R w (snd (on_db (GetUserFunctions ustr user) w))"
  by (auto simp: on_db_def GetUserFunctions_def get_functions_by_user_with_latest_def same intro: read_result
      split: option.splits sum.splits prod.splits)

lemma get_function_status: "R w (snd (on_db (GetFunctionStatus k) w))"
  by (auto simp: on_db_def GetFunctionStatus_def get_function_status_by_id_def intro: read_result
      split: sum.splits prod.splits store_error.splits)

lemma get_function_invocations: "R w (snd (on_db (GetFunctionInvocations user k) w))"
  by (auto simp: on_db_def GetFunctionInvocations_def get_invocations_for_user_and_function_def same intro: read_result
      split: option.splits sum.splits prod.splits)

lemma get_invocation_details: "R w (snd (on_db (GetInvocationDetails getObject user k) w))"
  by (auto simp: on_db_def GetInvocationDetails_def get_invocation_details_for_user_def same intro: read_result
      split: option.splits sum.splits prod.splits)

lemma bound: "(\<And>p. R w (snd (handler p w))) \<Longrightarrow> R w (snd (bind_param bind name handler params w))"
  by (auto simp: bind_param_def same split: sum.splits)

lemma operation: "R w (snd (run_operation E user r op params w))"
proof (cases op)
  case OpExecuteLambda
  show ?thesis
    unfolding OpExecuteLambda run_operation_def Let_def operation.case wrappers_plain
    by (intro bound) (auto simp: strict_ExecuteLambda_def Let_def same intro: requested split: bound.splits prod.splits)
next
  case OpUploadLambda
  show ?thesis
    unfolding OpUploadLambda run_operation_def Let_def operation.case wrappers_plain
    by (auto simp: strict_UploadLambda_def same intro: uploaded[OF refl] split: sum.splits)
next
  case OpGetHealth
  show ?thesis by (simp add: OpGetHealth run_operation_def Let_def strict_GetHealth_def same)
next
  case OpGetUserFunctions
  show ?thesis
    unfolding OpGetUserFunctions run_operation_def Let_def operation.case wrappers_plain
    by (simp add: strict_GetUserFunctions_def split_beta get_user_functions)
next
  case OpGetFunctionStatus
  show ?thesis
    unfolding OpGetFunctionStatus run_operation_def Let_def operation.case wrappers_plain
    by (rule bound) (simp add: strict_GetFunctionStatus_def split_beta get_function_status)
next
  case OpGetFunctionInvocations
  show ?thesis
    unfolding OpGetFunctionInvocations run_operation_def Let_def operation.case wrappers_plain
    by (rule bound) (simp add: strict_GetFunctionInvocations_def split_beta get_function_invocations)
next
  case OpGetInvocationDetails
  show ?thesis
    unfolding OpGetInvocationDetails run_operation_def Let_def operation.case wrappers_plain
    by (rule bound) (simp add: strict_GetInvocationDetails_def split_beta get_invocation_details)
qed

lemma served: "R w (snd (serve E r w))"
proof (cases "se_gin E RegisterHandlers (rq_method r) (rq_path r)")
  case None
  then show ?thesis by (simp add: serve_def same)
next
  case (Some route)
  then obtain verb pattern op params where route: "route = ((verb, pattern, op), params)" by (metis prod.exhaust)
  define w' where "w' = (if se_over_limit E (r\<lparr>rq_full_path := pattern\<rparr>) \<or> isPublic pattern then w
    else w\<lparr>w_db := snd (GetAuthKey (se_aes E) (se_kek E) (fst (credentials_of (r\<lparr>rq_full_path := pattern\<rparr>))) (w_db w))\<rparr>)"
  have "R w w'" by (simp add: w'_def get_auth_key same)
  moreover have "snd (serve E r w) = w' \<or> (\<exists>user r'. snd (serve E r w) = snd (run_operation E user r' op params w'))"
    by (auto simp: serve_def Some route Let_def w'_def)
  ultimately show ?thesis using operation chain by metis
qed

lemma served_all: "R w (serve_all rs w)"
proof (induction rs arbitrary: w)
  case (Cons a rs)
  have "serve_all (a # rs) w = serve_all rs (snd (serve (fst a) (snd a) w))"
    by (simp add: serve_all_def split_beta)
  then show ?case using served[of w "fst a" "snd a"] Cons.IH[of "snd (serve (fst a) (snd a) w)"] chain by metis
qed (simp add: serve_all_def same)

end

text \<open>The same of a relation between databases.\<close>

locale request_relation =
  fixes R :: "pg \<Rightarrow> pg \<Rightarrow> bool"
  assumes same: "R s s" and chain: "R s s' \<Longrightarrow> R s' s'' \<Longrightarrow> R s s''"
    and answered: "R s (s\<lparr>pg_outcomes := outcomes\<rparr>)"
    and uploaded: "R s (up_db (UploadLambda ustr fo ff now put bucket user body bus s))"
    and requested: "R s (snd (snd (ExecuteLambda parseUuid fresh now publish payload fid s)))"

sublocale request_relation \<subseteq> on_world: world_relation "\<lambda>w w'. R (w_db w) (w_db w')"
proof
  fix parseUuid fresh now publish payload fid w rep sent s'
  assume "ExecuteLambda parseUuid fresh now publish payload fid (w_db w) = (rep, sent, s')"
  then show "R (w_db w) (w_db (w\<lparr>w_db := s', w_sent := w_sent w @ (case sent of None \<Rightarrow> [] | Some m \<Rightarrow> [m])\<rparr>))"
    using requested[of "w_db w" parseUuid fresh now publish payload fid] by simp
qed (auto simp: same answered uploaded intro: chain)

section \<open>Requests are steps of the system\<close>

interpretation steps: request_relation "sys_step\<^sup>*\<^sup>*"
  by unfold_locales (auto intro: r_into_rtranclp sys_step.intros rtranclp_trans)

lemma reachable_steps: "sys_step\<^sup>*\<^sup>* s s' \<Longrightarrow> sys_reachable s \<Longrightarrow> sys_reachable s'"
  by (induction rule: rtranclp_induct) (auto intro: sys_reachable.step)

text \<open>
  A reachable database stays reachable under any sequence of requests over the API, whoever sends them and
  whatever they contain, so the tables' keys stay intact and READY functions keep their drives.
\<close>

theorem requests_keep_reachable:
  assumes "sys_reachable (w_db w)"
  shows "sys_reachable (w_db (serve_all rs w)) \<and> sys_inv (w_db (serve_all rs w))"
  using reachable_steps[OF steps.on_world.served_all[of w rs] assms] sys_reachable_inv by blast

section \<open>Requests only add work\<close>

definition only_adds :: "life \<Rightarrow> life \<Rightarrow> bool" where
  "only_adds l l' \<longleftrightarrow>
     (\<forall>k. lf_fn l' k = lf_fn l k \<or> lf_fn l k = None \<and> lf_fn l' k = Some FnQuarantined) \<and>
     (\<forall>k. lf_inv l' k = lf_inv l k \<or> lf_inv l k = None \<and> lf_inv l' k = Some InvPending)"

lemma only_adds_same [simp]: "only_adds l l"
  by (simp add: only_adds_def)

lemma only_adds_new:
  "lf_fn l k = None \<Longrightarrow> only_adds l (set_fn k FnQuarantined l)" "lf_inv l k = None \<Longrightarrow> only_adds l (set_inv k InvPending l)"
  by (simp_all add: only_adds_def set_fn_def set_inv_def)

lemma only_adds_chain: "only_adds l l' \<Longrightarrow> only_adds l' l'' \<Longrightarrow> only_adds l l''"
  unfolding only_adds_def by (metis option.distinct(1))

lemma life_of_outcomes: "life_of (s\<lparr>pg_outcomes := outcomes\<rparr>) = life_of s"
  by (simp add: life_of_def fn_status_of_def inv_status_of_def)

lemma upload_adds: "only_adds (life_of s) (life_of (up_db (UploadLambda ustr fo ff now put bucket user body bus s)))"
proof -
  have "create_function k u FnQuarantined p s = (r, s') \<Longrightarrow> only_adds (life_of s) (life_of s')" for k u p r s'
    using create_function_move[of k u p s] only_adds_new(1)[of "life_of s" k] by auto
  then show ?thesis by (auto simp: UploadLambda_def split: option.splits sum.splits prod.splits)
qed

lemma request_adds: "only_adds (life_of s) (life_of (snd (snd (ExecuteLambda parseUuid fresh now publish body fid s))))"
proof -
  have 1: "get_function_by_id k s = (r, s') \<Longrightarrow> life_of s' = life_of s" for k r s'
    by (auto simp: get_function_by_id_def db_exec_def life_of_def fn_status_of_def inv_status_of_def split: list.splits if_splits option.splits)
  have 2: "create_invocation fresh k now s' = (r, s'') \<Longrightarrow> only_adds (life_of s') (life_of s'')" for k s' r s''
    using create_invocation_move[of fresh k now s'] only_adds_new(2)[of "life_of s'" fresh] by auto
  show ?thesis
    using 1 2 by (auto simp: ExecuteLambda_def Let_def split: option.splits prod.splits sum.splits) (metis)+
qed

interpretation adds: request_relation "\<lambda>s s'. only_adds (life_of s) (life_of s')"
  by unfold_locales (auto simp: life_of_outcomes intro: only_adds_chain upload_adds request_adds)

text \<open>
  C24: Requests over the API only add work: after any sequence of them every function and every invocation that
  there was has the status it had, a new function is QUARANTINED and a new invocation PENDING. In particular no
  request makes a function READY, however it is made.
\<close>

theorem requests_only_add_work:
  "(fn_status_of (w_db (serve_all rs w)) k = fn_status_of (w_db w) k \<or>
      fn_status_of (w_db w) k = None \<and> fn_status_of (w_db (serve_all rs w)) k = Some FnQuarantined) \<and>
   (inv_status_of (w_db (serve_all rs w)) i = inv_status_of (w_db w) i \<or>
      inv_status_of (w_db w) i = None \<and> inv_status_of (w_db (serve_all rs w)) i = Some InvPending)"
  using adds.on_world.served_all[of w rs] by (simp add: only_adds_def)

theorem requests_keep_reachable_witness:
  "sys_inv (w_db (serve_all [(sample_server, bare_request ''POST'' ''/upload-lambda'')] (sample_world\<lparr>w_db := empty_pg\<rparr>)))"
  using requests_keep_reachable[of "sample_world\<lparr>w_db := empty_pg\<rparr>" "[(sample_server, bare_request ''POST'' ''/upload-lambda'')]"]
    empty_reachable by simp

end
