(* ===== verification/Platform.thy ===== *)
theory Platform
  imports ServedLife ApiCalls Publishers DeadLetters
begin

text \<open>
  The platform as a closed system: the server, the two event workers, the analyzer, the VM service and its
  dead letters, connected by the messages they really send each other. Where \<open>Lifecycle\<close> lets every component
  take any message, here a worker takes an event of its channel and a service takes a body that was published, so
  that what runs can be traced back to what was uploaded and judged. The broker may deliver a published body
  again, late or never.
\<close>

section \<open>Archives and drives of the functions\<close>

text \<open>The columns of the functions table that name objects, with the id and the owner.\<close>

definition archives_of :: "pg \<Rightarrow> (uuid \<times> uuid \<times> string \<times> string option) list" where
  "archives_of s = map (\<lambda>f. (f_id f, f_user f, f_archive_path f, f_drive_path f)) (pg_functions s)"

lemma archives_cong: "pg_functions s' = pg_functions s \<Longrightarrow> archives_of s' = archives_of s"
  by (simp add: archives_of_def)

lemma archives_update:
  assumes "\<And>f. f_id (upd f) = f_id f \<and> f_user (upd f) = f_user f \<and> f_archive_path (upd f) = f_archive_path f \<and>
      f_drive_path (upd f) = f_drive_path f"
  shows "archives_of (snd (update_functions_where P upd s)) = archives_of s"
  using assms unfolding update_functions_where_def archives_of_def
  by (auto simp: db_exec_def split: list.splits)

lemma functions_update_invocations: "pg_functions (snd (update_invocations_where P upd s)) = pg_functions s"
  unfolding update_invocations_where_def by (auto simp: db_exec_def split: list.splits)

lemma archives_statements [simp]:
  "archives_of (snd (update_function_status k st s)) = archives_of s"
  "archives_of (snd (update_function_status_if k a st s)) = archives_of s"
  by (simp_all add: stmt_update_defs archives_update)

lemma archives_invocation_statements [simp]:
  "archives_of (snd (update_invocation_status i ist s)) = archives_of s"
  "archives_of (snd (update_invocation_status_if i ia ist s)) = archives_of s"
  "archives_of (snd (update_invocation_status_log_end i ist p t s)) = archives_of s"
  "archives_of (s\<lparr>pg_outcomes := outcomes\<rparr>) = archives_of s"
  by (auto simp: stmt_update_defs intro!: archives_cong functions_update_invocations)

lemma archives_statement_results:
  "update_function_status k st s = (r, s') \<Longrightarrow> archives_of s' = archives_of s"
  "update_function_status_if k a st s = (t, s') \<Longrightarrow> archives_of s' = archives_of s"
  "update_invocation_status_if i ia ist s = (t, s') \<Longrightarrow> archives_of s' = archives_of s"
  using archives_statements archives_invocation_statements by (metis snd_conv)+

text \<open>Every step but an upload and a build leaves them as they are.\<close>

lemma archives_quarantine: "archives_of (snd (quarantine_step getObject now e s)) = archives_of s"
  by (auto simp: quarantine_step_def Let_def dest: archives_statement_results split: sum.splits prod.splits)

lemma archives_analyze: "archives_of (pr_db (processMessage dec ans analyzer q f payload s)) = archives_of s"
  by (auto simp: processMessage_def onLand_def updateFunctionStatus_def Let_def dest!: archives_statement_results
      split: option.splits prod.splits sum.splits analysis.splits bool.splits)

lemma archives_execute: "archives_of (snd (execute ustr fmt t1 t2 runner m s)) = archives_of s"
  by (auto simp: execute_def Let_def dest!: archives_statement_results split: sum.splits prod.splits bool.splits option.splits)

lemma archives_run: "archives_of (snd (snd (execute_handle dece (execute ustr fmt t1 t2 runner) payload s))) = archives_of s"
  using archives_execute[of ustr fmt t1 t2 runner _ s]
  by (auto simp: execute_handle_def split: option.splits prod.splits) (metis snd_conv)+

lemma archives_dead_letters:
  "archives_of (mark_functions_failed decb payloads s) = archives_of s"
  "archives_of (mark_invocations_failed dece payloads s) = archives_of s"
  by (induction payloads arbitrary: s) (auto split: option.splits)

definition with_drive :: "uuid \<Rightarrow> string \<Rightarrow> uuid \<times> uuid \<times> string \<times> string option \<Rightarrow> uuid \<times> uuid \<times> string \<times> string option" where
  "with_drive k drive row = (case row of (k', u, a, d) \<Rightarrow> (k', u, a, if k' = k then Some drive else d))"

lemma archives_drive:
  "archives_of (snd (update_function_status_and_drive_path k st p s)) \<in> {archives_of s, map (with_drive k p) (archives_of s)}"
  by (auto simp: update_function_status_and_drive_path_def ignore_count_def update_functions_where_def db_exec_def archives_of_def
      with_drive_def split: list.splits)

text \<open>A drive is recorded only by a build that claimed the function and whose runner succeeded.\<close>

definition claims_function :: "uuid \<Rightarrow> pg \<Rightarrow> bool" where
  "claims_function k s \<longleftrightarrow> fst (update_function_status_if k FnVerified FnPreparingEnvironment s) = Inr True"

lemma archives_prepare:
  "archives_of (snd (prepare ustr fresh runner m s)) = archives_of s \<or>
   claims_function (bm_function m) s \<and>
   runner (bm_code_object m) (drive_object_name ustr fresh) (generate_prepare_object_name ustr (bm_function m)) = None \<and>
   archives_of (snd (prepare ustr fresh runner m s)) = map (with_drive (bm_function m) (drive_object_name ustr fresh)) (archives_of s)"
proof -
  have "update_function_status_and_drive_path k st p s1 = (r, s2) \<Longrightarrow>
      archives_of s2 = archives_of s1 \<or> archives_of s2 = map (with_drive k p) (archives_of s1)" for k st p s1 r s2
    using archives_drive[of k st p s1] by auto
  then show ?thesis
    by (auto simp: prepare_def claims_function_def Let_def dest!: archives_statement_results
        split: sum.splits prod.splits bool.splits option.splits run_error.splits) metis+
qed

section \<open>What can be observed\<close>

datatype observation =
    Stored uuid uuid string
  | Judged uuid string verdict
  | Built uuid string string
  | Ran execute_message

text \<open>New rows of the functions table, with their owner and archive.\<close>

definition stored_seen :: "pg \<Rightarrow> pg \<Rightarrow> observation list" where
  "stored_seen s s' = map (\<lambda>(k, u, a, d). Stored k u a) (drop (length (archives_of s)) (archives_of s'))"

text \<open>The verdict of an analysis, which is made only after the status was written.\<close>

definition judged_seen :: "(string \<Rightarrow> uuid \<Rightarrow> analysis) \<Rightarrow> function_message option \<Rightarrow> pg \<Rightarrow> observation list" where
  "judged_seen analyze found s =
     (case found of
        None \<Rightarrow> []
      | Some m \<Rightarrow>
          (case fst (onLand (fm_function m) s) of
             Inl _ \<Rightarrow> []
           | Inr _ \<Rightarrow>
               (case verdict_of (analyze (fm_path m) (fm_function m)) of
                  None \<Rightarrow> []
                | Some v \<Rightarrow> [Judged (fm_function m) (fm_path m) v])))"

text \<open>A build whose runner succeeded, and a run: the runner is called when the work is accepted and claimed.\<close>

definition built_seen ::
  "(uuid \<Rightarrow> string) \<Rightarrow> uuid \<Rightarrow> (string \<Rightarrow> string \<Rightarrow> string \<Rightarrow> run_error option) \<Rightarrow> build_message option \<Rightarrow> pg \<Rightarrow> observation list" where
  "built_seen ustr fresh runner found s =
     (case found of
        None \<Rightarrow> []
      | Some m \<Rightarrow>
          if validate_object_name (bm_code_object m) = None \<and> claims_function (bm_function m) s \<and>
             runner (bm_code_object m) (drive_object_name ustr fresh) (generate_prepare_object_name ustr (bm_function m)) = None
          then [Built (bm_function m) (bm_code_object m) (drive_object_name ustr fresh)] else [])"

definition ran_seen :: "execute_message option \<Rightarrow> pg \<Rightarrow> observation list" where
  "ran_seen found s =
     (case found of
        None \<Rightarrow> []
      | Some m \<Rightarrow>
          if validate_object_name (em_code_object m) = None \<and> validate_object_name (em_deps_object m) = None \<and>
             fst (update_invocation_status_if (em_invocation m) InvPending InvExecuting s) = Inr True
          then [Ran m] else [])"

lemma archives_build:
  assumes "build_handle decb (prepare ustr fresh runner) body s = (e, ack, s')"
  shows "archives_of s' = archives_of s \<or>
    (\<exists>m. decb body = Some m \<and>
       built_seen ustr fresh runner (decode_payload decb body) s =
         [Built (bm_function m) (bm_code_object m) (drive_object_name ustr fresh)] \<and>
       archives_of s' = map (with_drive (bm_function m) (drive_object_name ustr fresh)) (archives_of s))"
proof (cases "\<exists>m. decode_payload decb body = Some m \<and> validate_object_name (bm_code_object m) = None")
  case True
  then obtain m where m: "decode_payload decb body = Some m" "validate_object_name (bm_code_object m) = None" by blast
  then have "s' = snd (prepare ustr fresh runner m s)" using assms by (auto simp: build_handle_def split: prod.splits)
  moreover have "decb body = Some m" using m(1) by (simp add: decode_payload_def split: if_splits)
  ultimately show ?thesis using archives_prepare[of ustr fresh runner m s] m by (auto simp: built_seen_def)
next
  case False
  then show ?thesis using assms by (auto simp: build_handle_def split: option.splits)
qed

section \<open>What the server adds\<close>

definition events_of :: "event bus \<Rightarrow> event set" where
  "events_of b = (\<Union>ch\<in>set b. set ch)"

lemma events_publish: "e \<in> events_of (Publish x b) \<Longrightarrow> e = x \<or> e \<in> events_of b"
  by (auto simp: events_of_def Publish_def chan_send_def split: if_splits)

lemma events_received:
  assumes "i < length b" and "chan_recv (b ! i) = Some (e, ch)"
  shows "e \<in> events_of b" and "events_of (b[i := ch]) \<subseteq> events_of b"
proof -
  have bi: "b ! i = e # ch" using assms(2) by (cases "b ! i") auto
  have mem: "b ! i \<in> set b" using assms(1) by simp
  have waits: "e # ch \<in> set b" using bi mem by simp
  then show "e \<in> events_of b" by (auto simp: events_of_def intro: bexI[of _ "e # ch"])
  have "set ch \<subseteq> events_of b" using waits by (auto simp: events_of_def intro: bexI[of _ "e # ch"])
  then show "events_of (b[i := ch]) \<subseteq> events_of b"
    using set_update_subset_insert[of b i ch] by (fastforce simp: events_of_def)
qed

text \<open>
  Whatever the server does: rows are only added, without a drive; an event names an archive of the table; a
  message for the VM service names an archive and the drive recorded with it.
\<close>

definition server_adds :: "world \<Rightarrow> world \<Rightarrow> bool" where
  "server_adds w w' \<longleftrightarrow>
     (\<exists>new. archives_of (w_db w') = archives_of (w_db w) @ new \<and> (\<forall>(k, u, a, d)\<in>set new. d = None)) \<and>
     (distinct (map fst (archives_of (w_db w))) \<longrightarrow> distinct (map fst (archives_of (w_db w')))) \<and>
     (\<forall>e\<in>events_of (w_bus w') - events_of (w_bus w). \<exists>u d. (ev_function e, u, ev_path e, d) \<in> set (archives_of (w_db w'))) \<and>
     (\<forall>m\<in>set (w_sent w') - set (w_sent w).
        \<exists>k u. (k, u, em_code_object m, Some (em_deps_object m)) \<in> set (archives_of (w_db w)))"

lemma server_adds_chain:
  assumes "server_adds w w'" and "server_adds w' w''"
  shows "server_adds w w''"
proof -
  obtain new new' where new: "archives_of (w_db w') = archives_of (w_db w) @ new" "\<forall>(k, u, a, d)\<in>set new. d = None"
      and new': "archives_of (w_db w'') = archives_of (w_db w') @ new'" "\<forall>(k, u, a, d)\<in>set new'. d = None"
    using assms unfolding server_adds_def by blast
  have old: "(k, u, a, Some d) \<in> set (archives_of (w_db w')) \<Longrightarrow> (k, u, a, Some d) \<in> set (archives_of (w_db w))" for k u a d
    using new by auto
  have more: "x \<in> set (archives_of (w_db w')) \<Longrightarrow> x \<in> set (archives_of (w_db w''))" for x using new'(1) by auto
  have "\<exists>new. archives_of (w_db w'') = archives_of (w_db w) @ new \<and> (\<forall>(k, u, a, d)\<in>set new. d = None)"
    using new new' by (intro exI[of _ "new @ new'"]) auto
  moreover have "distinct (map fst (archives_of (w_db w))) \<longrightarrow> distinct (map fst (archives_of (w_db w'')))"
    using assms unfolding server_adds_def by simp
  moreover have "\<exists>u d. (ev_function e, u, ev_path e, d) \<in> set (archives_of (w_db w''))"
    if "e \<in> events_of (w_bus w'') - events_of (w_bus w)" for e
  proof (cases "e \<in> events_of (w_bus w')")
    case True
    then have "\<exists>u d. (ev_function e, u, ev_path e, d) \<in> set (archives_of (w_db w'))"
      using that assms(1) unfolding server_adds_def by simp
    then show ?thesis using more by blast
  next
    case False
    then show ?thesis using that assms(2) unfolding server_adds_def by simp
  qed
  moreover have "\<exists>k u. (k, u, em_code_object m, Some (em_deps_object m)) \<in> set (archives_of (w_db w))"
    if "m \<in> set (w_sent w'') - set (w_sent w)" for m
  proof (cases "m \<in> set (w_sent w')")
    case True
    then show ?thesis using that assms(1) unfolding server_adds_def by simp
  next
    case False
    then have "\<exists>k u. (k, u, em_code_object m, Some (em_deps_object m)) \<in> set (archives_of (w_db w'))"
      using that assms(2) unfolding server_adds_def by simp
    then show ?thesis using old by blast
  qed
  ultimately show ?thesis unfolding server_adds_def by simp
qed

lemma upload_rows:
  assumes "u = UploadLambda ustr fo ff now put bucket user body (w_bus w) (w_db w)"
  shows "server_adds w (w\<lparr>w_db := up_db u, w_bus := up_bus u, w_objects := objects\<rparr>)"
proof (cases "\<exists>v p f. create_function ff v FnQuarantined p (w_db w) = (Inr f, up_db u) \<and> up_bus u =
    Publish \<lparr>ev_function = f_id f, ev_user = f_user f, ev_bucket = bucket, ev_path = f_archive_path f, ev_time = now\<rparr> (w_bus w)")
  case True
  then obtain v p f where f: "create_function ff v FnQuarantined p (w_db w) = (Inr f, up_db u)"
      "up_bus u = Publish \<lparr>ev_function = f_id f, ev_user = f_user f, ev_bucket = bucket, ev_path = f_archive_path f, ev_time = now\<rparr> (w_bus w)"
    by blast
  then have "archives_of (up_db u) = archives_of (w_db w) @ [(f_id f, f_user f, f_archive_path f, None)]"
    and "f_id f \<notin> fst ` set (archives_of (w_db w))"
    using create_function_ok[OF f(1)] by (auto simp: archives_of_def image_iff)
  then show ?thesis by (auto simp: server_adds_def f(2) dest!: events_publish) blast
next
  case False
  then have "archives_of (up_db u) = archives_of (w_db w) \<and> up_bus u = w_bus w"
    using assms by (auto simp: UploadLambda_def Let_def intro: archives_cong dest: create_function_err
        split: option.splits sum.splits prod.splits)
  then show ?thesis by (simp add: server_adds_def)
qed

lemma request_rows:
  assumes "ExecuteLambda parseUuid fresh now publish payload fid s = (rep, sent, s')"
  shows "archives_of s' = archives_of s" and
    "sent = Some m \<Longrightarrow> \<exists>k u. (k, u, em_code_object m, Some (em_deps_object m)) \<in> set (archives_of s)"
proof -
  have "create_invocation i k t s1 = (r, s2) \<Longrightarrow> pg_functions s2 = pg_functions s1" for i k t s1 r s2
    by (auto simp: create_invocation_def db_exec_def Let_def split: list.splits if_splits)
  moreover have "get_function_by_id k s = (r, s1) \<Longrightarrow> pg_functions s1 = pg_functions s" for k r s1
    by (auto simp: get_function_by_id_def db_exec_def split: list.splits if_splits option.splits)
  ultimately show "archives_of s' = archives_of s"
    using assms by (intro archives_cong) (auto simp: ExecuteLambda_def Let_def split: sum.splits option.splits prod.splits if_splits)
  assume "sent = Some m"
  then obtain k f s1 drive where f: "get_function_by_id k s = (Inr f, s1)" "f_drive_path f = Some drive"
      "em_code_object m = f_archive_path f" "em_deps_object m = drive"
    using assms by (auto simp: ExecuteLambda_def Let_def split: sum.splits option.splits prod.splits if_splits)
  then have "f \<in> set (pg_functions s)"
    using get_function_by_id_ok[OF f(1)] by (auto simp: find_function_def find_Some_iff)
  then show "\<exists>k u. (k, u, em_code_object m, Some (em_deps_object m)) \<in> set (archives_of s)"
    using f by (force simp: archives_of_def)
qed

lemma server_adds_same:
  "archives_of (w_db w') = archives_of (w_db w) \<Longrightarrow> w_bus w' = w_bus w \<Longrightarrow> w_sent w' = w_sent w \<Longrightarrow> server_adds w w'"
  by (simp add: server_adds_def)

interpretation server: world_relation server_adds
proof
  fix w w' w'' :: world assume "server_adds w w'" "server_adds w' w''"
  then show "server_adds w w''" by (rule server_adds_chain)
next
  fix parseUuid fresh now publish payload fid rep sent s' and w :: world
  assume "ExecuteLambda parseUuid fresh now publish payload fid (w_db w) = (rep, sent, s')"
  from request_rows[OF this]
  show "server_adds w (w\<lparr>w_db := s', w_sent := w_sent w @ (case sent of None \<Rightarrow> [] | Some m \<Rightarrow> [m])\<rparr>)"
    by (auto simp: server_adds_def split: option.splits)
qed (auto intro: upload_rows server_adds_same)

section \<open>The platform\<close>

text \<open>
  The server's state, the channels of the extraction bus, and the bodies published for the analyzer and for the
  build workers. The messages for the execute workers are those of \<open>w_sent\<close>.
\<close>

record platform =
  pl_world :: world
  pl_extraction :: "event bus"
  pl_analysis :: "string list"
  pl_builds :: "string list"

abbreviation pl_db :: "platform \<Rightarrow> pg" where
  "pl_db p \<equiv> w_db (pl_world p)"

definition set_db :: "pg \<Rightarrow> platform \<Rightarrow> platform" where
  "set_db s p = p\<lparr>pl_world := (pl_world p)\<lparr>w_db := s\<rparr>\<rparr>"

text \<open>\<open>encoding/json\<close>: the type of the values the server decodes requests to, and the three kinds of messages.\<close>

record 'j wire =
  wi_values :: "'j itself"
  wi_fun_enc :: "function_message \<Rightarrow> string option"
  wi_fun_dec :: "string \<Rightarrow> function_message option"
  wi_build_enc :: "build_message \<Rightarrow> string option"
  wi_build_dec :: "string \<Rightarrow> build_message option"
  wi_exec_enc :: "execute_message \<Rightarrow> string option"
  wi_exec_dec :: "string \<Rightarrow> execute_message option"

definition wire_documented :: "'j wire \<Rightarrow> bool" where
  "wire_documented W \<longleftrightarrow> codec (wi_fun_enc W) (wi_fun_dec W) \<and> codec (wi_build_enc W) (wi_build_dec W) \<and>
     codec (wi_exec_enc W) (wi_exec_dec W)"

text \<open>The bodies a publisher got to the broker.\<close>

definition published :: "(publish_op \<Rightarrow> bool) \<Rightarrow> publish_op list \<Rightarrow> string list" where
  "published ok tr = concat (map (\<lambda>op. case op of PublishBody topic body \<Rightarrow> if ok op then [body] else [] | _ \<Rightarrow> []) tr)"

definition builds_published ::
  "(publish_op \<Rightarrow> bool) \<Rightarrow> (build_message \<Rightarrow> string option) \<Rightarrow> getenv \<Rightarrow> ext_call list \<Rightarrow> string list" where
  "builds_published ok marshal env calls =
     concat (map (\<lambda>c. case c of PublishBuild k path \<Rightarrow> published ok (snd (vmpublish_Publish ok marshal env k path)) | _ \<Rightarrow> []) calls)"

inductive platform_step :: "'j wire \<Rightarrow> platform \<Rightarrow> observation list \<Rightarrow> platform \<Rightarrow> bool" for W :: "'j wire" where
  serve: "w' = snd (serve (E :: 'j server_env) r (pl_world p)) \<Longrightarrow>
    platform_step W p (stored_seen (pl_db p) (w_db w')) (p\<lparr>pl_world := w'\<rparr>)"
| quarantine: "i < length (w_bus (pl_world p)) \<Longrightarrow> chan_recv (w_bus (pl_world p) ! i) = Some (e, ch) \<Longrightarrow>
    quarantine_step getObject now e (pl_db p) = (out, s') \<Longrightarrow>
    platform_step W p []
      (p\<lparr>pl_world := (pl_world p)\<lparr>w_db := s', w_bus := (w_bus (pl_world p))[i := ch]\<rparr>,
         pl_extraction := (case out of None \<Rightarrow> pl_extraction p | Some x \<Rightarrow> Publish x (pl_extraction p))\<rparr>)"
| hand_over: "i < length (pl_extraction p) \<Longrightarrow> chan_recv (pl_extraction p ! i) = Some (e, ch) \<Longrightarrow>
    platform_step W p []
      (p\<lparr>pl_extraction := (pl_extraction p)[i := ch],
         pl_analysis := pl_analysis p @
           published ok (snd (StartPublisher ok (wi_fun_enc W) (CreateMessage bucket (ev_function e) (ev_path e))))\<rparr>)"
| analyze: "body \<in> set (pl_analysis p) \<Longrightarrow>
    r = processMessage (wi_fun_dec W) ans (AnalyzeFile ustr reports P) quarantine safe body (pl_db p) \<Longrightarrow>
    platform_step W p (judged_seen (AnalyzeFile ustr reports P) (wi_fun_dec W body) (pl_db p))
      ((set_db (pr_db r) p)\<lparr>pl_builds := pl_builds p @ builds_published ok (wi_build_enc W) env (pr_calls r)\<rparr>)"
| build: "body \<in> set (pl_builds p) \<Longrightarrow>
    build_handle (wi_build_dec W) (prepare ustr fresh runner) body (pl_db p) = (e, ack, s') \<Longrightarrow>
    platform_step W p (built_seen ustr fresh runner (decode_payload (wi_build_dec W) body) (pl_db p)) (set_db s' p)"
| run: "m \<in> set (w_sent (pl_world p)) \<Longrightarrow> wi_exec_enc W m = Some body \<Longrightarrow>
    execute_handle (wi_exec_dec W) (execute ustr fmt t1 t2 erunner) body (pl_db p) = (e, ack, s') \<Longrightarrow>
    platform_step W p (ran_seen (decode_payload (wi_exec_dec W) body) (pl_db p)) (set_db s' p)"
| build_dead: "set bodies \<subseteq> set (pl_builds p) \<Longrightarrow>
    status_fail_publish (wi_build_dec W) (base :: string \<Rightarrow> string list \<Rightarrow> string option) topic bodies (pl_db p) = (e, s') \<Longrightarrow>
    platform_step W p [] (set_db s' p)"
| run_dead: "(\<And>b. b \<in> set bodies \<Longrightarrow> \<exists>m\<in>set (w_sent (pl_world p)). wi_exec_enc W m = Some b) \<Longrightarrow>
    execute_status_fail_publish (wi_exec_dec W) (base :: string \<Rightarrow> string list \<Rightarrow> string option) topic bodies (pl_db p) = (e, s') \<Longrightarrow>
    platform_step W p [] (set_db s' p)"
| create_user: "create_user fresh name email (pl_db p) = (r, s') \<Longrightarrow> platform_step W p [] (set_db s' p)"
| create_key: "CreateAuthKey aes kek raw nonce authID userID (pl_db p) = (k, s') \<Longrightarrow> platform_step W p [] (set_db s' p)"
| outage: "platform_step W p [] (set_db ((pl_db p)\<lparr>pg_outcomes := outcomes\<rparr>) p)"

definition fresh_platform :: "platform \<Rightarrow> bool" where
  "fresh_platform p \<longleftrightarrow> pg_functions (pl_db p) = [] \<and> pg_invocations (pl_db p) = [] \<and> accounts_ok (pl_db p) \<and>
     w_bus (pl_world p) = [[]] \<and> w_sent (pl_world p) = [] \<and> pl_extraction p = [[]] \<and> pl_analysis p = [] \<and> pl_builds p = []"

inductive platform_run :: "'j wire \<Rightarrow> observation list \<Rightarrow> platform \<Rightarrow> bool" for W :: "'j wire" where
  start: "fresh_platform p \<Longrightarrow> platform_run W [] p"
| step: "platform_run W tr p \<Longrightarrow> platform_step W p obs p' \<Longrightarrow> platform_run W (tr @ obs) p'"

section \<open>The database of the platform\<close>

text \<open>What a step of the platform does to the database, the system of \<open>Lifecycle\<close> can do.\<close>

lemma platform_step_sys:
  assumes "platform_step W p obs p'"
  shows "sys_step\<^sup>*\<^sup>* (pl_db p) (pl_db p')"
  using assms
proof cases
  case (serve w' E r)
  then show ?thesis using steps.on_world.served[of "pl_world p" E r] by simp
next
  case (quarantine i e ch getObject now out s')
  then show ?thesis using sys_step.quarantine[of "pl_db p" getObject now e] by auto
next
  case (analyze body r ans ustr reports P quarantine safe ok env)
  then show ?thesis
    using sys_step.analyze[of "pl_db p" "wi_fun_dec W" ans "AnalyzeFile ustr reports P" quarantine safe body] by (auto simp: set_db_def)
next
  case (build body ustr fresh runner e ack s')
  then show ?thesis using sys_step.build[of "pl_db p" "wi_build_dec W" ustr fresh runner body] by (auto simp: set_db_def)
next
  case (run m body ustr fmt t1 t2 erunner e ack s')
  then show ?thesis using sys_step.run[of "pl_db p" "wi_exec_dec W" ustr fmt t1 t2 erunner body] by (auto simp: set_db_def)
next
  case (build_dead bodies base topic e s')
  then show ?thesis using sys_step.build_dead[of "pl_db p" "wi_build_dec W" base topic bodies] by (auto simp: set_db_def)
next
  case (run_dead bodies base topic e s')
  then show ?thesis using sys_step.run_dead[of "pl_db p" "wi_exec_dec W" base topic bodies] by (auto simp: set_db_def)
next
  case (create_user fresh name email r s')
  then show ?thesis using sys_step.new_user[of "pl_db p" fresh name email] by (auto simp: set_db_def)
next
  case (create_key aes kek raw nonce authID userID k s')
  then show ?thesis using sys_step.new_key[of "pl_db p" aes kek raw nonce authID userID] by (auto simp: set_db_def)
next
  case (outage outcomes)
  then show ?thesis using sys_step.outage[of "pl_db p" outcomes] by (auto simp: set_db_def)
qed auto

text \<open>The closed system refines the open one, so its databases have the invariant and its statuses the life cycle.\<close>

lemma platform_reachable: "platform_run W tr p \<Longrightarrow> sys_reachable (pl_db p)"
proof (induction rule: platform_run.induct)
  case (start p)
  then show ?case by (intro sys_reachable.start) (simp_all add: fresh_platform_def)
next
  case (step tr p obs p')
  then show ?case using platform_step_sys reachable_steps by blast
qed

section \<open>Every observation has its cause\<close>

text \<open>
  What has to be observed before an observation: a verdict is of an archive that was uploaded for the function, a
  drive is built from an archive the analyzer called SAFE, and what runs is an archive with the drive built from it.
\<close>

fun caused :: "observation set \<Rightarrow> observation \<Rightarrow> bool" where
  "caused past (Stored k u a) = True"
| "caused past (Judged k a v) = (\<exists>u. Stored k u a \<in> past)"
| "caused past (Built k a d) = ((\<exists>u. Stored k u a \<in> past) \<and> Judged k a SAFE \<in> past)"
| "caused past (Ran m) = (\<exists>k. Built k (em_code_object m) (em_deps_object m) \<in> past)"

lemma caused_mono: "caused past x \<Longrightarrow> past \<subseteq> past' \<Longrightarrow> caused past' x"
  by (cases x) auto

inductive gated :: "observation list \<Rightarrow> bool" where
  nothing: "gated []"
| more: "gated tr \<Longrightarrow> caused (set tr) x \<Longrightarrow> gated (tr @ [x])"

inductive_cases gated_snocE: "gated (tr @ [x])"

lemma gated_before: "gated (pre @ post) \<Longrightarrow> gated pre"
  by (induction post rule: rev_induct) (auto simp flip: append_assoc elim: gated_snocE)

lemma gated_caused: "gated (pre @ x # post) \<Longrightarrow> caused (set pre) x"
  using gated_before[of "pre @ [x]" post] by (auto elim: gated_snocE)

lemma gated_more: "gated tr \<Longrightarrow> \<forall>x\<in>set obs. caused (set tr) x \<Longrightarrow> gated (tr @ obs)"
proof (induction obs rule: rev_induct)
  case (snoc x obs)
  then have "gated (tr @ obs)" "caused (set (tr @ obs)) x" by (auto intro: caused_mono)
  then show ?case using gated.more[of "tr @ obs" x] by simp
qed simp

text \<open>What the state says of the observations made so far.\<close>

definition row_names :: "(uuid \<times> uuid \<times> string \<times> string option) list \<Rightarrow> uuid \<Rightarrow> string \<Rightarrow> bool" where
  "row_names rows k a \<longleftrightarrow> (\<exists>u d. (k, u, a, d) \<in> set rows)"

definition rows_traced :: "observation set \<Rightarrow> (uuid \<times> uuid \<times> string \<times> string option) list \<Rightarrow> bool" where
  "rows_traced seen rows \<longleftrightarrow> distinct (map fst rows) \<and>
     (\<forall>(k, u, a, d)\<in>set rows. Stored k u a \<in> seen \<and> (\<forall>x. d = Some x \<longrightarrow> Built k a x \<in> seen))"

definition work_traced :: "'j wire \<Rightarrow> observation set \<Rightarrow> platform \<Rightarrow> bool" where
  "work_traced W seen p \<longleftrightarrow>
     (\<forall>e\<in>events_of (w_bus (pl_world p)) \<union> events_of (pl_extraction p). row_names (archives_of (pl_db p)) (ev_function e) (ev_path e)) \<and>
     (\<forall>b\<in>set (pl_analysis p). \<forall>m. wi_fun_dec W b = Some m \<longrightarrow> row_names (archives_of (pl_db p)) (fm_function m) (fm_path m)) \<and>
     (\<forall>b\<in>set (pl_builds p). \<forall>m. wi_build_dec W b = Some m \<longrightarrow>
        row_names (archives_of (pl_db p)) (bm_function m) (bm_code_object m) \<and> Judged (bm_function m) (bm_code_object m) SAFE \<in> seen) \<and>
     (\<forall>m\<in>set (w_sent (pl_world p)). \<exists>k. Built k (em_code_object m) (em_deps_object m) \<in> seen)"

definition traced :: "'j wire \<Rightarrow> observation list \<Rightarrow> platform \<Rightarrow> bool" where
  "traced W tr p \<longleftrightarrow> gated tr \<and> rows_traced (set tr) (archives_of (pl_db p)) \<and> work_traced W (set tr) p"

lemma row_names_stored: "row_names rows k a \<Longrightarrow> rows_traced seen rows \<Longrightarrow> \<exists>u. Stored k u a \<in> seen"
  by (fastforce simp: row_names_def rows_traced_def)

lemma rows_tracedD: "rows_traced seen rows \<Longrightarrow> (k, u, a, d) \<in> set rows \<Longrightarrow> Stored k u a \<in> seen \<and> (\<forall>x. d = Some x \<longrightarrow> Built k a x \<in> seen)"
  by (auto simp: rows_traced_def)

lemma rows_tracedI:
  assumes "distinct (map fst rows)"
    and "\<And>k u a d. (k, u, a, d) \<in> set rows \<Longrightarrow> Stored k u a \<in> seen \<and> (\<forall>x. d = Some x \<longrightarrow> Built k a x \<in> seen)"
  shows "rows_traced seen rows"
  using assms by (auto simp: rows_traced_def)

lemma rows_more: "rows_traced seen rows \<Longrightarrow> seen \<subseteq> seen' \<Longrightarrow> rows_traced seen' rows"
  by (fastforce simp: rows_traced_def)

text \<open>Work stays accounted for when more is seen and the rows keep their archives.\<close>

lemma work_more:
  assumes "work_traced W seen p" and "seen \<subseteq> seen'"
    and "\<And>k a. row_names (archives_of (pl_db p)) k a \<Longrightarrow> row_names (archives_of (pl_db p')) k a"
    and "events_of (w_bus (pl_world p')) \<subseteq> events_of (w_bus (pl_world p))" and "pl_extraction p' = pl_extraction p"
    and "pl_analysis p' = pl_analysis p" and "pl_builds p' = pl_builds p" and "w_sent (pl_world p') = w_sent (pl_world p)"
  shows "work_traced W seen' p'"
  using assms unfolding work_traced_def by (simp add: subset_iff Ball_def) blast

lemma set_db_fields [simp]:
  "pl_db (set_db s p) = s" "w_bus (pl_world (set_db s p)) = w_bus (pl_world p)"
  "w_sent (pl_world (set_db s p)) = w_sent (pl_world p)" "pl_extraction (set_db s p) = pl_extraction p"
  "pl_analysis (set_db s p) = pl_analysis p" "pl_builds (set_db s p) = pl_builds p"
  by (simp_all add: set_db_def)

text \<open>A step that leaves the archives as they are and adds no work.\<close>

lemma traced_idle:
  assumes "traced W tr p" and "archives_of s' = archives_of (pl_db p)" and "\<forall>x\<in>set obs. caused (set tr) x"
  shows "traced W (tr @ obs) (set_db s' p)"
proof -
  have "work_traced W (set (tr @ obs)) (set_db s' p)"
    using assms(1,2) by (intro work_more[of W "set tr" p "set (tr @ obs)" "set_db s' p"]) (auto simp: traced_def)
  then show ?thesis using assms by (auto simp: traced_def intro: gated_more rows_more)
qed

section \<open>The steps\<close>

lemma served_rows:
  assumes "rows_traced (set tr) (archives_of (pl_db p))" and "server_adds (pl_world p) w'"
  shows "rows_traced (set (tr @ stored_seen (pl_db p) (w_db w'))) (archives_of (w_db w'))"
proof (rule rows_tracedI)
  obtain new where new: "archives_of (w_db w') = archives_of (pl_db p) @ new" "\<forall>(k, u, a, d)\<in>set new. d = None"
    using assms(2) by (auto simp: server_adds_def)
  then have seen: "stored_seen (pl_db p) (w_db w') = map (\<lambda>(k, u, a, d). Stored k u a) new"
    by (simp add: stored_seen_def)
  show "distinct (map fst (archives_of (w_db w')))" using assms by (simp add: rows_traced_def server_adds_def)
  fix k u a d assume "(k, u, a, d) \<in> set (archives_of (w_db w'))"
  then show "Stored k u a \<in> set (tr @ stored_seen (pl_db p) (w_db w')) \<and>
      (\<forall>x. d = Some x \<longrightarrow> Built k a x \<in> set (tr @ stored_seen (pl_db p) (w_db w')))"
    using rows_tracedD[OF assms(1), of k u a d] new by (force simp: seen)
qed

lemma served_work:
  assumes "work_traced W (set tr) p" and "rows_traced (set tr) (archives_of (pl_db p))" and "server_adds (pl_world p) w'"
  shows "work_traced W (set (tr @ obs)) (p\<lparr>pl_world := w'\<rparr>)"
proof -
  have kept: "row_names (archives_of (pl_db p)) k a \<Longrightarrow> row_names (archives_of (w_db w')) k a" for k a
    using assms(3) unfolding row_names_def server_adds_def by (metis UnI1 set_append)
  have events: "row_names (archives_of (w_db w')) (ev_function e) (ev_path e)"
    if "e \<in> events_of (w_bus w') \<union> events_of (pl_extraction p)" for e
  proof (cases "e \<in> events_of (w_bus (pl_world p)) \<union> events_of (pl_extraction p)")
    case True
    then show ?thesis using assms(1) kept by (auto simp: work_traced_def)
  next
    case False
    then show ?thesis using that assms(3) by (auto simp: server_adds_def row_names_def)
  qed
  have sent: "\<exists>k. Built k (em_code_object m) (em_deps_object m) \<in> set tr" if "m \<in> set (w_sent w')" for m
  proof (cases "m \<in> set (w_sent (pl_world p))")
    case True
    then show ?thesis using assms(1) by (auto simp: work_traced_def)
  next
    case False
    then have "\<exists>k u. (k, u, em_code_object m, Some (em_deps_object m)) \<in> set (archives_of (pl_db p))"
      using that assms(3) by (simp add: server_adds_def)
    then show ?thesis using rows_tracedD[OF assms(2)] by blast
  qed
  show ?thesis using events sent assms(1) kept by (fastforce simp: work_traced_def)
qed

lemma traced_serve:
  assumes "traced W tr p" and "server_adds (pl_world p) w'"
  shows "traced W (tr @ stored_seen (pl_db p) (w_db w')) (p\<lparr>pl_world := w'\<rparr>)"
proof -
  have "gated (tr @ stored_seen (pl_db p) (w_db w'))"
    using assms(1) by (intro gated_more) (auto simp: traced_def stored_seen_def)
  moreover have "work_traced W (set (tr @ stored_seen (pl_db p) (w_db w'))) (p\<lparr>pl_world := w'\<rparr>)"
    using assms by (intro served_work) (auto simp: traced_def)
  ultimately show ?thesis using assms served_rows[OF _ assms(2)] by (simp add: traced_def del: set_append)
qed

lemma traced_quarantine:
  assumes "traced W tr p" and "i < length (w_bus (pl_world p))" and "chan_recv (w_bus (pl_world p) ! i) = Some (e, ch)"
    and "quarantine_step getObject now e (pl_db p) = (out, s')"
  shows "traced W tr (p\<lparr>pl_world := (pl_world p)\<lparr>w_db := s', w_bus := (w_bus (pl_world p))[i := ch]\<rparr>,
         pl_extraction := (case out of None \<Rightarrow> pl_extraction p | Some x \<Rightarrow> Publish x (pl_extraction p))\<rparr>)"
proof -
  have same: "archives_of s' = archives_of (pl_db p)"
    using archives_quarantine[of getObject now e "pl_db p"] assms(4) by simp
  have out: "x = e\<lparr>ev_time := now\<rparr>" if "out = Some x" for x
    using assms(4) that by (auto simp: quarantine_step_def Let_def split: sum.splits prod.splits)
  have work: "work_traced W (set tr) p" using assms(1) by (simp add: traced_def)
  note ev = events_received[OF assms(2,3)]
  have "row_names (archives_of s') (ev_function e) (ev_path e)" using work ev(1) same by (auto simp: work_traced_def)
  then have "row_names (archives_of s') (ev_function x) (ev_path x)"
    if "x \<in> events_of ((w_bus (pl_world p))[i := ch]) \<union>
        events_of (case out of None \<Rightarrow> pl_extraction p | Some x \<Rightarrow> Publish x (pl_extraction p))" for x
    using that work ev(2) same out by (auto simp: work_traced_def split: option.splits dest!: events_publish)
  then show ?thesis using assms(1) same by (simp add: traced_def work_traced_def)
qed

lemma published_body:
  assumes "b \<in> set (published ok (snd (StartPublisher ok marshal m)))"
  shows "marshal m = Some b"
  using assms by (auto simp: published_def StartPublisher_def publish_json_def step_def split: option.splits if_splits)

lemma traced_hand_over:
  assumes "traced W tr p" and "wire_documented W" and "i < length (pl_extraction p)"
    and "chan_recv (pl_extraction p ! i) = Some (e, ch)"
  shows "traced W tr (p\<lparr>pl_extraction := (pl_extraction p)[i := ch],
         pl_analysis := pl_analysis p @
           published ok (snd (StartPublisher ok (wi_fun_enc W) (CreateMessage bucket (ev_function e) (ev_path e))))\<rparr>)"
proof -
  have work: "work_traced W (set tr) p" using assms(1) by (simp add: traced_def)
  note ev = events_received[OF assms(3,4)]
  have "row_names (archives_of (pl_db p)) (ev_function e) (ev_path e)" using work ev(1) by (auto simp: work_traced_def)
  moreover have "wi_fun_dec W b = Some (CreateMessage bucket (ev_function e) (ev_path e))"
    if "b \<in> set (published ok (snd (StartPublisher ok (wi_fun_enc W) (CreateMessage bucket (ev_function e) (ev_path e)))))" for b
    using published_body[OF that] assms(2) codec.decode_encode by (fastforce simp: wire_documented_def)
  ultimately have "work_traced W (set tr) (p\<lparr>pl_extraction := (pl_extraction p)[i := ch], pl_analysis := pl_analysis p @
           published ok (snd (StartPublisher ok (wi_fun_enc W) (CreateMessage bucket (ev_function e) (ev_path e))))\<rparr>)"
    using work ev(2) by (auto simp: work_traced_def CreateMessage_def)
  then show ?thesis using assms(1) by (simp add: traced_def)
qed

lemma published_build:
  assumes "b \<in> set (builds_published ok marshal env calls)"
  obtains k path where "PublishBuild k path \<in> set calls" "marshal \<lparr>bm_function = k, bm_code_object = path\<rparr> = Some b"
  using assms by (auto simp: builds_published_def published_def vmpublish_Publish_def publish_json_def step_def deferred_def
      split: ext_call.splits option.splits if_splits)

text \<open>A build asked for by the analyzer comes with the verdict SAFE on the archive it names.\<close>

lemma build_asked:
  assumes "PublishBuild k path \<in> set (pr_calls (processMessage dec ans (AnalyzeFile ustr reports P) quarantine functions body s))"
  shows "\<exists>m. dec body = Some m \<and> k = fm_function m \<and> path = fm_path m \<and>
    judged_seen (AnalyzeFile ustr reports P) (dec body) s = [Judged k path SAFE]"
proof -
  obtain m where m: "dec body = Some m" "k = fm_function m" "path = fm_path m"
      "verdict_of (AnalyzeFile ustr reports P path k) = Some SAFE"
    using build_only_if_safe[OF assms] by blast
  moreover have "\<exists>x. fst (onLand (fm_function m) s) = Inr x"
    using assms m(1) by (cases "fst (onLand (fm_function m) s)") (auto simp: processMessage_def split: prod.splits)
  ultimately show ?thesis by (auto simp: judged_seen_def)
qed

lemma judged_names: "x \<in> set (judged_seen analyze found s) \<Longrightarrow> \<exists>m v. found = Some m \<and> x = Judged (fm_function m) (fm_path m) v"
  by (auto simp: judged_seen_def split: option.splits sum.splits)

lemma traced_analyze:
  assumes "traced W tr p" and "wire_documented W" and "body \<in> set (pl_analysis p)"
    and "r = processMessage (wi_fun_dec W) ans (AnalyzeFile ustr reports P) quarantine functions body (pl_db p)"
  shows "traced W (tr @ judged_seen (AnalyzeFile ustr reports P) (wi_fun_dec W body) (pl_db p))
      ((set_db (pr_db r) p)\<lparr>pl_builds := pl_builds p @ builds_published ok (wi_build_enc W) env (pr_calls r)\<rparr>)"
proof -
  let ?obs = "judged_seen (AnalyzeFile ustr reports P) (wi_fun_dec W body) (pl_db p)"
  have work: "work_traced W (set tr) p" and rows: "rows_traced (set tr) (archives_of (pl_db p))"
    using assms(1) by (auto simp: traced_def)
  have row: "row_names (archives_of (pl_db p)) (fm_function m) (fm_path m)" if "wi_fun_dec W body = Some m" for m
    using work assms(3) that by (auto simp: work_traced_def)
  have "\<forall>x\<in>set ?obs. caused (set tr) x" using row row_names_stored[OF _ rows] by (auto dest!: judged_names)
  then have idle: "traced W (tr @ ?obs) (set_db (pr_db r) p)"
    by (intro traced_idle[OF assms(1)]) (simp_all add: assms(4) archives_analyze)
  have "row_names (archives_of (pr_db r)) (bm_function m) (bm_code_object m) \<and> Judged (bm_function m) (bm_code_object m) SAFE \<in> set (tr @ ?obs)"
    if "b \<in> set (builds_published ok (wi_build_enc W) env (pr_calls r))" "wi_build_dec W b = Some m" for b m
  proof -
    note b = that
    obtain k path where kp: "PublishBuild k path \<in> set (pr_calls r)" "wi_build_enc W \<lparr>bm_function = k, bm_code_object = path\<rparr> = Some b"
      using published_build[OF b(1)] .
    have "m = \<lparr>bm_function = k, bm_code_object = path\<rparr>"
      using kp(2) b(2) assms(2) codec.decode_encode by (fastforce simp: wire_documented_def)
    then show ?thesis using build_asked[OF kp(1)[unfolded assms(4)]] row by (auto simp: assms(4) archives_analyze)
  qed
  then show ?thesis using idle by (auto simp: traced_def work_traced_def)
qed

lemma traced_build:
  assumes "traced W tr p" and "body \<in> set (pl_builds p)"
    and "build_handle (wi_build_dec W) (prepare ustr fresh runner) body (pl_db p) = (e, ack, s')"
  shows "traced W (tr @ built_seen ustr fresh runner (decode_payload (wi_build_dec W) body) (pl_db p)) (set_db s' p)"
proof -
  let ?obs = "built_seen ustr fresh runner (decode_payload (wi_build_dec W) body) (pl_db p)"
  have work: "work_traced W (set tr) p" and rows: "rows_traced (set tr) (archives_of (pl_db p))" and "gated tr"
    using assms(1) by (auto simp: traced_def)
  have row: "row_names (archives_of (pl_db p)) (bm_function m) (bm_code_object m) \<and> Judged (bm_function m) (bm_code_object m) SAFE \<in> set tr"
    if "wi_build_dec W body = Some m" for m
    using work assms(2) that by (auto simp: work_traced_def)
  have obs: "\<forall>x\<in>set ?obs. caused (set tr) x"
    using row row_names_stored[OF _ rows] by (auto simp: built_seen_def decode_payload_def split: option.splits if_splits)
  show ?thesis
  proof (cases "archives_of s' = archives_of (pl_db p)")
    case True
    then show ?thesis using traced_idle[OF assms(1) _ obs] by simp
  next
    case False
    then obtain m where m: "wi_build_dec W body = Some m"
        "?obs = [Built (bm_function m) (bm_code_object m) (drive_object_name ustr fresh)]"
        "archives_of s' = map (with_drive (bm_function m) (drive_object_name ustr fresh)) (archives_of (pl_db p))"
      using archives_build[OF assms(3)] by blast
    have ids: "map fst (archives_of s') = map fst (archives_of (pl_db p))"
      by (simp add: m(3) with_drive_def split_beta)
    have only: "a = bm_code_object m" if "(bm_function m, u, a, d) \<in> set (archives_of (pl_db p))" for u a d
      using row[OF m(1)] that rows by (auto simp: row_names_def rows_traced_def dest: eq_key_imp_eq_value)
    have "row_names (archives_of s') k a" if "row_names (archives_of (pl_db p)) k a" for k a
      using that by (auto simp: row_names_def m(3) with_drive_def image_iff split_beta) (metis fst_conv snd_conv)
    note named = this
    have "Stored k u a \<in> set (tr @ ?obs) \<and> (\<forall>x. d = Some x \<longrightarrow> Built k a x \<in> set (tr @ ?obs))"
      if "(k, u, a, d) \<in> set (archives_of s')" for k u a d
    proof -
      obtain d0 where row0: "(k, u, a, d0) \<in> set (archives_of (pl_db p))"
          "d = (if k = bm_function m then Some (drive_object_name ustr fresh) else d0)"
        using \<open>(k, u, a, d) \<in> set (archives_of s')\<close> by (auto simp: m(3) with_drive_def)
      then show ?thesis using rows_tracedD[OF rows row0(1)] only by (auto simp: m(2) split: if_splits)
    qed
    moreover have "distinct (map fst (archives_of s'))" using rows by (simp add: rows_traced_def ids)
    ultimately have "rows_traced (set (tr @ ?obs)) (archives_of s')" by (intro rows_tracedI) auto
    moreover have "work_traced W (set (tr @ ?obs)) (set_db s' p)"
      using work named by (intro work_more[of W "set tr" p "set (tr @ ?obs)" "set_db s' p"]) auto
    moreover have "gated (tr @ ?obs)" using gated_more[OF \<open>gated tr\<close> obs] .
    ultimately show ?thesis by (simp add: traced_def)
  qed
qed

lemma traced_run:
  assumes "traced W tr p" and "wire_documented W" and "m \<in> set (w_sent (pl_world p))" and "wi_exec_enc W m = Some body"
    and "execute_handle (wi_exec_dec W) (execute ustr fmt t1 t2 erunner) body (pl_db p) = (e, ack, s')"
  shows "traced W (tr @ ran_seen (decode_payload (wi_exec_dec W) body) (pl_db p)) (set_db s' p)"
proof (rule traced_idle[OF assms(1)])
  show "archives_of s' = archives_of (pl_db p)"
    using archives_run[of "wi_exec_dec W" ustr fmt t1 t2 erunner body "pl_db p"] assms(5) by simp
  have "wi_exec_dec W body = Some m" using assms(2,4) codec.decode_encode by (fastforce simp: wire_documented_def)
  then show "\<forall>x\<in>set (ran_seen (decode_payload (wi_exec_dec W) body) (pl_db p)). caused (set tr) x"
    using assms(1,3) by (auto simp: traced_def work_traced_def ran_seen_def decode_payload_def split: option.splits if_splits)
qed

lemma traced_step:
  assumes "platform_step W p obs p'" and "wire_documented W" and "traced W tr p"
  shows "traced W (tr @ obs) p'"
  using assms(1)
proof cases
  case serve
  then show ?thesis using traced_serve[OF assms(3) server.served] by simp
next
  case quarantine
  then show ?thesis using traced_quarantine[OF assms(3)] by simp
next
  case hand_over
  then show ?thesis using traced_hand_over[OF assms(3,2)] by simp
next
  case analyze
  then show ?thesis using traced_analyze[OF assms(3,2)] by simp
next
  case build
  then show ?thesis using traced_build[OF assms(3)] by simp
next
  case run
  then show ?thesis using traced_run[OF assms(3,2)] by simp
next
  case build_dead
  then show ?thesis using traced_idle[OF assms(3), of _ "[]"]
    by (auto simp: status_fail_publish_def Let_def archives_dead_letters)
next
  case run_dead
  then show ?thesis using traced_idle[OF assms(3), of _ "[]"]
    by (auto simp: execute_status_fail_publish_def Let_def archives_dead_letters)
next
  case (create_user fresh name email r s')
  then have "archives_of s' = archives_of (pl_db p)"
    by (intro archives_cong) (auto simp: create_user_def Let_def db_exec_def split: list.splits if_splits)
  then show ?thesis using create_user traced_idle[OF assms(3), of s' "[]"] by simp
next
  case (create_key aes kek raw nonce authID userID k s')
  then have "archives_of s' = archives_of (pl_db p)"
    by (intro archives_cong) (auto simp: CreateAuthKey_def Let_def db_exec_def split: option.splits sum.splits prod.splits list.splits if_splits)
  then show ?thesis using create_key traced_idle[OF assms(3), of s' "[]"] by simp
next
  case outage
  then show ?thesis using traced_idle[OF assms(3), of _ "[]"] by simp
qed

lemma traced_start: "fresh_platform p \<Longrightarrow> traced W [] p"
  by (auto simp: fresh_platform_def traced_def rows_traced_def work_traced_def archives_of_def events_of_def intro: gated.nothing)

lemma traced_always: "platform_run W tr p \<Longrightarrow> wire_documented W \<Longrightarrow> traced W tr p"
  by (induction rule: platform_run.induct) (auto intro: traced_start traced_step)

text \<open>
  C2: Nothing that was not judged safe ever runs. In every run of the platform, whoever sends requests, whatever the
  broker repeats, delays or drops and whenever the database fails, when a VM is started with an archive and a drive,
  that archive was uploaded over the API for one function, the analyzer called it SAFE for that function, and the drive
  was built from it for that function, in this order.
\<close>

theorem only_safe_code_runs:
  assumes "wire_documented W" and "platform_run W (pre @ Ran m # post) p"
  shows "\<exists>k u judged built rest. pre = judged @ Judged k (em_code_object m) SAFE # built @ Built k (em_code_object m) (em_deps_object m) # rest \<and>
    Stored k u (em_code_object m) \<in> set judged"
proof -
  have gated: "gated (pre @ Ran m # post)" using traced_always[OF assms(2,1)] by (simp add: traced_def)
  from gated_caused[OF gated] obtain k where "Built k (em_code_object m) (em_deps_object m) \<in> set pre" by auto
  then obtain xs rest where pre: "pre = xs @ Built k (em_code_object m) (em_deps_object m) # rest" by (auto simp: in_set_conv_decomp)
  have gated': "gated xs" "caused (set xs) (Built k (em_code_object m) (em_deps_object m))"
    using gated_before[of xs] gated_caused[of xs _ "rest @ Ran m # post"] gated unfolding pre by fastforce+
  then have "Judged k (em_code_object m) SAFE \<in> set xs" by simp
  then obtain judged built where xs: "xs = judged @ Judged k (em_code_object m) SAFE # built" by (auto simp: in_set_conv_decomp)
  have "caused (set judged) (Judged k (em_code_object m) SAFE)"
    using gated_caused[of judged "Judged k (em_code_object m) SAFE" built] gated'(1) by (simp add: xs)
  then obtain u where "Stored k u (em_code_object m) \<in> set judged" by auto
  then show ?thesis using pre xs by (intro exI[of _ k] exI[of _ u] exI[of _ judged] exI[of _ built] exI[of _ rest]) simp
qed

text \<open>
  C5: A function the database shows as READY is one its owner uploaded, the analyzer called SAFE and a build prepared: the
  archive and the drive of its row are the ones that were uploaded, judged and built for it, in every run of the
  platform.
\<close>

theorem ready_function_is_safe:
  assumes "wire_documented W" and "platform_run W tr p"
    and "f \<in> set (pg_functions (pl_db p))" and "f_status f = FnReady"
  shows "\<exists>drive. f_drive_path f = Some drive \<and> Stored (f_id f) (f_user f) (f_archive_path f) \<in> set tr \<and>
    Judged (f_id f) (f_archive_path f) SAFE \<in> set tr \<and> Built (f_id f) (f_archive_path f) drive \<in> set tr"
proof -
  obtain drive where drive: "f_drive_path f = Some drive"
    using sys_reachable_inv[OF platform_reachable[OF assms(2)]] assms(3,4) by (auto simp: sys_inv_def ready_has_drive_def)
  have t: "gated tr" "rows_traced (set tr) (archives_of (pl_db p))"
    using traced_always[OF assms(2,1)] by (simp_all add: traced_def)
  have "(f_id f, f_user f, f_archive_path f, Some drive) \<in> set (archives_of (pl_db p))"
    using assms(3) drive by (force simp: archives_of_def)
  then have row: "Stored (f_id f) (f_user f) (f_archive_path f) \<in> set tr" "Built (f_id f) (f_archive_path f) drive \<in> set tr"
    using rows_tracedD[OF t(2)] by auto
  then obtain pre post where "tr = pre @ Built (f_id f) (f_archive_path f) drive # post" by (auto simp: in_set_conv_decomp)
  then have "Judged (f_id f) (f_archive_path f) SAFE \<in> set tr" using gated_caused[of pre _ post] t(1) by fastforce
  then show ?thesis using drive row by blast
qed

section \<open>A run\<close>

text \<open>A platform with one user and her key, and nothing else.\<close>

definition fresh_db :: pg where
  "fresh_db = snd (CreateAuthKey (\<lambda>_ b. b) ''kek'' (Some (replicate 32 CHR ''x'')) (Some (replicate 12 CHR ''n'')) ''key-1'' 1
     ((sample_pg FnReady InvDone)\<lparr>pg_functions := [], pg_invocations := []\<rparr>))"

text \<open>Its states on the way of one function: the table's row and invocations, the two channels, the bodies and messages.\<close>

definition at_work ::
  "func list \<Rightarrow> invoc list \<Rightarrow> event list \<Rightarrow> event list \<Rightarrow> string list \<Rightarrow> string list \<Rightarrow> execute_message list \<Rightarrow> string list \<Rightarrow> platform" where
  "at_work fs is bus extraction analysis builds sent objects =
     \<lparr>pl_world = \<lparr>w_db = fresh_db\<lparr>pg_functions := fs, pg_invocations := is\<rparr>, w_bus = [bus], w_sent = sent, w_objects = objects\<rparr>,
      pl_extraction = [extraction], pl_analysis = analysis, pl_builds = builds\<rparr>"

abbreviation sample_object :: string where
  "sample_object \<equiv> nat_digits 2 @ ''-function.tar.gz''"

definition sample_row :: "fn_status \<Rightarrow> string option \<Rightarrow> func" where
  "sample_row st drive = \<lparr>f_id = 8, f_user = 1, f_status = st, f_archive_path = sample_object, f_drive_path = drive\<rparr>"

definition uploaded_event :: event where
  "uploaded_event = \<lparr>ev_function = 8, ev_user = 1, ev_bucket = ''oblak-quarantine'', ev_path = sample_object, ev_time = 50\<rparr>"

definition sample_message :: execute_message where
  "sample_message = \<lparr>em_invocation = 8, em_code_object = sample_object, em_deps_object = nat_digits 3 @ ''-deps.ext4'', em_payload = ''{}''\<rparr>"

definition sample_invocation :: "inv_status \<Rightarrow> invoc" where
  "sample_invocation st = \<lparr>i_id = 8, i_function = 8, i_status = st, i_time = 50, i_end_time = None, i_log_path = None\<rparr>"

text \<open>Messages of the one function.\<close>

definition sample_wire :: "nat wire" where
  "sample_wire =
     \<lparr>wi_values = TYPE(nat), wi_fun_enc = (\<lambda>m. if m = CreateMessage ''oblak-quarantine'' 8 sample_object then Some ''function'' else None),
      wi_fun_dec = (\<lambda>_. Some (CreateMessage ''oblak-quarantine'' 8 sample_object)),
      wi_build_enc = (\<lambda>m. if m = \<lparr>bm_function = 8, bm_code_object = sample_object\<rparr> then Some ''build'' else None),
      wi_build_dec = (\<lambda>_. Some \<lparr>bm_function = 8, bm_code_object = sample_object\<rparr>),
      wi_exec_enc = (\<lambda>m. if m = sample_message then Some ''execute'' else None), wi_exec_dec = (\<lambda>_. Some sample_message)\<rparr>"

lemma sample_wire_documented: "wire_documented sample_wire"
  by (auto simp: wire_documented_def sample_wire_def codec_def split: if_splits)

lemma fresh_db_fields [simp]:
  "pg_users fresh_db = pg_users (sample_pg FnReady InvDone)" "pg_functions fresh_db = []" "pg_invocations fresh_db = []"
  "pg_outcomes fresh_db = []"
  by (simp_all add: fresh_db_def CreateAuthKey_def encrypt_def db_exec_def Let_def sample_pg_def)

lemma sample_names_valid: "validate_object_name sample_object = None" "validate_object_name (em_deps_object sample_message) = None"
  unfolding sample_message_def execute_message.select_convs by (code_simp, code_simp)

lemma sample_start: "fresh_platform (at_work [] [] [] [] [] [] [] [])"
  by (simp add: fresh_platform_def at_work_def accounts_ok_def fresh_db_def CreateAuthKey_def encrypt_def db_exec_def Let_def
      sample_pg_def)

lemma sample_upload:
  "platform_step sample_wire (at_work [] [] [] [] [] [] [] []) [Stored 8 1 sample_object]
     (at_work [sample_row FnQuarantined None] [] [uploaded_event] [] [] [] [] [sample_object])"
proof -
  let ?p = "at_work [] [] [] [] [] [] [] []"
  have db: "pl_db ?p = fresh_db" by (simp add: at_work_def)
  have key: "key_works call_server (\<lambda>_. ''d'') 0 call_profile 1 (pl_world ?p)"
    by (rule created_key_works[OF _ _ _ db[unfolded fresh_db_def]]) (simp_all add: sample_pg_def)
  obtain c where c: "cli_client call_server (\<lambda>_ _. []) (\<lambda>_. ''d'') 0 call_profile (pl_world ?p) = Some c"
    by (simp add: cli_client_def signed_client call_profile_def)
  obtain r where r: "serve call_server r (pl_world ?p) =
      run_operation call_server (Some 1) (r\<lparr>rq_full_path := ''/upload-lambda''\<rparr>) OpUploadLambda Map.empty (pl_world ?p)"
    using upload_request[OF call_libraries key c] by metis
  have "snd (serve call_server r (pl_world ?p)) =
      pl_world (at_work [sample_row FnQuarantined None] [] [uploaded_event] [] [] [] [] [sample_object])"
    unfolding r
    by (simp add: run_operation_def Let_def strict_UploadLambda_def call_server_def sample_server_def UploadLambda_def UploadFile_def
        upload_form_parsed create_function_def db_exec_def sample_pg_def at_work_def sample_row_def uploaded_event_def Publish_def chan_send_def
        BufferSizePerSubscription_def)
  then show ?thesis
    using platform_step.serve[of _ call_server r ?p sample_wire, OF refl]
    by (simp add: stored_seen_def archives_of_def at_work_def sample_row_def)
qed

lemma sample_quarantine:
  "platform_step sample_wire (at_work [sample_row FnQuarantined None] [] [uploaded_event] [] [] [] [] [sample_object]) []
     (at_work [sample_row FnExtracted None] [] [] [uploaded_event] [] [] [] [sample_object])"
proof -
  let ?p = "at_work [sample_row FnQuarantined None] [] [uploaded_event] [] [] [] [] [sample_object]"
  have "ExtractFromQuarantine (\<lambda>_ _. Some (Some [])) ''oblak-quarantine'' sample_object = None"
    by (simp add: ExtractFromQuarantine_def Unzip_def)
  then have "quarantine_step (\<lambda>_ _. Some (Some [])) 50 uploaded_event (pl_db ?p) =
      (Some uploaded_event, pl_db (at_work [sample_row FnExtracted None] [] [] [uploaded_event] [] [] [] [sample_object]))"
    by (simp add: quarantine_step_def uploaded_event_def at_work_def stmt_update_defs update_functions_where_def db_exec_def sample_row_def)
  from platform_step.quarantine[OF _ _ this, of 0 "[]" sample_wire] show ?thesis
    by (simp add: at_work_def Publish_def chan_send_def BufferSizePerSubscription_def)
qed

lemma sample_hand_over:
  "platform_step sample_wire (at_work [sample_row FnExtracted None] [] [] [uploaded_event] [] [] [] [sample_object]) []
     (at_work [sample_row FnExtracted None] [] [] [] [''function''] [] [] [sample_object])"
  using platform_step.hand_over[of 0 "at_work [sample_row FnExtracted None] [] [] [uploaded_event] [] [] [] [sample_object]"
      uploaded_event "[]" sample_wire "\<lambda>_. True" "''oblak-quarantine''"]
  by (simp add: at_work_def sample_wire_def uploaded_event_def published_def StartPublisher_def publish_json_def step_def)

lemma sample_analyze:
  "platform_step sample_wire (at_work [sample_row FnExtracted None] [] [] [] [''function''] [] [] [sample_object])
     [Judged 8 sample_object SAFE] (at_work [sample_row FnVerified None] [] [] [] [''function''] [''build''] [] [sample_object])"
proof -
  let ?p = "at_work [sample_row FnExtracted None] [] [] [] [''function''] [] [] [sample_object]"
  have safe: "verdict_of (AnalyzeFile (\<lambda>_. ''id'') ''/r'' (passing_pipeline ''SAFE'') a 8) = Some SAFE" for a
    by (simp add: AnalyzeFile_def passing_pipeline_def Let_def verdict_of_def)
  have r: "processMessage (wi_fun_dec sample_wire) (\<lambda>_. True) (AnalyzeFile (\<lambda>_. ''id'') ''/r'' (passing_pipeline ''SAFE'')) ''q'' ''f''
      ''function'' (pl_db ?p) =
    \<lparr>pr_outcome = Some None,
     pr_calls = [CopyObject ''q'' sample_object ''f'', RemoveObject ''q'' sample_object, PublishBuild 8 sample_object],
     pr_db = pl_db (at_work [sample_row FnVerified None] [] [] [] [''function''] [''build''] [] [sample_object])\<rparr>"
    by (simp add: processMessage_def sample_wire_def CreateMessage_def onLand_def updateFunctionStatus_def AnalyzeFile_def
        passing_pipeline_def Move_def Let_def stmt_update_defs update_functions_where_def db_exec_def at_work_def sample_row_def)
  have "builds_published (\<lambda>_. True) (wi_build_enc sample_wire) (\<lambda>_. [])
      [CopyObject ''q'' sample_object ''f'', RemoveObject ''q'' sample_object, PublishBuild 8 sample_object] = [''build'']"
    by (simp add: builds_published_def published_def vmpublish_Publish_def publish_json_def step_def deferred_def sample_wire_def)
  moreover have "judged_seen (AnalyzeFile (\<lambda>_. ''id'') ''/r'' (passing_pipeline ''SAFE'')) (wi_fun_dec sample_wire ''function'') (pl_db ?p) =
      [Judged 8 sample_object SAFE]"
    by (simp add: judged_seen_def sample_wire_def CreateMessage_def onLand_def stmt_update_defs update_functions_where_def db_exec_def
        at_work_def safe)
  ultimately show ?thesis
    using platform_step.analyze[where body = "''function''" and p = ?p and W = sample_wire and ans = "\<lambda>_. True" and ustr = "\<lambda>_. ''id''"
        and reports = "''/r''" and P = "passing_pipeline ''SAFE''" and quarantine = "''q''" and safe = "''f''"
        and ok = "\<lambda>_. True" and env = "\<lambda>_. []", OF _ refl] unfolding r
    by (simp add: at_work_def set_db_def)
qed

lemma sample_build:
  "platform_step sample_wire (at_work [sample_row FnVerified None] [] [] [] [''function''] [''build''] [] [sample_object])
     [Built 8 sample_object (em_deps_object sample_message)]
     (at_work [sample_row FnReady (Some (em_deps_object sample_message))] [] [] [] [''function''] [''build''] [] [sample_object])"
proof -
  let ?p = "at_work [sample_row FnVerified None] [] [] [] [''function''] [''build''] [] [sample_object]"
  have decoded: "decode_payload (wi_build_dec sample_wire) ''build'' = Some \<lparr>bm_function = 8, bm_code_object = sample_object\<rparr>"
    by (simp add: decode_payload_def maxPayloadBytes_def sample_wire_def)
  have build: "build_handle (wi_build_dec sample_wire) (prepare (\<lambda>k. nat_digits (unat k)) 3 (\<lambda>_ _ _. None)) ''build'' (pl_db ?p) =
      (None, False, pl_db (at_work [sample_row FnReady (Some (em_deps_object sample_message))] [] [] [] [''function''] [''build''] [] [sample_object]))"
    by (simp add: build_handle_def decoded sample_names_valid prepare_def Let_def stmt_update_defs update_functions_where_def db_exec_def
        at_work_def sample_row_def sample_message_def drive_object_name_def)
  have "claims_function 8 (pl_db ?p)"
    by (simp add: claims_function_def stmt_update_defs update_functions_where_def db_exec_def at_work_def sample_row_def)
  then have "built_seen (\<lambda>k. nat_digits (unat k)) 3 (\<lambda>_ _ _. None) (decode_payload (wi_build_dec sample_wire) ''build'') (pl_db ?p) =
      [Built 8 sample_object (em_deps_object sample_message)]"
    by (simp add: built_seen_def decoded sample_names_valid drive_object_name_def sample_message_def)
  then show ?thesis using platform_step.build[OF _ build] by (simp add: at_work_def set_db_def)
qed

lemma sample_execute:
  "platform_step sample_wire (at_work [sample_row FnReady (Some (em_deps_object sample_message))] [] [] [] [''function''] [''build''] [] [sample_object])
     [] (at_work [sample_row FnReady (Some (em_deps_object sample_message))] [sample_invocation InvPending] [] [] [''function''] [''build'']
       [sample_message] [sample_object])"
proof -
  let ?p = "at_work [sample_row FnReady (Some (em_deps_object sample_message))] [] [] [] [''function''] [''build''] [] [sample_object]"
  let ?r = "(bare_request ''POST'' ''/execute/8'')\<lparr>rq_body := Some ''{}''\<rparr>"
  have served: "serve call_server ?r (pl_world ?p) = run_operation call_server None (?r\<lparr>rq_full_path := ''/execute/:functionId''\<rparr>)
      OpExecuteLambda [''functionId'' \<mapsto> ''8''] (pl_world ?p)"
    using execute_route[of call_server ?r "''8''"] first_route_documented sample_gin_documented
    by (simp add: call_server_def sample_server_def bare_request_def)
  have "snd (serve call_server ?r (pl_world ?p)) = pl_world (at_work [sample_row FnReady (Some (em_deps_object sample_message))]
      [sample_invocation InvPending] [] [] [''function''] [''build''] [sample_message] [sample_object])"
    unfolding served
    by (simp add: run_operation_def Let_def bind_param_def strict_ExecuteLambda_def call_server_def sample_server_def bare_request_def
        ExecuteLambda_def digits_value_def validatePayload_def MaxPayloadSize_def get_function_by_id_def find_function_def
        create_invocation_def db_exec_def at_work_def sample_row_def sample_message_def sample_invocation_def sample_pg_def)
  then show ?thesis
    using platform_step.serve[of _ call_server ?r ?p sample_wire, OF refl]
    by (simp add: stored_seen_def archives_of_def at_work_def)
qed

lemma sample_run:
  "\<exists>p'. platform_step sample_wire (at_work [sample_row FnReady (Some (em_deps_object sample_message))] [sample_invocation InvPending] [] []
       [''function''] [''build''] [sample_message] [sample_object]) [Ran sample_message] p'"
proof -
  let ?p = "at_work [sample_row FnReady (Some (em_deps_object sample_message))] [sample_invocation InvPending] [] []
       [''function''] [''build''] [sample_message] [sample_object]"
  obtain e ack s' where run: "execute_handle (wi_exec_dec sample_wire)
      (execute (\<lambda>k. nat_digits (unat k)) (\<lambda>_. ''t'') 60 70 (\<lambda>_ _ _ _. None)) ''execute'' (pl_db ?p) = (e, ack, s')"
    by (metis prod.exhaust)
  have "decode_payload (wi_exec_dec sample_wire) ''execute'' = Some sample_message"
    by (simp add: decode_payload_def maxPayloadBytes_def sample_wire_def)
  moreover have "em_code_object sample_message = sample_object" "em_invocation sample_message = 8" by (simp_all add: sample_message_def)
  moreover have "fst (update_invocation_status_if 8 InvPending InvExecuting (pl_db ?p)) = Inr True"
    by (simp add: stmt_update_defs update_invocations_where_def db_exec_def at_work_def sample_invocation_def)
  ultimately have "ran_seen (decode_payload (wi_exec_dec sample_wire) ''execute'') (pl_db ?p) = [Ran sample_message]"
    by (simp add: ran_seen_def sample_names_valid)
  moreover have "sample_message \<in> set (w_sent (pl_world ?p))" by (simp add: at_work_def)
  moreover have "wi_exec_enc sample_wire sample_message = Some ''execute''" by (simp add: sample_wire_def)
  ultimately show ?thesis using platform_step.run[OF _ _ run] by metis
qed

lemma sample_ready_run:
  "platform_run sample_wire [Stored 8 1 sample_object, Judged 8 sample_object SAFE, Built 8 sample_object (em_deps_object sample_message)]
     (at_work [sample_row FnReady (Some (em_deps_object sample_message))] [] [] [] [''function''] [''build''] [] [sample_object])"
proof -
  note step = platform_run.step[where W = sample_wire]
  have "platform_run sample_wire [] (at_work [] [] [] [] [] [] [] [])" by (rule platform_run.start[OF sample_start])
  from this[THEN step, OF sample_upload, THEN step, OF sample_quarantine, THEN step, OF sample_hand_over, THEN step, OF sample_analyze,
      THEN step, OF sample_build] show ?thesis by simp
qed

theorem ready_function_is_safe_witness:
  "Judged 8 sample_object SAFE \<in> set [Stored 8 1 sample_object, Judged 8 sample_object SAFE, Built 8 sample_object (em_deps_object sample_message)]"
  using ready_function_is_safe[OF sample_wire_documented sample_ready_run, of "sample_row FnReady (Some (em_deps_object sample_message))"]
  by (auto simp: at_work_def sample_row_def)

lemma sample_platform_run:
  "\<exists>p. platform_run sample_wire ([Stored 8 1 sample_object, Judged 8 sample_object SAFE,
     Built 8 sample_object (em_deps_object sample_message)] @ Ran sample_message # []) p"
proof -
  note run = platform_run.step[OF sample_ready_run sample_execute]
  obtain p where "platform_step sample_wire (at_work [sample_row FnReady (Some (em_deps_object sample_message))] [sample_invocation InvPending] [] []
       [''function''] [''build''] [sample_message] [sample_object]) [Ran sample_message] p"
    using sample_run by blast
  from platform_run.step[OF run this] show ?thesis by auto
qed

theorem only_safe_code_runs_witness:
  "\<exists>k u judged built rest.
     [Stored 8 1 sample_object, Judged 8 sample_object SAFE, Built 8 sample_object (em_deps_object sample_message)] =
       judged @ Judged k (em_code_object sample_message) SAFE # built @ Built k (em_code_object sample_message) (em_deps_object sample_message) # rest \<and>
     Stored k u (em_code_object sample_message) \<in> set judged"
  using sample_platform_run only_safe_code_runs[OF sample_wire_documented] by metis

end
