(* ===== verification/Uncalled.thy ===== *)
theory Uncalled
  imports CliArchive Orchestrator
begin

text \<open>
  Two parts of the analyzer that nothing calls: \<open>createTarStream\<close> of \<open>internal/analyzer/dast/helpers.go\<close>, the archive of
  a workspace for a container (the sandbox mounts the workspace instead), and the type \<open>Result\<close> of
  \<open>orchestrator/types.go\<close>.
\<close>

section \<open>createTarStream\<close>

text \<open>
  One call of the walk function for a node that is not a directory: \<open>os.ReadFile\<close> follows links, and a socket cannot be
  opened. The header has no type, which the tar writer takes for a regular file.
\<close>

definition tar_stream_entry :: "string \<Rightarrow> src_node \<Rightarrow> tar_entry option" where
  "tar_stream_entry rel n =
     (let entry = (\<lambda>content. Some \<lparr>te_name = rel, te_type = TypeReg, te_content = content, te_broken = False\<rparr>) in
      case n of
        SrcFile content \<Rightarrow> entry content
      | SrcLink (Some content) \<Rightarrow> entry content
      | _ \<Rightarrow> None)"

fun is_dir :: "src_node \<Rightarrow> bool" where
  "is_dir (SrcDir _) \<longleftrightarrow> True"
| "is_dir _ \<longleftrightarrow> False"

text \<open>\<open>filepath.Rel\<close> of the root itself is a dot. An error of one call ends the walk.\<close>

fun tar_stream_entries :: "(string list \<times> src_node) list \<Rightarrow> tar_entry list option" where
  "tar_stream_entries [] = Some []"
| "tar_stream_entries ((path, n) # rest) =
     (if is_dir n then tar_stream_entries rest
      else (case tar_stream_entry (if path = [] then ''.'' else path_join_segments path) n of
              None \<Rightarrow> None
            | Some e \<Rightarrow> map_option (Cons e) (tar_stream_entries rest)))"

definition createTarStream :: "src_node \<Rightarrow> tar_entry list option" where
  "createTarStream localDir = tar_stream_entries (walk [] localDir)"

lemma tar_stream_plain:
  assumes "list_all (\<lambda>(p, n). plain_tree n \<and> (p = [] \<longrightarrow> is_dir n)) xs"
  shows "tar_stream_entries xs = Some (filter (\<lambda>e. te_type e = TypeReg) (map packed (filter (\<lambda>x. fst x \<noteq> []) xs)))"
  using assms
proof (induction xs)
  case (Cons x xs)
  obtain p n where x: "x = (p, n)" by (metis prod.exhaust)
  then show ?case using Cons by (cases n) (auto simp: tar_stream_entry_def packed_def TypeReg_def TypeDir_def)
qed simp

lemma walk_root_only: "(p, n) \<in> set (walk path m) \<Longrightarrow> length path \<le> length p \<and> (p = path \<longrightarrow> n = m)"
proof (induction path m rule: walk.induct)
  case (1 path entries)
  show ?case
  proof (cases "p = path \<and> n = SrcDir entries")
    case False
    then obtain name m' where "(name, m') \<in> set entries" "(p, n) \<in> set (walk (path @ [name]) m')"
      using "1.prems" by auto
    then show ?thesis using "1.IH"[of "(name, m')" name m'] by auto
  qed simp
qed auto

text \<open>
  Of a folder of files and directories it packs exactly the files the CLI would pack, under the same names, in the same
  order, and leaves the directories out.
\<close>

theorem tar_stream_is_zip_without_directories:
  assumes "plain_tree (SrcDir entries)" and "zipFolder (SrcDir entries) = Inr ts"
  shows "createTarStream (SrcDir entries) = Some (filter (\<lambda>e. te_type e = TypeReg) ts)"
proof -
  have "list_all (\<lambda>(p, n). plain_tree n \<and> (p = [] \<longrightarrow> is_dir n)) (walk [] (SrcDir entries))"
  unfolding list_all_iff
  proof clarify
    fix p n assume walked: "(p, n) \<in> set (walk [] (SrcDir entries))"
    have "plain_tree n" using walk_plain[OF assms(1) _ walked] by simp
    moreover have "p = [] \<longrightarrow> is_dir n" using walk_root_only[OF walked] by auto
    ultimately show "plain_tree n \<and> (p = [] \<longrightarrow> is_dir n)" by blast
  qed
  from tar_stream_plain[OF this] show ?thesis
    using assms zipFolder_plain[OF assms(1)] by (simp add: createTarStream_def below_root_def)
qed

text \<open>A link to a file with content, which the CLI cannot pack, is packed as that file.\<close>

theorem tar_stream_follows_links:
  assumes "content \<noteq> []"
  shows "zipFolder (SrcDir [(name, SrcLink (Some content))]) = Inl WriteTooLong \<and>
    createTarStream (SrcDir [(name, SrcLink (Some content))]) =
      Some [\<lparr>te_name = path_join_segments [name], te_type = TypeReg, te_content = content, te_broken = False\<rparr>]"
  using assms by (simp add: zipFolder_def zip_entry_def createTarStream_def tar_stream_entry_def)

section \<open>Result\<close>

text \<open>An \<open>interface\<close> that may be nil, and an error that may be nil; \<open>None\<close> as the answer of a method is a panic.\<close>

record ('a, 'e) analysis_result =
  res_value :: "'a option"
  res_err :: "'e option"

definition Success :: "'a \<Rightarrow> ('a, 'e) analysis_result" where
  "Success val = \<lparr>res_value = Some val, res_err = None\<rparr>"

definition Failure :: "'e option \<Rightarrow> ('a, 'e) analysis_result" where
  "Failure err = \<lparr>res_value = None, res_err = err\<rparr>"

definition IsSuccess :: "('a, 'e) analysis_result \<Rightarrow> bool" where
  "IsSuccess r \<longleftrightarrow> res_err r = None"

definition IsFailure :: "('a, 'e) analysis_result \<Rightarrow> bool" where
  "IsFailure r \<longleftrightarrow> res_err r \<noteq> None"

definition result_Error :: "('a, 'e) analysis_result \<Rightarrow> 'e option" where
  "result_Error r = res_err r"

definition result_Value :: "('a, 'e) analysis_result \<Rightarrow> 'a option" where
  "result_Value r = (if res_err r \<noteq> None then None else res_value r)"

definition ValueOrDefault :: "'a \<Rightarrow> ('a, 'e) analysis_result \<Rightarrow> 'a option" where
  "ValueOrDefault zero r = (if res_err r \<noteq> None then Some zero else res_value r)"

text \<open>
  \<open>Value\<close> answers exactly for a success made by \<open>Success\<close>. A \<open>Failure\<close> of a nil error counts as a success, and even
  \<open>ValueOrDefault\<close> panics on it.
\<close>

theorem result_values:
  "result_Value (Success v) = Some v \<and> ValueOrDefault z (Success v) = Some v \<and> IsSuccess (Success v :: ('a, 'e) analysis_result) \<and>
   result_Value (Failure (Some e) :: ('a, 'e) analysis_result) = None \<and> ValueOrDefault z (Failure (Some e)) = Some z \<and>
   IsFailure (Failure (Some e) :: ('a, 'e) analysis_result) \<and> result_Error (Failure (Some e) :: ('a, 'e) analysis_result) = Some e \<and>
   IsSuccess (Failure None :: ('a, 'e) analysis_result) \<and> result_Value (Failure None :: ('a, 'e) analysis_result) = None \<and>
   ValueOrDefault z (Failure None :: ('a, 'e) analysis_result) = None"
  by (simp add: Success_def Failure_def IsSuccess_def IsFailure_def result_Value_def ValueOrDefault_def result_Error_def)

end
