(* ===== verification/Shutdown.thy ===== *)
theory Shutdown
  imports Prelude
begin

text \<open>
  \<open>SigtermCancelledContext\<close> of \<open>internal/util/context.go\<close>: the context the VM service runs its router under, with the
  goroutine that cancels it at a signal. The other side of the state are the process's signals and whoever holds
  the returned cancel function; \<open>signal.Notify\<close> sends without blocking to a channel of one place.
\<close>

datatype waiter = Selecting | Stopping | Ended

record signal_context =
  sc_cancelled :: bool
  sc_pending :: nat
  sc_notified :: bool
  sc_waiter :: waiter

definition SigtermCancelledContext :: signal_context where
  "SigtermCancelledContext = \<lparr>sc_cancelled = False, sc_pending = 0, sc_notified = True, sc_waiter = Selecting\<rparr>"

text \<open>
  The steps of the goroutine: one of the two cases of its \<open>select\<close>, the first with the call of \<open>cancel\<close>, then
  \<open>signal.Stop\<close>.
\<close>

inductive waiter_step :: "signal_context \<Rightarrow> signal_context \<Rightarrow> bool" where
  received: "sc_waiter c = Selecting \<Longrightarrow> 0 < sc_pending c \<Longrightarrow>
    waiter_step c (c\<lparr>sc_pending := sc_pending c - 1, sc_cancelled := True, sc_waiter := Stopping\<rparr>)"
| already_done: "sc_waiter c = Selecting \<Longrightarrow> sc_cancelled c \<Longrightarrow> waiter_step c (c\<lparr>sc_waiter := Stopping\<rparr>)"
| stop: "sc_waiter c = Stopping \<Longrightarrow> waiter_step c (c\<lparr>sc_notified := False, sc_waiter := Ended\<rparr>)"

inductive context_step :: "signal_context \<Rightarrow> signal_context \<Rightarrow> bool" where
  signal: "sc_notified c \<Longrightarrow> context_step c (c\<lparr>sc_pending := min 1 (sc_pending c + 1)\<rparr>)"
| cancel: "context_step c (c\<lparr>sc_cancelled := True\<rparr>)"
| waiter: "waiter_step c c' \<Longrightarrow> context_step c c'"

inductive_simps waiter_step_iff: "waiter_step c c'"
inductive_cases context_stepE: "context_step c c'"

inductive context_reachable :: "signal_context \<Rightarrow> bool" where
  start: "context_reachable SigtermCancelledContext"
| step: "context_reachable c \<Longrightarrow> context_step c c' \<Longrightarrow> context_reachable c'"

definition context_inv :: "signal_context \<Rightarrow> bool" where
  "context_inv c \<longleftrightarrow> sc_pending c \<le> 1 \<and> (sc_waiter c \<noteq> Selecting \<longrightarrow> sc_cancelled c) \<and> (sc_notified c \<longleftrightarrow> sc_waiter c \<noteq> Ended)"

lemma context_step_inv: "context_step c c' \<Longrightarrow> context_inv c \<Longrightarrow> context_inv c'"
  by (erule context_stepE) (auto simp: context_inv_def waiter_step_iff)

text \<open>
  The goroutine ends only with the context cancelled, and the process's signals are taken for the context exactly as long
  as it has not ended: a second signal, which comes after the end, is not swallowed.
\<close>

theorem context_invariant: "context_reachable c \<Longrightarrow> context_inv c"
proof (induction rule: context_reachable.induct)
  case start
  then show ?case by (simp add: context_inv_def SigtermCancelledContext_def)
next
  case (step c c')
  then show ?case using context_step_inv by blast
qed

lemma cancelled_stays: "context_step c c' \<Longrightarrow> sc_cancelled c \<Longrightarrow> sc_cancelled c'"
  by (erule context_stepE) (auto simp: waiter_step_iff)

text \<open>
  A signal cancels the context: once it is pending the goroutine can take a step as long as it has not ended, and a first
  step of it, or anyone's call of cancel before it, leaves the context cancelled. Of its own steps it
  takes two at most, so no goroutine is left behind.
\<close>

fun steps_left :: "waiter \<Rightarrow> nat" where
  "steps_left Selecting = 2"
| "steps_left Stopping = 1"
| "steps_left Ended = 0"

theorem signal_cancels:
  assumes "context_reachable c" and "0 < sc_pending c \<or> sc_cancelled c" and "sc_waiter c \<noteq> Ended"
  shows "(\<exists>c'. waiter_step c c') \<and> (\<forall>c'. waiter_step c c' \<longrightarrow> sc_cancelled c' \<and> steps_left (sc_waiter c') < steps_left (sc_waiter c))"
proof -
  have inv: "context_inv c" using context_invariant[OF assms(1)] .
  then have "\<exists>c'. waiter_step c c'"
    using assms(2,3) by (cases "sc_waiter c") (auto intro: waiter_step.intros)
  moreover have "sc_cancelled c' \<and> steps_left (sc_waiter c') < steps_left (sc_waiter c)" if "waiter_step c c'" for c'
    using that inv by (auto simp: waiter_step_iff context_inv_def)
  ultimately show ?thesis by blast
qed

theorem signal_cancels_witness:
  "\<exists>c'. waiter_step (SigtermCancelledContext\<lparr>sc_pending := 1\<rparr>) c' \<and> sc_cancelled c'"
proof -
  have "context_step SigtermCancelledContext (SigtermCancelledContext\<lparr>sc_pending := 1\<rparr>)"
    using context_step.signal[of SigtermCancelledContext] by (simp add: SigtermCancelledContext_def)
  then have "context_reachable (SigtermCancelledContext\<lparr>sc_pending := 1\<rparr>)"
    by (rule context_reachable.step[OF context_reachable.start])
  from signal_cancels[OF this] show ?thesis by (auto simp: SigtermCancelledContext_def)
qed

end
