(* ===== verification/Spec2Isabelle.thy ===== *)
theory Spec2Isabelle
  imports Refinement Behavior Sanitizer AuthKeys Agent EnvConfig HostSetup CliCommands DeadLetters Publishers AnalyzerService
    Services CommandTree ServedLife Platform Uncalled Shutdown
begin

text \<open>
  Oblak is a platform that runs Python functions in Firecracker virtual machines. A CLI packs a folder
  and uploads it; the server stores the archive in a quarantine bucket and checks it; the analyzer
  unpacks it, runs pip-audit, ClamAV, Semgrep, a gVisor sandbox and a language model on it and, when
  the verdict lets it through, moves the archive and publishes a build; the VM service prepares the
  dependencies on a drive, and runs the function for every invocation, through an agent in the VM.
  The services share a PostgreSQL database, an object store and a message broker.

  This development models the Go code of the repository (all paths are below \<open>src/\<close>) as functions
  and step relations, and proves what makes it correct.

  \<^bold>\<open>How the code is modelled\<close>

  \<^item> A function with an error result returns a sum (\<open>Inl\<close> is the error) or an option; a panic or the end
    of the process is a value of its own. Every early return of the code is a branch.
  \<^item> The database is the record \<open>pg\<close> of \<open>Stores\<close>: the two tables, and the list of the answers (up or
    down) the next statements get; an empty list means that the database is up.
  \<^item> A sequence of calls to the kernel, Docker, the broker or an agent is a list of operations, computed
    from a function that says which of them succeed (\<open>step\<close> and \<open>deferred\<close> of \<open>VmDrives\<close>), so a theorem
    holds for every pattern of failures.
  \<^item> Strings are byte strings. Go's \<open>int\<close> is an integer with its 64-bit wrap-around written out where it
    can be reached (\<open>ArchiveCheck\<close>), context ids are 32-bit words (\<open>VmRunner\<close>), SHA-256 works on 32-bit
    words (\<open>Sha256\<close>), and mount flags are words (\<open>Agent\<close>).
  \<^item> What is not in the repository (JSON, TOML and multipart parsing, tar and gzip, gin, watermill and the broker,
    MinIO, Docker, Firecracker, the command-line tools, the model's answers) is a parameter; where a
    theorem needs it, its documented behaviour is a hypothesis, and a witness instantiates it.

  \<^bold>\<open>Theories\<close>

  \<^item> Foundations: \<open>Prelude\<close> (shared lemmas), \<open>GoStrings\<close> and \<open>GoPath\<close> (the parts of \<open>strings\<close> and
    \<open>path/filepath\<close> that are used), \<open>Base64\<close>, \<open>Sha256\<close> (with HMAC and hexadecimal).
  \<^item> State: \<open>StatusStore\<close> (the interface through which work is claimed, as a locale), \<open>Stores\<close>
    (\<open>internal/function\<close>, \<open>internal/invocation\<close>), \<open>Buckets\<close> (\<open>internal/server/filestore\<close>), \<open>AuthKeys\<close>
    (\<open>internal/server/authkey\<close>, \<open>user\<close>), \<open>EnvConfig\<close> (the configuration packages of the three services).
  \<^item> Server: \<open>Signing\<close> (\<open>internal/signing\<close>, the middleware \<open>auth.go\<close> and the client that signs), \<open>Handlers\<close>
    (\<open>internal/server/handler\<close>), \<open>ArchiveCheck\<close> and \<open>Events\<close> (\<open>extractor\<close>, \<open>events\<close>), \<open>InvocationLogs\<close>
    (\<open>internal/server/invocations/logs.go\<close> and \<open>internal/vm/vm/logs.go\<close>), \<open>Services\<close> (\<open>cmd/server\<close>,
    \<open>cmd/vm\<close>, \<open>httpserver\<close>, \<open>database\<close>, \<open>rate_limit.go\<close>), \<open>Shutdown\<close> (\<open>internal/util\<close>), \<open>ApiServer\<close> (the server half of \<open>internal/api/api.gen.go\<close>
    and \<open>routes.go\<close>: routes, parameters, strict handlers, response writers, and \<open>serve\<close>, which composes them
    with the middlewares and the handlers).
  \<^item> Analyzer: \<open>Unzipper\<close>, \<open>Stages\<close>, \<open>Sanitizer\<close>, \<open>Behavior\<close>, \<open>Sandbox\<close>, \<open>Orchestrator\<close>, \<open>Listener\<close> (the
    packages below \<open>internal/analyzer\<close> that do one stage each, \<open>AnalyzeFile\<close> and \<open>processMessage\<close>), \<open>Wiring\<close>
    (\<open>wireDependencies\<close>), \<open>AnalyzerService\<close> (\<open>cmd/analyzer\<close> and the subscription loop).
  \<^item> VM service: \<open>VmService\<close> (\<open>internal/vm/service\<close>, \<open>queue/handler.go\<close>), \<open>QueueRouter\<close>, \<open>DeadLetters\<close> and
    \<open>Publishers\<close> (\<open>queue/config.go\<close>, \<open>queue/router.go\<close> and the three packages that publish), \<open>VmDrives\<close>, \<open>VmRunner\<close>
    and \<open>HostSetup\<close> (\<open>internal/vm/vm\<close>), \<open>AgentProto\<close> and \<open>Agent\<close> (\<open>internal/agentproto\<close>, \<open>internal/agent\<close>).
  \<^item> Tools: \<open>CliArchive\<close>, \<open>CliConfig\<close>, \<open>CliPoll\<close>, \<open>CliCommands\<close> (\<open>cmd/cli\<close>, \<open>internal/cli\<close>, \<open>cmd/admin\<close>), \<open>ApiClient\<close>
    (the client half of \<open>api.gen.go\<close>), \<open>ApiCalls\<close> (both halves over a transport: what a call of the client gets from
    the server), \<open>CommandTree\<close> (the root commands, and \<open>upload\<close>, \<open>list\<close>, \<open>details\<close> and the polling over the API),
    \<open>Uncalled\<close> (two parts of the analyzer without a caller).
  \<^item> The whole: \<open>WorkerPool\<close> (the execute workers as a transition system), \<open>Lifecycle\<close> (every component
    that writes the database as a step on it), \<open>Refinement\<close> (the abstract life cycle of functions and
    invocations, and the simulation), \<open>ServedLife\<close> (the requests of the API as steps of that system, through a locale
    of the relations all requests respect), \<open>Platform\<close> (the services connected by the messages they send, with what can be
    observed of a run), and this theory (runs through several services).

  \<^bold>\<open>What is proved\<close>

  \<^item> Of the whole system: the invariant of the tables in every interleaving; that every step only makes
    moves of the abstract life cycle; that a READY function was under analysis, VERIFIED and claimed, and that its row names the archive that was judged and
    the drive built from it; that
    at most one worker runs an invocation; the run of a safe upload to READY, and that of an upload the
    server's own checks rejected, which becomes READY too.
  \<^item> Of the closed system: code runs in a VM only after it was uploaded, called SAFE and prepared, in this order,
    under repeated, late and lost messages and a failing database. The proof keeps, with the state, the observations made so far
    (\<open>traced\<close>): each row, event, body and message names an archive whose upload, verdict or drive was observed.
  \<^item> Of the gate: SAFE is characterised by the results of the tools the code is wired with; nothing is
    detonated before the static stages passed; a build is published only after SAFE; extraction stays
    below its directory and below 50 MiB; the server's checks accept exactly the archives of at most
    10 entries and 1 MiB with plain names, and what they accept extracts.
  \<^item> Of authentication: a request to a private route that is not correctly signed and recent changes nothing; a
    key the admin tool issued and the CLI is configured with is accepted.
  \<^item> Of the API: that requests only add work and never change the status of what exists; which status codes the server can send for which operation; what \<open>list\<close>, \<open>details\<close>, the upload and
    the polling of the CLI get from the server's tables, through the request builder, the signature, the router,
    the middlewares, the handler, the response writer and the parser. Errors of handlers are sent as 500 with their
    text: the mapping of \<open>routes.go\<close> is installed for errors of writing a response (\<open>handler_error_written\<close>).
  \<^item> Of the VM service: the outcome of \<open>Prepare\<close> and \<open>Execute\<close> on every branch, which names are accepted,
    what a failed execution leaves (the middlewares are in an order that never retries it), which files
    stay on the host, when connecting succeeds.
  \<^item> Of the agent: mount flags and users of the jobs, the order of cleaning up and reporting, and that the payload
    stays inside its literal.
  \<^item> Round trips: folder to archive to extracted files; messages over a connection; the log from the VM host to the
    server; a published build to its handler.
  \<^item> Every component also has the lemmas on its error paths; several of them are behaviours one would not
    expect (a failed analysis leaves the function VERIFIED and the CLI polling, a message lost by a crash,
    an empty report for a run that was not observed).

  \<^bold>\<open>Bounds and fuel\<close>

  No definition needs fuel. Loops that wait for the outside (polling, the subscription loop, the search for the
  boot log, the connect loop) run over the list of the answers they get, so a shorter list is a loop that is still
  waiting, a case of its own in their results. The connect loop has its 20 attempts, retries their 3,
  queues of events their 100 places, payloads their 64 KiB and 1 MiB, messages their 1 MiB.

  \<^bold>\<open>Not modelled\<close>

  Of the generated code, the loop over strict middlewares (none is passed) and the interface declarations;
  cobra's parsing of arguments and flags; the wait for a signal in \<open>cmd/analyzer\<close>; log output; the wording of
  the prompts; constructors that only store their arguments; the virtual machine monitor, the kernel and the broker
  themselves.
\<close>

section \<open>From the upload to a prepared function\<close>

lemma processed_db:
  assumes "pg_outcomes s = []" and "dec payload = Some m"
    and "analyzer (fm_path m) (fm_function m) = Verdict v err tr removed"
  shows "pr_db (processMessage dec ans analyzer q f payload s) =
     snd (updateFunctionStatus (fm_function m) v (snd (onLand (fm_function m) s)))"
    and "pg_outcomes (pr_db (processMessage dec ans analyzer q f payload s)) = []"
  using assms
  by (auto simp: processMessage_def onLand_def updateFunctionStatus_def update_fn_status_up Let_def
      split: option.splits prod.splits bool.splits)

lemma processed_wf: "pg_wf s \<Longrightarrow> pg_wf (snd (updateFunctionStatus k v (snd (onLand k s))))"
  by (simp add: updateFunctionStatus_def onLand_def wf_update_statements)

lemma quarantine_wf: "pg_wf s \<Longrightarrow> pg_wf (snd (quarantine_step getObject now e s))"
  using wf_update_statements(1)[of s "ev_function e"]
  by (auto simp: quarantine_step_def Let_def split: sum.splits prod.splits) (metis snd_conv)+

lemma published_after_safe:
  assumes "pg_outcomes s = []" and "dec payload = Some m"
    and "analyzer (fm_path m) (fm_function m) = Verdict SAFE None tr removed"
  shows "PublishBuild (fm_function m) (fm_path m) \<in> set (pr_calls (processMessage dec (\<lambda>_. True) analyzer q f payload s))"
  using assms
  by (auto simp: processMessage_def onLand_def updateFunctionStatus_def update_fn_status_up Move_def Let_def
      split: option.splits prod.splits)

text \<open>What the analyzer and the build do with a function, whatever status it had before.\<close>

lemma analysed_and_built:
  assumes "pg_wf s1" and "pg_outcomes s1 = []" and "fn_status_of s1 k = Some st"
    and "dec payload = Some (CreateMessage q k path)"
    and "AnalyzeFile ustr reports P path k = Verdict SAFE None tr removed"
    and "runner path (drive_object_name ustr fresh) (generate_prepare_object_name ustr k) = None"
  shows "let r = processMessage dec (\<lambda>_. True) (AnalyzeFile ustr reports P) q f payload s1;
          b = prepare ustr fresh runner \<lparr>bm_function = k, bm_code_object = path\<rparr> (pr_db r)
      in PublishBuild k path \<in> set (pr_calls r) \<and> fn_status_of (pr_db r) k = Some FnVerified \<and>
         fst b = None \<and> fn_status_of (snd b) k = Some FnReady"
proof -
  let ?m = "CreateMessage q k path" and ?an = "AnalyzeFile ustr reports P"
  let ?r = "processMessage dec (\<lambda>_. True) ?an q f payload s1"
  have an: "?an (fm_path ?m) (fm_function ?m) = Verdict SAFE None tr removed"
    using assms(5) by (simp add: CreateMessage_def)
  have db: "pr_db ?r = snd (updateFunctionStatus (fm_function ?m) SAFE (snd (onLand (fm_function ?m) s1)))"
    "pg_outcomes (pr_db ?r) = []"
    using processed_db[of s1 dec payload ?m ?an SAFE None tr removed, OF assms(2,4) an] by simp_all
  have wf2: "pg_wf (pr_db ?r)" unfolding db(1) by (rule processed_wf[OF assms(1)])
  have st2: "fn_status_of (pr_db ?r) k = Some FnVerified"
    using processed_status[of s1 dec payload ?m ?an SAFE, OF assms(2,4) an, of "\<lambda>_. True" q f] assms(3)
    by (simp add: CreateMessage_def)
  let ?b = "\<lparr>bm_function = k, bm_code_object = path\<rparr>"
  have "fst (prepare ustr fresh runner ?b (pr_db ?r)) = None"
    "fn_status_of (snd (prepare ustr fresh runner ?b (pr_db ?r))) k = Some FnReady"
    using prepare_verified[OF wf2 db(2), of ?b runner ustr fresh None] st2 assms(6) by simp_all
  moreover have "PublishBuild k path \<in> set (pr_calls ?r)"
    using published_after_safe[of s1 dec payload ?m ?an tr removed, OF assms(2,4) an, of q f] by (simp add: CreateMessage_def)
  ultimately show ?thesis using st2 by (simp add: Let_def)
qed

text \<open>
  C4: With every service up, an uploaded archive that the server's checks accept and the analyzer
  calls SAFE, and whose dependencies install, ends as a READY function: the quarantine worker
  marks it EXTRACTED, the analyzer publishes its build and marks it VERIFIED, and the build of that
  message stores the drive.
\<close>

theorem safe_upload_becomes_ready:
  assumes "pg_wf s" and "pg_outcomes s = []" and "fn_status_of s (ev_function e) = Some FnQuarantined"
    and "ExtractFromQuarantine getObject (ev_bucket e) (ev_path e) = None"
    and "dec payload = Some (CreateMessage q (ev_function e) (ev_path e))"
    and "AnalyzeFile ustr reports P (ev_path e) (ev_function e) = Verdict SAFE None tr removed"
    and "runner (ev_path e) (drive_object_name ustr fresh) (generate_prepare_object_name ustr (ev_function e)) = None"
  shows "\<exists>s1. quarantine_step getObject now e s = (Some (e\<lparr>ev_time := now\<rparr>), s1) \<and>
     fn_status_of s1 (ev_function e) = Some FnExtracted \<and>
     (let r = processMessage dec (\<lambda>_. True) (AnalyzeFile ustr reports P) q f payload s1;
          b = prepare ustr fresh runner \<lparr>bm_function = ev_function e, bm_code_object = ev_path e\<rparr> (pr_db r)
      in PublishBuild (ev_function e) (ev_path e) \<in> set (pr_calls r) \<and>
         fn_status_of (pr_db r) (ev_function e) = Some FnVerified \<and>
         fst b = None \<and> fn_status_of (snd b) (ev_function e) = Some FnReady)"
proof -
  obtain s1 where q: "quarantine_step getObject now e s = (Some (e\<lparr>ev_time := now\<rparr>), s1)" "pg_outcomes s1 = []"
    and marked: "fn_status_of s1 = (\<lambda>k. if k = ev_function e
       then map_option (\<lambda>_. if ExtractFromQuarantine getObject (ev_bucket e) (ev_path e) = None
                            then FnExtracted else FnFailed) (fn_status_of s (ev_function e))
       else fn_status_of s k)"
    by (rule quarantine_step_up[OF assms(2), of getObject now e])
  have st1: "fn_status_of s1 (ev_function e) = Some FnExtracted" using marked assms(3,4) by simp
  have wf1: "pg_wf s1" using quarantine_wf[OF assms(1), of getObject now e] q(1) by simp
  from analysed_and_built[where dec = dec and runner = runner, OF wf1 q(2) st1 assms(5-7)]
  show ?thesis using q(1) st1 by (simp add: Let_def)
qed

theorem safe_upload_becomes_ready_witness:
  "\<exists>s1. quarantine_step (\<lambda>_ _. Some (Some [])) 5
       \<lparr>ev_function = 7, ev_user = 1, ev_bucket = ''q'', ev_path = ''a'', ev_time = 0\<rparr>
       (sample_pg FnQuarantined InvPending) =
     (Some \<lparr>ev_function = 7, ev_user = 1, ev_bucket = ''q'', ev_path = ''a'', ev_time = 5\<rparr>, s1) \<and>
     fn_status_of s1 7 = Some FnExtracted"
proof -
  let ?e = "\<lparr>ev_function = 7, ev_user = 1, ev_bucket = ''q'', ev_path = ''a'', ev_time = 0\<rparr>"
  obtain tr removed where an: "AnalyzeFile (\<lambda>_. ''id'') ''/r'' (passing_pipeline ''SAFE'') (ev_path ?e) (ev_function ?e) =
      Verdict SAFE None tr removed"
    by (simp add: AnalyzeFile_def passing_pipeline_def Let_def)
  have "fn_status_of (sample_pg FnQuarantined InvPending) (ev_function ?e) = Some FnQuarantined"
    by (simp add: sample_pg_facts)
  moreover have "ExtractFromQuarantine (\<lambda>_ _. Some (Some [])) (ev_bucket ?e) (ev_path ?e) = None"
    by (simp add: ExtractFromQuarantine_def Unzip_def)
  ultimately show ?thesis
    using safe_upload_becomes_ready[of "sample_pg FnQuarantined InvPending" ?e "\<lambda>_ _. Some (Some [])"
        "\<lambda>_. Some (CreateMessage ''q'' (ev_function ?e) (ev_path ?e))" "''p''" "''q''", OF sample_pg_facts(1,2) _ _ refl an,
        of "\<lambda>_ _ _. None" 3 5 "''f''"]
    by simp blast
qed

section \<open>What the server's checks do not stop\<close>

text \<open>
  C22: An archive the server's checks reject, one with a link in it say, is marked FAILED and forwarded
  all the same: when the analyzer calls it SAFE the function ends READY like any other, so that the
  checks of the upload stop nothing.
\<close>

theorem rejected_upload_becomes_ready:
  assumes "pg_wf s" and "pg_outcomes s = []" and "fn_status_of s (ev_function e) = Some FnQuarantined"
    and "ExtractFromQuarantine getObject (ev_bucket e) (ev_path e) = Some failure"
    and "dec payload = Some (CreateMessage q (ev_function e) (ev_path e))"
    and "AnalyzeFile ustr reports P (ev_path e) (ev_function e) = Verdict SAFE None tr removed"
    and "runner (ev_path e) (drive_object_name ustr fresh) (generate_prepare_object_name ustr (ev_function e)) = None"
  shows "\<exists>s1. quarantine_step getObject now e s = (Some (e\<lparr>ev_time := now\<rparr>), s1) \<and>
     fn_status_of s1 (ev_function e) = Some FnFailed \<and>
     (let r = processMessage dec (\<lambda>_. True) (AnalyzeFile ustr reports P) q f payload s1;
          b = prepare ustr fresh runner \<lparr>bm_function = ev_function e, bm_code_object = ev_path e\<rparr> (pr_db r)
      in PublishBuild (ev_function e) (ev_path e) \<in> set (pr_calls r) \<and> fn_status_of (pr_db r) (ev_function e) = Some FnVerified \<and>
         fst b = None \<and> fn_status_of (snd b) (ev_function e) = Some FnReady)"
proof -
  obtain s1 where q: "quarantine_step getObject now e s = (Some (e\<lparr>ev_time := now\<rparr>), s1)" "pg_outcomes s1 = []"
    and marked: "fn_status_of s1 = (\<lambda>k. if k = ev_function e
       then map_option (\<lambda>_. if ExtractFromQuarantine getObject (ev_bucket e) (ev_path e) = None
                            then FnExtracted else FnFailed) (fn_status_of s (ev_function e))
       else fn_status_of s k)"
    by (rule quarantine_step_up[OF assms(2), of getObject now e])
  have st1: "fn_status_of s1 (ev_function e) = Some FnFailed" using marked assms(3,4) by simp
  have wf1: "pg_wf s1" using quarantine_wf[OF assms(1), of getObject now e] q(1) by simp
  from analysed_and_built[where dec = dec and runner = runner, OF wf1 q(2) st1 assms(5-7)]
  show ?thesis using q(1) st1 by (simp add: Let_def)
qed

definition link_archive :: archives where
  "link_archive = (\<lambda>_ _. Some (Some [Some \<lparr>th_name = ''passwd'', th_type = CHR ''2'', th_size = 0\<rparr>]))"

definition sample_event :: event where
  "sample_event = \<lparr>ev_function = 7, ev_user = 1, ev_bucket = ''q'', ev_path = ''a'', ev_time = 0\<rparr>"

theorem rejected_upload_becomes_ready_witness:
  "\<exists>s1. quarantine_step link_archive 5 sample_event (sample_pg FnQuarantined InvPending) =
       (Some (sample_event\<lparr>ev_time := 5\<rparr>), s1) \<and> fn_status_of s1 7 = Some FnFailed"
proof -
  obtain tr removed where an: "AnalyzeFile (\<lambda>_. ''id'') ''/r'' (passing_pipeline ''SAFE'') (ev_path sample_event)
      (ev_function sample_event) = Verdict SAFE None tr removed"
    by (simp add: AnalyzeFile_def passing_pipeline_def Let_def)
  have st: "fn_status_of (sample_pg FnQuarantined InvPending) (ev_function sample_event) = Some FnQuarantined"
    by (simp add: sample_pg_facts sample_event_def)
  obtain failure where bad: "ExtractFromQuarantine link_archive (ev_bucket sample_event) (ev_path sample_event) = Some failure"
    by (simp add: ExtractFromQuarantine_def Unzip_def link_archive_def validateTarHeader_def TypeReg_def TypeDir_def)
  show ?thesis
    using rejected_upload_becomes_ready[of "sample_pg FnQuarantined InvPending" sample_event link_archive failure
        "\<lambda>_. Some (CreateMessage ''q'' (ev_function sample_event) (ev_path sample_event))" "''p''" "''q''",
        OF sample_pg_facts(1,2) st bad refl an, of "\<lambda>_ _ _. None" 3 5 "''f''"]
    by (auto simp: sample_event_def)
qed

section \<open>What the CLI shows\<close>

definition answer_of :: "string reply \<Rightarrow> poll_answer" where
  "answer_of r = Answer (response_status r) (case r of Reply _ st \<Rightarrow> Some st | _ \<Rightarrow> None)"

lemma status_answer:
  assumes "pg_outcomes s = []" and "fn_status_of s k = Some st"
  shows "GetFunctionStatus k s = (Reply 200 (fn_status_text st), s)"
proof -
  obtain f where "find_function s k = Some f" "f_status f = st"
    using assms(2) by (auto simp: fn_status_of_def status_in_def find_function_def)
  then show ?thesis
    using assms(1) by (simp add: GetFunctionStatus_def get_function_status_by_id_def db_exec_def)
qed

lemma poll_unchanged:
  "\<not> terminal st \<Longrightarrow> fst (poll_loop before (replicate n (Answer 200 (Some st)))) = StillPolling"
  by (induction n arbitrary: before) (simp_all add: Let_def split_beta)

text \<open>
  After an analysis that failed, because a scanner was down or found a virus say, the CLI that uploaded the
  function polls for ever: every answer it gets is VERIFIED, which is not a final status, and no message is
  left that would change it.
\<close>

theorem failed_analysis_polls_forever:
  assumes "pg_outcomes s = []" and "dec payload = Some m" and "fn_status_of s (fm_function m) = Some st"
    and "AnalyzeFile ustr reports P (fm_path m) (fm_function m) = Verdict FAILURE (Some e) tr removed"
  shows "let r = processMessage dec ans (AnalyzeFile ustr reports P) q f payload s;
             answer = answer_of (fst (GetFunctionStatus (fm_function m) (pr_db r)))
         in pr_calls r = [] \<and> answer = Answer 200 (Some ''VERIFIED'') \<and>
            fst (poll_loop [] (replicate n answer)) = StillPolling"
proof -
  let ?r = "processMessage dec ans (AnalyzeFile ustr reports P) q f payload s"
  have up: "pg_outcomes (pr_db ?r) = []"
    using processed_db(2)[where analyzer = "AnalyzeFile ustr reports P" and dec = dec, OF assms(1,2,4)] .
  have "fn_status_of (pr_db ?r) (fm_function m) = Some FnVerified"
    using processed_status[where analyze = "AnalyzeFile ustr reports P" and dec = dec, OF assms(1,2,4), of ans q f] assms(3) by simp
  then have answer: "answer_of (fst (GetFunctionStatus (fm_function m) (pr_db ?r))) = Answer 200 (Some ''VERIFIED'')"
    by (simp add: status_answer[OF up] answer_of_def)
  have "pr_calls ?r = []"
    using assms(1,2,4)
    by (auto simp: processMessage_def onLand_def updateFunctionStatus_def update_fn_status_up Let_def)
  then show ?thesis using answer poll_unchanged[of "''VERIFIED''" "[]" n] by (simp add: terminal_def Let_def)
qed

theorem failed_analysis_polls_forever_witness:
  "fst (poll_loop [] (replicate 3600 (Answer 200 (Some ''VERIFIED'')))) = StillPolling"
proof -
  let ?m = "\<lparr>fm_function = 7, fm_bucket = ''q'', fm_path = ''a''\<rparr>"
  let ?P = "(passing_pipeline ''SAFE'')\<lparr>p_scan := \<lambda>_. Inl ScanNotStarted\<rparr>"
  obtain e tr removed where an: "AnalyzeFile (\<lambda>_. ''id'') ''/r'' ?P (fm_path ?m) (fm_function ?m) = Verdict FAILURE (Some e) tr removed"
    by (simp add: AnalyzeFile_def passing_pipeline_def Let_def)
  have st: "fn_status_of (sample_pg FnExtracted InvPending) (fm_function ?m) = Some FnExtracted"
    by (simp add: sample_pg_facts)
  show ?thesis
    using failed_analysis_polls_forever[where dec = "\<lambda>_. Some ?m" and n = 3600, OF sample_pg_facts(2)[of FnExtracted InvPending] refl st an,
        of "\<lambda>_. True" "''q''" "''f''"]
    unfolding Let_def by metis
qed

section \<open>Payloads the front end accepts and the back end drops\<close>



section \<open>The outcome a user sees\<close>

text \<open>
  User code that fails is recorded as a success: when the VM ran and its log was stored, the
  invocation is DONE whatever exit code the code ended with.
\<close>

theorem failed_code_recorded_done:
  assumes "pg_wf s" and "pg_outcomes s = []" and "inv_status_of s (em_invocation m) = Some InvPending"
    and "\<forall>op. ok op \<or> (\<exists>b obj p. op = FPutObject b obj p)" and "fst (Connect (en_dial env))"
    and "fst (Stream (en_put env) (en_received env)) = Inr fin"
  shows "inv_status_of (snd (execute ustr fmt t1 t2
           (\<lambda>code deps logs payload. run_error_of (fst (Execute ok env tn cb db code deps logs))) m s))
         (em_invocation m) = Some InvDone"
proof -
  let ?run = "\<lambda>code deps logs payload. run_error_of (fst (Execute ok env tn cb db code deps logs))"
  have "?run (em_code_object m) (em_deps_object m) (generate_object_name ustr fmt (em_invocation m) t1) (em_payload m) = None"
    by (simp add: execution_succeeds[OF assms(4-6)] run_error_of_def)
  then show ?thesis
    using execute_pending[OF assms(1-3), of ?run ustr fmt t1 None t2] by simp
qed

theorem failed_code_recorded_done_witness:
  "inv_status_of (snd (execute (\<lambda>_. ''id'') (\<lambda>_. ''t'') 1 2
     (\<lambda>code deps logs payload. run_error_of (fst (Execute (\<lambda>_. True) (sample_env (Done 1)) sample_names ''f'' ''d'' code deps logs)))
     \<lparr>em_invocation = 9, em_code_object = ''a'', em_deps_object = ''d'', em_payload = ''{}''\<rparr>
     (sample_pg FnReady InvPending))) 9 = Some InvDone"
proof -
  let ?m = "\<lparr>em_invocation = 9, em_code_object = ''a'', em_deps_object = ''d'', em_payload = ''{}''\<rparr>"
  have "inv_status_of (sample_pg FnReady InvPending) (em_invocation ?m) = Some InvPending"
    by (simp add: sample_pg_facts)
  from failed_code_recorded_done[OF sample_pg_facts(1,2) this, of "\<lambda>_. True" "sample_env (Done 1)" "Done 1"]
    sample_env_runs[of 1]
  show ?thesis by simp
qed

end
